(* ===== verification/Prelude.thy ===== *)
theory Prelude
  imports
    Main
    "HOL-Library.Word"
    "HOL-Library.Signed_Division"
    "HOL-Library.Multiset"
    "HOL-Library.Sublist"
    "HOL-Library.List_Lexorder"
    "HOL-Library.Char_ord"
    "HOL-Library.AList"
    "HOL-Library.State_Monad"
begin

text \<open>
  The vocabulary every component theory shares: Go's integers at their width, errors and panics as
  values, loops that stop at the first error (pure and over a state), the contract of
  \<^verbatim>\<open>sort.Slice\<close>, and the list and string lemmas the component proofs rest on.
\<close>

named_theorems go_simps \<open>evaluation of the Go primitives\<close>
named_theorems state_simps \<open>running the stateful combinators\<close>

section \<open>Errors and panics\<close>

text \<open>
  An \<^verbatim>\<open>error\<close> value of the program: one made by \<^verbatim>\<open>errors.New\<close>, the API machinery's NotFound
  status, or any other error the API client hands back. A fault is how a call can end other than
  by returning its value: it returns a non-nil error, or it panics.
\<close>

datatype go_error =
    ErrorString string
  | NotFoundError
  | ApiError string

datatype go_fault = Err go_error | Panic string

type_synonym 'a go_result = "go_fault + 'a"

definition index_out_of_range :: go_fault where
  "index_out_of_range = Panic ''index out of range''"

definition nil_dereference :: go_fault where
  "nil_dereference = Panic ''invalid memory address or nil pointer dereference''"

definition is_ok :: "'a go_result \<Rightarrow> bool" where
  "is_ok r = (case r of Inl _ \<Rightarrow> False | Inr _ \<Rightarrow> True)"

definition is_panic :: "'a go_result \<Rightarrow> bool" where
  "is_panic r = (case r of Inl (Panic _) \<Rightarrow> True | _ \<Rightarrow> False)"

section \<open>Integers\<close>

text \<open>
  \<^verbatim>\<open>int\<close> is 64 bits wide on the platforms the controller is built for. Conversion to \<^verbatim>\<open>int32\<close> keeps
  the low 32 bits; division truncates towards zero.
\<close>

type_synonym go_int = "64 word"
type_synonym go_int32 = "32 word"

definition int32 :: "go_int \<Rightarrow> go_int32" where
  "int32 x = ucast x"

definition go_len :: "'a list \<Rightarrow> go_int" where
  "go_len xs = word_of_nat (length xs)"

definition go_quot :: "go_int \<Rightarrow> go_int \<Rightarrow> go_int" where
  "go_quot a b = word_of_int (sint a sdiv sint b)"

section \<open>Loops that return at the first error\<close>

text \<open>
  \<^verbatim>\<open>for _, x := range xs { y, err := f(x); if err != nil { return err }; out = append(out, y) }\<close>
\<close>

fun traverse_go :: "('a \<Rightarrow> 'b go_result) \<Rightarrow> 'a list \<Rightarrow> 'b list go_result" where
  "traverse_go f [] = Inr []"
| "traverse_go f (x # xs) =
     (case f x of
        Inl e \<Rightarrow> Inl e
      | Inr y \<Rightarrow> (case traverse_go f xs of Inl e \<Rightarrow> Inl e | Inr ys \<Rightarrow> Inr (y # ys)))"

text \<open>
  Effects: a call that may fail is a state transformer returning a result. \<open>if_ok m f\<close> is
  \<^verbatim>\<open>x, err := m; if err != nil { return err }; f(x)\<close>, and \<open>foreach_go\<close> the loop whose body may
  return an error.
\<close>

type_synonym ('s, 'a) go_action = "('s, 'a go_result) state"

definition go_return :: "'a \<Rightarrow> ('s, 'a) go_action" where
  "go_return x = State_Monad.return (Inr x)"

definition go_fail :: "go_fault \<Rightarrow> ('s, 'a) go_action" where
  "go_fail e = State_Monad.return (Inl e)"

definition if_ok :: "('s, 'a) go_action \<Rightarrow> ('a \<Rightarrow> ('s, 'b) go_action) \<Rightarrow> ('s, 'b) go_action" where
  "if_ok m f = do { r \<leftarrow> m; (case r of Inl e \<Rightarrow> go_fail e | Inr x \<Rightarrow> f x) }"

fun foreach_go :: "('a \<Rightarrow> ('s, unit) go_action) \<Rightarrow> 'a list \<Rightarrow> ('s, unit) go_action" where
  "foreach_go f [] = go_return ()"
| "foreach_go f (x # xs) = if_ok (f x) (\<lambda>_. foreach_go f xs)"

section \<open>sort.Slice\<close>

text \<open>
  \<^verbatim>\<open>sort.Slice\<close> promises a permutation of the slice that is sorted by the given strict weak order,
  and nothing about elements neither of which is less than the other (the sort is not stable).
  The components take the sort as an argument and rely on this contract only.
\<close>

definition strict_weak_order :: "('a \<Rightarrow> 'a \<Rightarrow> bool) \<Rightarrow> bool" where
  "strict_weak_order lt \<longleftrightarrow>
     (\<forall>x. \<not> lt x x) \<and>
     (\<forall>x y z. lt x y \<longrightarrow> lt y z \<longrightarrow> lt x z) \<and>
     (\<forall>x y z. \<not> lt x y \<longrightarrow> \<not> lt y z \<longrightarrow> \<not> lt x z)"

text \<open>
  The insertion sort that \<^verbatim>\<open>sort.Slice\<close> runs on short slices: each element moves left while it is
  less than its left neighbour. \<open>insert_left\<close> works on the reversed sorted prefix.
\<close>

fun insert_left :: "('a \<Rightarrow> 'a \<Rightarrow> bool) \<Rightarrow> 'a \<Rightarrow> 'a list \<Rightarrow> 'a list" where
  "insert_left lt x [] = [x]"
| "insert_left lt x (y # ys) = (if lt x y then y # insert_left lt x ys else x # y # ys)"

definition insertionSort :: "('a \<Rightarrow> 'a \<Rightarrow> bool) \<Rightarrow> 'a list \<Rightarrow> 'a list" where
  "insertionSort lt xs = rev (foldl (\<lambda>acc x. insert_left lt x acc) [] xs)"

section \<open>Lemmas: results and loops\<close>

lemma is_ok_simps [simp]: "is_ok (Inr x)" "\<not> is_ok (Inl e)"
  by (simp_all add: is_ok_def)

lemma is_panic_simps [simp]: "\<not> is_panic (Inr x)" "is_panic (Inl e) \<longleftrightarrow> (\<exists>m. e = Panic m)"
  by (simp_all add: is_panic_def split: go_fault.splits)

lemma is_ok_iff: "is_ok r \<longleftrightarrow> (\<exists>x. r = Inr x)"
  by (cases r) simp_all

lemma traverse_go_Inr_iff:
  "traverse_go f xs = Inr ys \<longleftrightarrow> list_all2 (\<lambda>x y. f x = Inr y) xs ys"
proof (induction xs arbitrary: ys)
  case Nil
  then show ?case by auto
next
  case (Cons x xs)
  show ?case
    by (auto simp: list_all2_Cons1 simp flip: Cons.IH split: sum.splits)
qed

lemma traverse_go_Inr_map: "(\<And>x. x \<in> set xs \<Longrightarrow> f x = Inr (g x)) \<Longrightarrow> traverse_go f xs = Inr (map g xs)"
  by (induction xs) auto

lemma traverse_go_Inr_mapD:
  assumes "traverse_go f xs = Inr ys" and "\<And>x y. x \<in> set xs \<Longrightarrow> f x = Inr y \<Longrightarrow> y = g x"
  shows "ys = map g xs"
  using assms
  by (induction xs arbitrary: ys) (auto split: sum.splits)

lemma traverse_go_ok_iff: "is_ok (traverse_go f xs) \<longleftrightarrow> (\<forall>x \<in> set xs. is_ok (f x))"
  by (induction xs) (auto simp: is_ok_iff split: sum.splits)

lemma traverse_go_Inl:
  "traverse_go f xs = Inl e \<Longrightarrow>
     \<exists>pre x post. xs = pre @ x # post \<and> (\<forall>y \<in> set pre. is_ok (f y)) \<and> f x = Inl e"
proof (induction xs)
  case Nil
  then show ?case by simp
next
  case (Cons x xs)
  show ?case
  proof (cases "f x")
    case (Inl e')
    with Cons.prems have "x # xs = [] @ x # xs \<and> (\<forall>y \<in> set []. is_ok (f y)) \<and> f x = Inl e"
      by simp
    then show ?thesis by blast
  next
    case (Inr y)
    with Cons.prems have "traverse_go f xs = Inl e" by (simp split: sum.splits)
    then obtain pre z post where
      "xs = pre @ z # post" "\<forall>y \<in> set pre. is_ok (f y)" "f z = Inl e"
      using Cons.IH by blast
    with Inr have "x # xs = (x # pre) @ z # post \<and> (\<forall>y \<in> set (x # pre). is_ok (f y)) \<and> f z = Inl e"
      by simp
    then show ?thesis by blast
  qed
qed

lemma run_go_return [state_simps, simp]: "run_state (go_return x) s = (Inr x, s)"
  by (simp add: go_return_def)

lemma run_go_fail [state_simps, simp]: "run_state (go_fail e) s = (Inl e, s)"
  by (simp add: go_fail_def)

lemma run_if_ok [state_simps]:
  "run_state (if_ok m f) s =
     (case run_state m s of (Inl e, s') \<Rightarrow> (Inl e, s') | (Inr x, s') \<Rightarrow> run_state (f x) s')"
  by (simp add: if_ok_def split: prod.splits sum.splits)

lemma run_if_ok_Inr [simp]: "run_state m s = (Inr x, s') \<Longrightarrow> run_state (if_ok m f) s = run_state (f x) s'"
  by (simp add: run_if_ok)

lemma run_if_ok_Inl [simp]: "run_state m s = (Inl e, s') \<Longrightarrow> run_state (if_ok m f) s = (Inl e, s')"
  by (simp add: run_if_ok)

lemma if_ok_assoc: "if_ok (if_ok m f) g = if_ok m (\<lambda>x. if_ok (f x) g)"
  by (rule state.expand) (auto simp: run_if_ok split: prod.splits sum.splits)

lemma run_if_ok_InrE:
  assumes "run_state (if_ok m f) s = (Inr y, t)"
  obtains x s' where "run_state m s = (Inr x, s')" and "run_state (f x) s' = (Inr y, t)"
  using assms by (auto simp: run_if_ok split: prod.splits sum.splits)

text \<open>
  A loop with an invariant indexed by the elements already done: the reasoning step every loop over
  API objects uses.
\<close>

lemma foreach_go_inv:
  assumes "run_state (foreach_go f xs) s = (r, t)" and "I [] s"
    and ok: "\<And>ys y zs u v. xs = ys @ y # zs \<Longrightarrow> I ys u \<Longrightarrow> run_state (f y) u = (Inr (), v) \<Longrightarrow> I (ys @ [y]) v"
    and "r = Inr ()"
  shows "I xs t"
proof -
  have "run_state (foreach_go f zs) u = (Inr (), t) \<Longrightarrow> xs = ys @ zs \<Longrightarrow> I ys u \<Longrightarrow> I xs t" for ys zs u
  proof (induction zs arbitrary: ys u)
    case Nil
    then show ?case by simp
  next
    case (Cons z zs)
    from Cons.prems(1) obtain v where v: "run_state (f z) u = (Inr (), v)"
      and rest: "run_state (foreach_go f zs) v = (Inr (), t)"
      by (auto elim: run_if_ok_InrE)
    from ok [OF Cons.prems(2) Cons.prems(3) v] have "I (ys @ [z]) v" .
    from Cons.IH [OF rest _ this] Cons.prems(2) show ?case by simp
  qed
  from this [of xs s "[]"] assms show ?thesis by simp
qed

text \<open>
  \<open>keeps v m\<close>: whatever the outcome, \<open>m\<close> leaves the view \<open>v\<close> of the state as it was. Actions built
  from such actions are such actions.
\<close>

definition keeps :: "('s \<Rightarrow> 'v) \<Rightarrow> ('s, 'a) state \<Rightarrow> bool" where
  "keeps v m \<longleftrightarrow> (\<forall>s r t. run_state m s = (r, t) \<longrightarrow> v t = v s)"

lemma keepsD: "keeps v m \<Longrightarrow> run_state m s = (r, t) \<Longrightarrow> v t = v s"
  unfolding keeps_def by blast

lemma keeps_return [simp, intro]: "keeps v (go_return x)" "keeps v (go_fail e)"
  by (simp_all add: keeps_def)

lemma keeps_bind [intro]: "keeps v m \<Longrightarrow> (\<And>x. keeps v (f x)) \<Longrightarrow> keeps v (m \<bind> f)"
  unfolding keeps_def by (auto split: prod.splits)

lemma keeps_if_ok [intro]: "keeps v m \<Longrightarrow> (\<And>x. keeps v (f x)) \<Longrightarrow> keeps v (if_ok m f)"
  unfolding if_ok_def by (rule keeps_bind) (auto split: sum.splits)

lemma keeps_foreach_go [intro]: "(\<And>x. keeps v (f x)) \<Longrightarrow> keeps v (foreach_go f xs)"
  by (induction xs) auto

text \<open>
  \<open>triple P m Q E\<close>: from a state in \<open>P\<close> the action ends in \<open>Q x\<close> when it returns \<open>x\<close> and in \<open>E\<close> when
  it returns an error or panics.
\<close>

definition triple :: "('s \<Rightarrow> bool) \<Rightarrow> ('s, 'a) go_action \<Rightarrow> ('a \<Rightarrow> 's \<Rightarrow> bool) \<Rightarrow> ('s \<Rightarrow> bool) \<Rightarrow> bool" where
  "triple P m Q E \<longleftrightarrow> (\<forall>s r t. P s \<longrightarrow> run_state m s = (r, t) \<longrightarrow> (case r of Inl _ \<Rightarrow> E t | Inr x \<Rightarrow> Q x t))"

lemma tripleI:
  assumes "\<And>s x t. P s \<Longrightarrow> run_state m s = (Inr x, t) \<Longrightarrow> Q x t"
    and "\<And>s e t. P s \<Longrightarrow> run_state m s = (Inl e, t) \<Longrightarrow> E t"
  shows "triple P m Q E"
  unfolding triple_def using assms by (auto split: sum.splits)

lemma tripleD:
  assumes "triple P m Q E" and "P s" and "run_state m s = (r, t)"
  shows "case r of Inl _ \<Rightarrow> E t | Inr x \<Rightarrow> Q x t"
  using assms unfolding triple_def by blast

lemma triple_weaken:
  assumes "triple P' m Q' E'" and "\<And>s. P s \<Longrightarrow> P' s" and "\<And>x s. Q' x s \<Longrightarrow> Q x s" and "\<And>s. E' s \<Longrightarrow> E s"
  shows "triple P m Q E"
  using assms unfolding triple_def by (auto split: sum.splits) blast+

lemma triple_return: "(\<And>s. P s \<Longrightarrow> Q x s) \<Longrightarrow> triple P (go_return x) Q E"
  by (rule tripleI) simp_all

lemma triple_fail: "(\<And>s. P s \<Longrightarrow> E s) \<Longrightarrow> triple P (go_fail e) Q E"
  by (rule tripleI) simp_all

lemma triple_if_ok:
  assumes "triple P m Q E" and "\<And>x. triple (Q x) (f x) R E"
  shows "triple P (if_ok m f) R E"
  using assms unfolding triple_def by (fastforce simp: run_if_ok split: prod.splits sum.splits)

lemma triple_seq:
  assumes "triple I m (\<lambda>_. I) I" and "\<And>x. triple I (f x) (\<lambda>_. I) I"
  shows "triple I (if_ok m f) (\<lambda>_. I) I"
  using assms by (rule triple_if_ok)

lemma triple_foreach_go:
  assumes "\<And>x. x \<in> set xs \<Longrightarrow> triple I (f x) (\<lambda>_. I) I"
  shows "triple I (foreach_go f xs) (\<lambda>_. I) I"
  using assms
proof (induction xs)
  case Nil
  show ?case by (simp add: triple_return)
next
  case (Cons x xs)
  then have "triple I (f x) (\<lambda>_. I) I" and "triple I (foreach_go f xs) (\<lambda>_. I) I" by simp_all
  then show ?case by (simp add: triple_if_ok)
qed

text \<open>An action that keeps a view keeps every assertion about it.\<close>

lemma triple_keeps: "keeps v m \<Longrightarrow> triple (\<lambda>s. P (v s)) m (\<lambda>_ s. P (v s)) (\<lambda>s. P (v s))"
  by (rule tripleI) (auto dest: keepsD)

section \<open>The last element with a key\<close>

text \<open>
  What is left of a list whose elements are stored under their keys one after the other: an element
  stays when no later one has its key.
\<close>

definition last_of :: "('a \<Rightarrow> 'k) \<Rightarrow> 'a list \<Rightarrow> 'a \<Rightarrow> bool" where
  "last_of key xs x \<longleftrightarrow> (\<exists>ys zs. xs = ys @ x # zs \<and> key x \<notin> key ` set zs)"

lemma last_of_mem: "last_of key xs x \<Longrightarrow> x \<in> set xs"
  by (auto simp: last_of_def)

lemma last_of_Nil [simp]: "\<not> last_of key [] x"
  by (simp add: last_of_def)

lemma last_of_snoc: "last_of key (xs @ [y]) x \<longleftrightarrow> x = y \<or> last_of key xs x \<and> key x \<noteq> key y"
proof
  assume "last_of key (xs @ [y]) x"
  then obtain ys zs where xs: "xs @ [y] = ys @ x # zs" and x: "key x \<notin> key ` set zs" unfolding last_of_def by blast
  show "x = y \<or> last_of key xs x \<and> key x \<noteq> key y"
  proof (cases zs rule: rev_cases)
    case Nil
    with xs show ?thesis by simp
  next
    case (snoc zs' z)
    with xs x have "xs = ys @ x # zs'" "z = y" "key x \<notin> key ` set zs'" "key x \<noteq> key y" by auto
    then show ?thesis unfolding last_of_def by blast
  qed
next
  assume "x = y \<or> last_of key xs x \<and> key x \<noteq> key y"
  then show "last_of key (xs @ [y]) x"
  proof
    assume "x = y"
    then show ?thesis unfolding last_of_def by (intro exI [of _ xs] exI [of _ "[]"]) simp
  next
    assume "last_of key xs x \<and> key x \<noteq> key y"
    then obtain ys zs where "xs = ys @ x # zs" "key x \<notin> key ` set zs" "key x \<noteq> key y" unfolding last_of_def by blast
    then show ?thesis unfolding last_of_def by (intro exI [of _ ys] exI [of _ "zs @ [y]"]) simp
  qed
qed

lemma last_of_exists: "k \<in> key ` set xs \<Longrightarrow> \<exists>x. last_of key xs x \<and> key x = k"
proof (induction xs rule: rev_induct)
  case (snoc y ys)
  then show ?case by (cases "key y = k") (auto simp: last_of_snoc)
qed simp

lemma last_of_distinct: "distinct (map key xs) \<Longrightarrow> last_of key xs x \<longleftrightarrow> x \<in> set xs"
proof (induction xs rule: rev_induct)
  case (snoc y ys)
  then have "key x \<noteq> key y" if "x \<in> set ys" using that by (auto simp: image_iff)
  with snoc show ?case by (auto simp: last_of_snoc)
qed simp

section \<open>Lemmas: integers\<close>

lemma go_len_Nil [go_simps, simp]: "go_len [] = 0"
  by (simp add: go_len_def)

lemma sint_word_of_nat_small [go_simps]:
  "n < 2 ^ 63 \<Longrightarrow> sint (word_of_nat n :: go_int) = int n"
  by (simp add: signed_of_nat signed_take_bit_int_eq_self)

lemma sint_go_len: "length xs < 2 ^ 63 \<Longrightarrow> sint (go_len xs) = int (length xs)"
  by (simp add: go_len_def sint_word_of_nat_small)

lemma int32_word_of_int [go_simps]: "int32 (word_of_int i) = word_of_int i"
  unfolding int32_def by (rule ucast_down_wi) (simp add: is_down)

lemma int32_eq_sint: "int32 x = word_of_int (sint x)"
  using int32_word_of_int [of "sint x"] by simp

lemma int32_add [go_simps]: "int32 (a + b) = int32 a + int32 b"
proof -
  have "a + b = word_of_int (sint a + sint b)" by simp
  then have "int32 (a + b) = word_of_int (sint a + sint b)" by (metis int32_word_of_int)
  then show ?thesis by (simp add: int32_eq_sint)
qed

lemma int32_0 [go_simps, simp]: "int32 0 = 0"
  by (simp add: int32_def)

lemma int32_sum_list: "int32 (sum_list ws) = sum_list (map int32 ws)"
  by (induction ws) (simp_all add: int32_add)

text \<open>A 64-bit value in the signed 32-bit range survives the conversion.\<close>

lemma sint_int32:
  assumes "- (2 ^ 31) \<le> sint x" and "sint x < 2 ^ 31"
  shows "sint (int32 x) = sint x"
  using assms unfolding int32_eq_sint
  by (subst signed_of_int) (simp add: signed_take_bit_int_eq_self)

text \<open>The quotient \<open>c div n\<close> for the non-negative operands the builder divides.\<close>

lemma go_quot_nonneg:
  "0 \<le> sint a \<Longrightarrow> 0 \<le> sint b \<Longrightarrow> go_quot a b = word_of_int (sint a div sint b)"
  by (simp add: go_quot_def signed_divide_int_def sgn_if)

section \<open>Lemmas: strings\<close>

text \<open>Go compares strings byte by byte; a proper prefix comes first.\<close>

lemma strict_prefix_less: "strict_prefix xs ys \<Longrightarrow> xs < ys" for xs ys :: "'a::order list"
  by (auto simp: list_less_def elim!: strict_prefixE' intro!: lexord_append_rightI)

lemma append_less_cancel: "zs @ xs < zs @ ys \<longleftrightarrow> xs < ys" for xs ys zs :: "'a::order list"
  by (induction zs) simp_all

section \<open>Lemmas: sorting\<close>

text \<open>A list sorted by a strict key order without ties is determined by its elements.\<close>

lemma sorted_wrt_strict_unique:
  assumes "mset xs = mset ys" and "sorted_wrt P xs" and "sorted_wrt P ys"
    and "\<And>x y. P x y \<Longrightarrow> P y x \<Longrightarrow> x \<in> set xs \<Longrightarrow> y \<in> set xs \<Longrightarrow> x = y"
  shows "xs = ys"
  using assms
proof (induction xs arbitrary: ys)
  case Nil
  then show ?case by simp
next
  case (Cons x xs)
  from Cons.prems(1) obtain y ys' where ys: "ys = y # ys'"
    by (cases ys) auto
  have "x = y"
  proof (rule ccontr)
    assume "x \<noteq> y"
    with Cons.prems(1) ys have "x \<in> set ys'" and "y \<in> set xs"
      by (metis list.set_intros(1) set_ConsD set_mset_mset)+
    with Cons.prems(2,3) ys have "P x y" and "P y x" by auto
    with \<open>x \<noteq> y\<close> \<open>y \<in> set xs\<close> Cons.prems(4) show False by auto
  qed
  with Cons.prems(1) ys have "mset xs = mset ys'" by simp
  moreover from Cons.prems(2,3) ys have "sorted_wrt P xs" "sorted_wrt P ys'" by simp_all
  ultimately have "xs = ys'" using Cons.IH Cons.prems(4) by simp
  with \<open>x = y\<close> ys show ?case by simp
qed

lemma mset_insert_left: "mset (insert_left lt x ys) = add_mset x (mset ys)"
  by (induction ys) auto

lemma set_insert_left: "set (insert_left lt x ys) = insert x (set ys)"
  by (induction ys) auto

lemma sorted_insert_left:
  assumes "strict_weak_order lt" and "sorted_wrt (\<lambda>a b. \<not> lt a b) ys"
  shows "sorted_wrt (\<lambda>a b. \<not> lt a b) (insert_left lt x ys)"
  using assms(2)
proof (induction ys)
  case Nil
  then show ?case by simp
next
  case (Cons y ys)
  show ?case
  proof (cases "lt x y")
    case True
    then have "\<not> lt y x" using assms(1) unfolding strict_weak_order_def by blast
    with True Cons show ?thesis by (auto simp: set_insert_left)
  next
    case False
    then have "\<forall>z \<in> set ys. \<not> lt x z"
      using Cons.prems assms(1) unfolding strict_weak_order_def sorted_wrt.simps by blast
    with False Cons show ?thesis by simp
  qed
qed

locale go_sort =
  fixes sortSlice :: "('a \<Rightarrow> 'a \<Rightarrow> bool) \<Rightarrow> 'a list \<Rightarrow> 'a list"
  assumes sort_perm: "mset (sortSlice lt xs) = mset xs"
    and sort_sorted: "strict_weak_order lt \<Longrightarrow> sorted_wrt (\<lambda>x y. \<not> lt y x) (sortSlice lt xs)"
begin

lemma sort_set [simp]: "set (sortSlice lt xs) = set xs"
  using sort_perm by (metis set_mset_mset)

lemma sort_length [simp]: "length (sortSlice lt xs) = length xs"
  using sort_perm by (metis size_mset)

lemma sort_Nil_iff [simp]: "sortSlice lt xs = [] \<longleftrightarrow> xs = []"
  using sort_length by (metis length_0_conv)

lemma sort_singleton [simp]: "sortSlice lt [x] = [x]"
  using sort_perm [of lt "[x]"] by simp

text \<open>Two permutations of one slice without ties sort to the same slice.\<close>

lemma sort_perm_eq:
  assumes "strict_weak_order lt" and "mset xs = mset ys"
    and "\<And>x y. x \<in> set xs \<Longrightarrow> y \<in> set xs \<Longrightarrow> \<not> lt x y \<Longrightarrow> \<not> lt y x \<Longrightarrow> x = y"
  shows "sortSlice lt xs = sortSlice lt ys"
proof (rule sorted_wrt_strict_unique)
  show "mset (sortSlice lt xs) = mset (sortSlice lt ys)"
    using assms(2) by (simp add: sort_perm)
  show "sorted_wrt (\<lambda>x y. \<not> lt y x) (sortSlice lt xs)" "sorted_wrt (\<lambda>x y. \<not> lt y x) (sortSlice lt ys)"
    using assms(1) by (rule sort_sorted)+
qed (use assms(3) in auto)

end

interpretation insertion: go_sort insertionSort
proof
  fix lt :: "'a \<Rightarrow> 'a \<Rightarrow> bool" and xs
  have "mset (foldl (\<lambda>acc x. insert_left lt x acc) ys xs) = mset ys + mset xs" for ys
    by (induction xs arbitrary: ys) (auto simp: mset_insert_left)
  then show "mset (insertionSort lt xs) = mset xs"
    by (simp add: insertionSort_def)
  assume swo: "strict_weak_order lt"
  have "sorted_wrt (\<lambda>a b. \<not> lt a b) ys \<Longrightarrow>
      sorted_wrt (\<lambda>a b. \<not> lt a b) (foldl (\<lambda>acc x. insert_left lt x acc) ys xs)" for ys
    using swo by (induction xs arbitrary: ys) (auto simp: sorted_insert_left)
  then show "sorted_wrt (\<lambda>x y. \<not> lt y x) (insertionSort lt xs)"
    by (simp add: insertionSort_def sorted_wrt_rev)
qed

end
