(* ===== verification/RouteTypes.thy ===== *)
theory RouteTypes
  imports Prelude
begin

text \<open>
  The Route resource: the structs of \<^verbatim>\<open>routecontroller/apis/networking/v1alpha1/route_types.go\<close>
  and \<^verbatim>\<open>groupversion_info.go\<close>, and \<^verbatim>\<open>Route.FQDN\<close>. Field names carry the struct's initials, because
  two structs of one theory may not share a field name. A pointer field is an option, a Go map a
  partial function (reading a missing key of a \<^verbatim>\<open>map[string]string\<close> gives the empty string, see
  \<open>label_get\<close>; no code here distinguishes a nil map from an empty one).

  \<^verbatim>\<open>metav1.TypeMeta\<close>, \<^verbatim>\<open>metav1.ObjectMeta\<close> and \<^verbatim>\<open>metav1.OwnerReference\<close> are structs of the API
  machinery; they appear here with the fields the controller reads or writes.
\<close>

section \<open>Metadata of API objects\<close>

type_synonym string_map = "string \<rightharpoonup> string"

record TypeMeta =
  TM_Kind :: string
  TM_APIVersion :: string

record OwnerReference =
  OR_APIVersion :: string
  OR_Kind :: string
  OR_Name :: string
  OR_UID :: string

record ObjectMeta =
  OM_Name :: string
  OM_Namespace :: string
  OM_UID :: string
  OM_Labels :: string_map
  OM_Annotations :: string_map
  OM_OwnerReferences :: "OwnerReference list"
  OM_Finalizers :: "string list"
  OM_DeletionTimestamp :: "nat option"

record NamespacedName =
  NN_Namespace :: string
  NN_Name :: string

definition label_get :: "string_map \<Rightarrow> string \<Rightarrow> string" where
  "label_get m k = (case m k of None \<Rightarrow> '''' | Some v \<Rightarrow> v)"

definition zero_ObjectMeta :: ObjectMeta where
  "zero_ObjectMeta = \<lparr>OM_Name = '''', OM_Namespace = '''', OM_UID = '''', OM_Labels = Map.empty,
     OM_Annotations = Map.empty, OM_OwnerReferences = [], OM_Finalizers = [],
     OM_DeletionTimestamp = None\<rparr>"

definition meta_key :: "ObjectMeta \<Rightarrow> NamespacedName" where
  "meta_key m = \<lparr>NN_Namespace = OM_Namespace m, NN_Name = OM_Name m\<rparr>"

section \<open>route_types.go\<close>

record AppProcess =
  AP_Type :: string

record DestinationApp =
  DA_Guid :: string
  DA_Process :: AppProcess

record DestinationSelector =
  DS_MatchLabels :: string_map

record RouteDestination =
  RD_Guid :: string
  RD_Weight :: "go_int option"
  RD_Port :: "go_int option"
  RD_App :: DestinationApp
  RD_Selector :: DestinationSelector

record RouteDomain =
  RDom_Name :: string
  RDom_Internal :: bool

record RouteSpec =
  RS_Host :: string
  RS_Path :: string
  RS_Url :: string
  RS_Domain :: RouteDomain
  RS_Destinations :: "RouteDestination list"

record Condition =
  Cond_Type :: string
  Cond_Status :: bool

record RouteStatus =
  RSt_Conditions :: "Condition list"

record Route =
  R_TypeMeta :: TypeMeta
  R_ObjectMeta :: ObjectMeta
  R_Spec :: RouteSpec
  R_Status :: RouteStatus

text \<open>\<^verbatim>\<open>RouteList\<close>'s own metadata is never read: a list of routes is its \<^verbatim>\<open>Items\<close>.\<close>

record RouteList =
  RL_Items :: "Route list"

definition FQDN :: "Route \<Rightarrow> string" where
  "FQDN r =
     (if RS_Host (R_Spec r) = '''' then RDom_Name (RS_Domain (R_Spec r))
      else RS_Host (R_Spec r) @ ''.'' @ RDom_Name (RS_Domain (R_Spec r)))"

section \<open>groupversion\_info.go\<close>

record GroupVersion =
  GV_Group :: string
  GV_Version :: string

definition RouteGroupVersion :: GroupVersion where
  "RouteGroupVersion = \<lparr>GV_Group = ''networking.cloudfoundry.org'', GV_Version = ''v1alpha1''\<rparr>"

section \<open>Libraries the builders call\<close>

text \<open>
  What the resource builders use of code outside the repository: \<^verbatim>\<open>sort.Slice\<close> on routes and
  \<^verbatim>\<open>schema.GroupVersion.String\<close>. Every definition that calls them takes this record.
\<close>

record Lib =
  SortSlice :: "(Route \<Rightarrow> Route \<Rightarrow> bool) \<Rightarrow> Route list \<Rightarrow> Route list"
  GroupVersion_String :: "GroupVersion \<Rightarrow> string"

locale ext_lib = go_sort "SortSlice L" for L :: Lib

text \<open>The instance the witnesses compute with: Go's insertion sort, and the group/version form.\<close>

definition go_lib :: Lib where
  "go_lib = \<lparr>SortSlice = insertionSort, GroupVersion_String = (\<lambda>gv. GV_Group gv @ ''/'' @ GV_Version gv)\<rparr>"

section \<open>Lemmas\<close>

lemma label_get_simps [simp]:
  "label_get Map.empty k = ''''" "label_get (m(k \<mapsto> v)) k = v"
  "k \<noteq> k' \<Longrightarrow> label_get (m(k' \<mapsto> v)) k = label_get m k"
  by (simp_all add: label_get_def)

lemma meta_key_sel [simp]:
  "NN_Namespace (meta_key m) = OM_Namespace m" "NN_Name (meta_key m) = OM_Name m"
  by (simp_all add: meta_key_def)

lemma meta_key_eq_iff: "meta_key m = meta_key m' \<longleftrightarrow> OM_Namespace m = OM_Namespace m' \<and> OM_Name m = OM_Name m'"
  by (auto simp: meta_key_def)

interpretation golib: ext_lib go_lib
  by (simp add: ext_lib_def go_lib_def insertion.go_sort_axioms)

end
