(* ===== verification/IstioTypes.thy ===== *)
theory IstioTypes
  imports RouteTypes
begin

text \<open>
  The VirtualService and Service resources the controller writes. \<open>VirtualService\<close> and its spec are
  the structs of \<^verbatim>\<open>routecontroller/apis/istio/networking/v1alpha3/virtualservice_types.go\<close>; the
  messages embedded in the spec (\<^verbatim>\<open>istio.io/api/networking/v1alpha3\<close>) and \<^verbatim>\<open>corev1.Service\<close> appear
  with the fields the builders set. A nil slice is the empty list, a nil pointer \<open>None\<close>.
\<close>

section \<open>istio.io/api messages\<close>

datatype StringMatch = StringMatch_Prefix string

record HTTPMatchRequest =
  HM_Uri :: "StringMatch option"

record Destination =
  D_Host :: string

record Headers_HeaderOperations =
  HHO_Set :: string_map

record Headers =
  H_Request :: "Headers_HeaderOperations option"

record HTTPRouteDestination =
  HRD_Destination :: Destination
  HRD_Weight :: go_int32
  HRD_Headers :: "Headers option"

record HTTPRoute =
  HR_Match :: "HTTPMatchRequest list"
  HR_Route :: "HTTPRouteDestination list"

record IstioVirtualService =
  VS_Hosts :: "string list"
  VS_Gateways :: "string list"
  VS_Http :: "HTTPRoute list"

section \<open>virtualservice\_types.go\<close>

record VirtualServiceSpec =
  VSS_VirtualService :: IstioVirtualService

record VirtualService =
  VS_ObjectMeta :: ObjectMeta
  VS_Spec :: VirtualServiceSpec

section \<open>corev1.Service\<close>

record ServicePort =
  SP_Name :: string
  SP_Port :: go_int32

record ServiceSpec =
  SS_Selector :: string_map
  SS_Ports :: "ServicePort list"

record Service =
  S_ObjectMeta :: ObjectMeta
  S_Spec :: ServiceSpec

text \<open>
  The zero values \<^verbatim>\<open>VirtualService{}\<close> and \<^verbatim>\<open>Service{}\<close>, and the object key under which the API
  stores a resource.
\<close>

definition zero_VirtualService :: VirtualService where
  "zero_VirtualService = \<lparr>VS_ObjectMeta = zero_ObjectMeta,
     VS_Spec = \<lparr>VSS_VirtualService = \<lparr>VS_Hosts = [], VS_Gateways = [], VS_Http = []\<rparr>\<rparr>\<rparr>"

definition zero_Service :: Service where
  "zero_Service = \<lparr>S_ObjectMeta = zero_ObjectMeta, S_Spec = \<lparr>SS_Selector = Map.empty, SS_Ports = []\<rparr>\<rparr>"

abbreviation route_key :: "Route \<Rightarrow> NamespacedName" where
  "route_key r \<equiv> meta_key (R_ObjectMeta r)"

abbreviation service_key :: "Service \<Rightarrow> NamespacedName" where
  "service_key s \<equiv> meta_key (S_ObjectMeta s)"

abbreviation vs_key :: "VirtualService \<Rightarrow> NamespacedName" where
  "vs_key v \<equiv> meta_key (VS_ObjectMeta v)"

end
