(* ===== verification/ServiceBuilder.thy ===== *)
theory ServiceBuilder
  imports IstioTypes
begin

text \<open>
  \<^verbatim>\<open>routecontroller/resourcebuilders/service_builder.go\<close>: one Service per destination of a Route, and
  the mutate function that copies the desired state into an existing Service. \<^verbatim>\<open>serviceName\<close> is
  declared in \<^verbatim>\<open>virtual_service_builder.go\<close> and used by both builders, so it stands here.

  The mutate functions of the two builders keep one contract, the locale \<open>managed_resource\<close>: the
  fields the controller manages are overwritten with the desired ones and nothing else changes.
\<close>

section \<open>Names and owners\<close>

definition serviceName :: "RouteDestination \<Rightarrow> string" where
  "serviceName dest = ''s-'' @ RD_Guid dest"

definition routeToOwnerRef :: "Lib \<Rightarrow> Route \<Rightarrow> OwnerReference" where
  "routeToOwnerRef L r = \<lparr>
     OR_APIVersion = GroupVersion_String L RouteGroupVersion,
     OR_Kind = TM_Kind (R_TypeMeta r),
     OR_Name = OM_Name (R_ObjectMeta r),
     OR_UID = OM_UID (R_ObjectMeta r)\<rparr>"

section \<open>ServiceBuilder.Build\<close>

definition httpPortName :: string where
  "httpPortName = ''http''"

text \<open>The loop body: \<^verbatim>\<open>*dest.Port\<close> panics on a destination without a port.\<close>

definition buildService :: "Lib \<Rightarrow> Route \<Rightarrow> RouteDestination \<Rightarrow> Service go_result" where
  "buildService L route dest =
     (case RD_Port dest of
        None \<Rightarrow> Inl nil_dereference
      | Some port \<Rightarrow> Inr \<lparr>
          S_ObjectMeta = zero_ObjectMeta\<lparr>
            OM_OwnerReferences := [routeToOwnerRef L route],
            OM_Name := serviceName dest,
            OM_Namespace := OM_Namespace (R_ObjectMeta route),
            OM_Labels := Map.empty(
              ''cloudfoundry.org/app_guid'' \<mapsto> DA_Guid (RD_App dest),
              ''cloudfoundry.org/process_type'' \<mapsto> AP_Type (DA_Process (RD_App dest)),
              ''cloudfoundry.org/route_guid'' \<mapsto> OM_Name (R_ObjectMeta route)),
            OM_Annotations := Map.empty(''cloudfoundry.org/route-fqdn'' \<mapsto> FQDN route)\<rparr>,
          S_Spec = \<lparr>
            SS_Selector = DS_MatchLabels (RD_Selector dest),
            SS_Ports = [\<lparr>SP_Name = httpPortName, SP_Port = int32 port\<rparr>]\<rparr>\<rparr>)"

definition ServiceBuilder_Build :: "Lib \<Rightarrow> Route \<Rightarrow> Service list go_result" where
  "ServiceBuilder_Build L route = traverse_go (buildService L route) (RS_Destinations (R_Spec route))"

section \<open>ServiceBuilder.BuildMutateFunction\<close>

text \<open>
  The closure assigns into the object \<open>actual\<close> points to and returns nil. The spec's other fields
  (the cluster IP, for one) are not assigned.
\<close>

definition ServiceBuilder_BuildMutateFunction :: "Service \<Rightarrow> Service \<Rightarrow> Service go_result" where
  "ServiceBuilder_BuildMutateFunction desired actual = Inr (actual\<lparr>
     S_ObjectMeta := (S_ObjectMeta actual)\<lparr>
       OM_Labels := OM_Labels (S_ObjectMeta desired),
       OM_Annotations := OM_Annotations (S_ObjectMeta desired),
       OM_OwnerReferences := OM_OwnerReferences (S_ObjectMeta desired)\<rparr>,
     S_Spec := (S_Spec actual)\<lparr>
       SS_Selector := SS_Selector (S_Spec desired),
       SS_Ports := SS_Ports (S_Spec desired)\<rparr>\<rparr>)"

definition boolPtr :: "bool \<Rightarrow> bool option" where
  "boolPtr x = Some x"

section \<open>What a mutate function promises\<close>

type_synonym service_managed =
  "string_map \<times> string_map \<times> OwnerReference list \<times> string_map \<times> ServicePort list"

definition service_managed :: "Service \<Rightarrow> service_managed" where
  "service_managed s =
     (OM_Labels (S_ObjectMeta s), OM_Annotations (S_ObjectMeta s), OM_OwnerReferences (S_ObjectMeta s),
      SS_Selector (S_Spec s), SS_Ports (S_Spec s))"

text \<open>
  \<open>meta\<close> reads the object's metadata, \<open>managed\<close> the fields the controller owns. The laws say that a
  mutate function always succeeds, leaves identity, finalizers and deletion mark alone, writes
  exactly the managed fields, and depends on nothing else of the desired object.
\<close>

locale managed_resource =
  fixes meta :: "'r \<Rightarrow> ObjectMeta"
    and managed :: "'r \<Rightarrow> 'm"
    and mutate :: "'r \<Rightarrow> 'r \<Rightarrow> 'r go_result"
  assumes mutate_total: "\<exists>a'. mutate d a = Inr a'"
    and mutate_managed: "mutate d a = Inr a' \<Longrightarrow> managed a' = managed d"
    and mutate_meta: "mutate d a = Inr a' \<Longrightarrow>
      meta a' = (meta a)\<lparr>OM_Labels := OM_Labels (meta d), OM_Annotations := OM_Annotations (meta d),
                         OM_OwnerReferences := OM_OwnerReferences (meta d)\<rparr>"
    and mutate_noop: "managed a = managed d \<Longrightarrow> mutate d a = Inr a"
    and mutate_overwrite: "mutate d a = Inr a' \<Longrightarrow> mutate e a' = mutate e a"
begin

lemma mutate_key: "mutate d a = Inr a' \<Longrightarrow> meta_key (meta a') = meta_key (meta a)"
  by (simp add: mutate_meta meta_key_def)

lemma mutate_owners: "mutate d a = Inr a' \<Longrightarrow> OM_OwnerReferences (meta a') = OM_OwnerReferences (meta d)"
  by (simp add: mutate_meta)

lemma mutate_identity:
  assumes "mutate d a = Inr a'"
  shows "OM_UID (meta a') = OM_UID (meta a)" "OM_Finalizers (meta a') = OM_Finalizers (meta a)"
    "OM_DeletionTimestamp (meta a') = OM_DeletionTimestamp (meta a)"
  using mutate_meta [OF assms] by simp_all

text \<open>Applying the same desired state again changes nothing: updates converge in one step.\<close>

lemma mutate_idempotent: "mutate d a = Inr a' \<Longrightarrow> mutate d a' = Inr a'"
  using mutate_managed by (intro mutate_noop)

text \<open>Only the last desired state matters.\<close>

lemma mutate_last_wins: "mutate d a = Inr b \<Longrightarrow> mutate e b = Inr c \<Longrightarrow> mutate e a = Inr c"
  by (simp add: mutate_overwrite)

end

interpretation service_resource: managed_resource S_ObjectMeta service_managed ServiceBuilder_BuildMutateFunction
  by unfold_locales (auto simp: ServiceBuilder_BuildMutateFunction_def service_managed_def)

section \<open>Lemmas\<close>

lemma serviceName_inj [simp]: "serviceName d = serviceName d' \<longleftrightarrow> RD_Guid d = RD_Guid d'"
  by (simp add: serviceName_def)

lemma buildService_ok_iff: "is_ok (buildService L route dest) \<longleftrightarrow> RD_Port dest \<noteq> None"
  by (simp add: buildService_def split: option.splits)

lemma buildService_InrD:
  assumes "buildService L route dest = Inr s"
  shows "OM_Name (S_ObjectMeta s) = serviceName dest"
    and "OM_Namespace (S_ObjectMeta s) = OM_Namespace (R_ObjectMeta route)"
    and "OM_OwnerReferences (S_ObjectMeta s) = [routeToOwnerRef L route]"
    and "SS_Selector (S_Spec s) = DS_MatchLabels (RD_Selector dest)"
    and "\<exists>port. RD_Port dest = Some port \<and> SS_Ports (S_Spec s) = [\<lparr>SP_Name = httpPortName, SP_Port = int32 port\<rparr>]"
    and "OM_Annotations (S_ObjectMeta s) = [''cloudfoundry.org/route-fqdn'' \<mapsto> FQDN route]"
    and "OM_Labels (S_ObjectMeta s) = [
      ''cloudfoundry.org/app_guid'' \<mapsto> DA_Guid (RD_App dest),
      ''cloudfoundry.org/process_type'' \<mapsto> AP_Type (DA_Process (RD_App dest)),
      ''cloudfoundry.org/route_guid'' \<mapsto> OM_Name (R_ObjectMeta route)]"
  using assms by (auto simp: buildService_def split: option.splits)

lemma ServiceBuilder_Build_ok_iff:
  "is_ok (ServiceBuilder_Build L route) \<longleftrightarrow> (\<forall>d \<in> set (RS_Destinations (R_Spec route)). RD_Port d \<noteq> None)"
  by (simp add: ServiceBuilder_Build_def traverse_go_ok_iff buildService_ok_iff)

lemma ServiceBuilder_Build_list_all2:
  "ServiceBuilder_Build L route = Inr svcs \<Longrightarrow>
     list_all2 (\<lambda>d s. buildService L route d = Inr s) (RS_Destinations (R_Spec route)) svcs"
  by (simp add: ServiceBuilder_Build_def traverse_go_Inr_iff)

lemma ServiceBuilder_Build_keys:
  assumes "ServiceBuilder_Build L route = Inr svcs"
  shows "map service_key svcs =
    map (\<lambda>d. \<lparr>NN_Namespace = OM_Namespace (R_ObjectMeta route), NN_Name = serviceName d\<rparr>)
      (RS_Destinations (R_Spec route))"
  using ServiceBuilder_Build_list_all2 [OF assms]
  by (induction rule: list_all2_induct) (auto simp: meta_key_def dest: buildService_InrD)

lemma ServiceBuilder_Build_mem:
  assumes "ServiceBuilder_Build L route = Inr svcs" and "s \<in> set svcs"
  obtains d where "d \<in> set (RS_Destinations (R_Spec route))" "buildService L route d = Inr s"
  using ServiceBuilder_Build_list_all2 [OF assms(1)] assms(2)
  by (auto simp: list_all2_conv_all_nth in_set_conv_nth) (metis nth_mem)

lemma ServiceBuilder_Build_panics:
  assumes "ServiceBuilder_Build L route = Inl e"
  shows "e = nil_dereference"
proof -
  obtain d where "buildService L route d = Inl e"
    using traverse_go_Inl assms unfolding ServiceBuilder_Build_def by blast
  then show ?thesis by (auto simp: buildService_def split: option.splits)
qed

end
