(* ===== verification/Sha256.thy ===== *)
theory Sha256
  imports Prelude
begin

text \<open>
  The two standard-library calls behind \<^verbatim>\<open>VirtualServiceName\<close>: \<^verbatim>\<open>crypto/sha256.Sum256\<close> (FIPS 180-4,
  over bytes and 32-bit words that wrap) and the \<^verbatim>\<open>%x\<close> verb of \<^verbatim>\<open>fmt\<close> on a byte array. Nothing
  here assumes that the hash is collision free; where the controller relies on that, the property
  says so.
\<close>

unbundle bit_operations_syntax

section \<open>sha256.Sum256\<close>

type_synonym byte = "8 word"
type_synonym word32 = "32 word"

definition sha_Ch :: "word32 \<Rightarrow> word32 \<Rightarrow> word32 \<Rightarrow> word32" where
  "sha_Ch x y z = (x AND y) XOR (NOT x AND z)"

definition sha_Maj :: "word32 \<Rightarrow> word32 \<Rightarrow> word32 \<Rightarrow> word32" where
  "sha_Maj x y z = (x AND y) XOR (x AND z) XOR (y AND z)"

definition sha_rotr :: "nat \<Rightarrow> word32 \<Rightarrow> word32" where
  "sha_rotr n x = drop_bit n x OR push_bit (32 - n) x"

definition sha_S0 :: "word32 \<Rightarrow> word32" where
  "sha_S0 x = sha_rotr 2 x XOR sha_rotr 13 x XOR sha_rotr 22 x"

definition sha_S1 :: "word32 \<Rightarrow> word32" where
  "sha_S1 x = sha_rotr 6 x XOR sha_rotr 11 x XOR sha_rotr 25 x"

definition sha_s0 :: "word32 \<Rightarrow> word32" where
  "sha_s0 x = sha_rotr 7 x XOR sha_rotr 18 x XOR drop_bit 3 x"

definition sha_s1 :: "word32 \<Rightarrow> word32" where
  "sha_s1 x = sha_rotr 17 x XOR sha_rotr 19 x XOR drop_bit 10 x"

text \<open>The round constants: the first 32 fractional bits of the cube roots of the first 64 primes.\<close>

definition sha_K :: "word32 list" where
  "sha_K = [
     1116352408, 1899447441, 3049323471, 3921009573,
     961987163, 1508970993, 2453635748, 2870763221,
     3624381080, 310598401, 607225278, 1426881987,
     1925078388, 2162078206, 2614888103, 3248222580,
     3835390401, 4022224774, 264347078, 604807628,
     770255983, 1249150122, 1555081692, 1996064986,
     2554220882, 2821834349, 2952996808, 3210313671,
     3336571891, 3584528711, 113926993, 338241895,
     666307205, 773529912, 1294757372, 1396182291,
     1695183700, 1986661051, 2177026350, 2456956037,
     2730485921, 2820302411, 3259730800, 3345764771,
     3516065817, 3600352804, 4094571909, 275423344,
     430227734, 506948616, 659060556, 883997877,
     958139571, 1322822218, 1537002063, 1747873779,
     1955562222, 2024104815, 2227730452, 2361852424,
     2428436474, 2756734187, 3204031479, 3329325298]"

datatype sha_state = ShaState word32 word32 word32 word32 word32 word32 word32 word32

fun sha_round :: "word32 \<Rightarrow> word32 \<Rightarrow> sha_state \<Rightarrow> sha_state" where
  "sha_round k w (ShaState a b c d e f g h) =
     (let t1 = h + sha_S1 e + sha_Ch e f g + k + w;
          t2 = sha_S0 a + sha_Maj a b c
      in ShaState (t1 + t2) a b c (d + t1) e f g)"

text \<open>
  The message schedule, kept as a window of sixteen words: the first is the one the round uses, and
  sliding the window drops it and appends the word sixteen places ahead.
\<close>

fun sha_slide :: "word32 list \<Rightarrow> word32 list" where
  "sha_slide (w0 # ws) = ws @ [sha_s1 (ws ! 13) + ws ! 8 + sha_s0 (ws ! 0) + w0]"
| "sha_slide [] = []"

fun sha_rounds :: "word32 list \<Rightarrow> word32 list \<Rightarrow> sha_state \<Rightarrow> sha_state" where
  "sha_rounds [] ws st = st"
| "sha_rounds (k # ks) ws st = sha_rounds ks (sha_slide ws) (sha_round k (hd ws) st)"

fun sha_add :: "sha_state \<Rightarrow> sha_state \<Rightarrow> sha_state" where
  "sha_add (ShaState a b c d e f g h) (ShaState a' b' c' d' e' f' g' h') =
     ShaState (a + a') (b + b') (c + c') (d + d') (e + e') (f + f') (g + g') (h + h')"

definition sha_init :: sha_state where
  "sha_init = ShaState
     1779033703 3144134277 1013904242 2773480762
     1359893119 2600822924 528734635 1541459225"

fun be_words :: "byte list \<Rightarrow> word32 list" where
  "be_words (a # b # c # d # bs) =
     (push_bit 24 (ucast a) OR push_bit 16 (ucast b) OR push_bit 8 (ucast c) OR ucast d) # be_words bs"
| "be_words _ = []"

definition sha_block :: "sha_state \<Rightarrow> byte list \<Rightarrow> sha_state" where
  "sha_block st bs = sha_add st (sha_rounds sha_K (be_words bs) st)"

definition be_bytes64 :: "64 word \<Rightarrow> byte list" where
  "be_bytes64 n = map (\<lambda>i. ucast (drop_bit (8 * i) n)) [7, 6, 5, 4, 3, 2, 1, 0]"

definition sha_pad :: "byte list \<Rightarrow> byte list" where
  "sha_pad msg = msg @ [0x80] @ replicate ((119 - length msg mod 64) mod 64) 0
                 @ be_bytes64 (push_bit 3 (word_of_nat (length msg)))"

fun sha_blocks :: "nat \<Rightarrow> sha_state \<Rightarrow> byte list \<Rightarrow> sha_state" where
  "sha_blocks 0 st bs = st"
| "sha_blocks (Suc n) st bs = sha_blocks n (sha_block st (take 64 bs)) (drop 64 bs)"

fun word_bytes :: "word32 \<Rightarrow> byte list" where
  "word_bytes w = [ucast (drop_bit 24 w), ucast (drop_bit 16 w), ucast (drop_bit 8 w), ucast w]"

fun sha_digest :: "sha_state \<Rightarrow> byte list" where
  "sha_digest (ShaState a b c d e f g h) = concat (map word_bytes [a, b, c, d, e, f, g, h])"

definition Sum256 :: "byte list \<Rightarrow> byte list" where
  "Sum256 msg = (let p = sha_pad msg in sha_digest (sha_blocks (length p div 64) sha_init p))"

definition bytes_of_string :: "string \<Rightarrow> byte list" where
  "bytes_of_string s = map of_char s"

section \<open>The hexadecimal verb of fmt\<close>

definition hex_digits :: string where
  "hex_digits = ''0123456789abcdef''"

definition hex_byte :: "byte \<Rightarrow> string" where
  "hex_byte b = [hex_digits ! unat (drop_bit 4 b), hex_digits ! unat (b AND 15)]"

definition hex_bytes :: "byte list \<Rightarrow> string" where
  "hex_bytes bs = concat (map hex_byte bs)"

section \<open>Lemmas\<close>

lemma length_sha_digest: "length (sha_digest st) = 32"
  by (cases st) simp

lemma length_Sum256 [simp]: "length (Sum256 m) = 32"
  by (simp add: Sum256_def Let_def length_sha_digest)

lemma length_hex_byte [simp]: "length (hex_byte b) = 2"
  by (simp add: hex_byte_def)

lemma length_hex_bytes [simp]: "length (hex_bytes bs) = 2 * length bs"
  by (induction bs) (simp_all add: hex_bytes_def)

lemma unat_high_nibble: "unat (drop_bit 4 (b :: byte)) = unat b div 16"
  by (simp only: unat_drop_bit_eq) (simp add: drop_bit_eq_div)

lemma high_nibble_bound: "unat (drop_bit 4 (b :: byte)) < 16"
  using unsigned_less [of b, where ?'a = nat] by (simp only: unat_high_nibble) simp

lemma low_nibble_bound: "unat ((b :: byte) AND 15) < 16"
proof -
  have "b AND 15 \<le> 15" by (rule word_and_le1)
  then show ?thesis by (simp add: word_le_nat_alt)
qed

lemma hex_digits_nth: "i < 16 \<Longrightarrow> hex_digits ! i \<in> set hex_digits"
  by (rule nth_mem) (simp add: hex_digits_def)

lemma set_hex_byte: "set (hex_byte b) \<subseteq> set hex_digits"
  by (simp add: hex_byte_def hex_digits_nth high_nibble_bound low_nibble_bound)

lemma set_hex_bytes: "set (hex_bytes bs) \<subseteq> set hex_digits"
  using set_hex_byte by (fastforce simp: hex_bytes_def)

text \<open>Two digits determine the byte, so the hexadecimal form loses nothing of the digest.\<close>

lemma hex_digits_inj: "i < 16 \<Longrightarrow> j < 16 \<Longrightarrow> hex_digits ! i = hex_digits ! j \<Longrightarrow> i = j"
  using nth_eq_iff_index_eq [of hex_digits i j] by (simp add: hex_digits_def)

lemma unat_low_nibble: "unat ((b :: byte) AND 15) = unat b mod 16"
proof -
  have "b AND 15 = take_bit 4 b" by (simp add: take_bit_eq_mask mask_eq_exp_minus_1)
  then have "unat (b AND 15) = take_bit 4 (unat b)" by (simp only: unsigned_take_bit_eq)
  then show ?thesis by (simp add: take_bit_eq_mod)
qed

lemma hex_byte_inj:
  assumes "hex_byte a = hex_byte b"
  shows "a = b"
proof -
  from assms have "unat (drop_bit 4 a) = unat (drop_bit 4 b)" "unat (a AND 15) = unat (b AND 15)"
    by (auto simp: hex_byte_def intro: hex_digits_inj high_nibble_bound low_nibble_bound)
  then have "unat a = unat b"
    by (simp only: unat_high_nibble unat_low_nibble) (metis div_mult_mod_eq)
  then show ?thesis by (rule unsigned_word_eqI)
qed

lemma hex_bytes_inj: "hex_bytes as = hex_bytes bs \<Longrightarrow> as = bs"
proof (induction as arbitrary: bs)
  case Nil
  then have "length (hex_bytes bs) = 0" by (simp add: hex_bytes_def)
  then show ?case by simp
next
  case (Cons a as)
  then have "length (hex_bytes bs) = length (hex_bytes (a # as))" by simp
  then obtain b bs' where bs: "bs = b # bs'" by (cases bs) simp_all
  with Cons.prems have "hex_byte a @ hex_bytes as = hex_byte b @ hex_bytes bs'"
    by (simp add: hex_bytes_def)
  then have "hex_byte a = hex_byte b" "hex_bytes as = hex_bytes bs'" by simp_all
  with Cons.IH bs show ?case by (simp add: hex_byte_inj)
qed

end
