(* ===== verification/VirtualServiceBuilder.thy ===== *)
theory VirtualServiceBuilder
  imports ServiceBuilder Sha256
begin

text \<open>
  \<^verbatim>\<open>routecontroller/resourcebuilders/virtual_service_builder.go\<close>: routes are grouped by FQDN, and each
  group becomes one Istio VirtualService whose HTTP entries carry the routes' weighted destinations
  in descending order of their URLs. A Go map filled in a loop is an association list with distinct
  keys (its iteration order is the list's, and the code sorts the keys before it uses them).
\<close>

section \<open>Constants and names\<close>

definition MeshInternalGateway :: string where
  "MeshInternalGateway = ''mesh''"

definition IstioExpectedWeight :: go_int where
  "IstioExpectedWeight = 100"

record VirtualServiceBuilder =
  IstioGateways :: "string list"

definition VirtualServiceName :: "string \<Rightarrow> string" where
  "VirtualServiceName fqdn = ''vs-'' @ hex_bytes (Sum256 (bytes_of_string fqdn))"

section \<open>BuildMutateFunction\<close>

definition VirtualServiceBuilder_BuildMutateFunction ::
    "VirtualService \<Rightarrow> VirtualService \<Rightarrow> VirtualService go_result" where
  "VirtualServiceBuilder_BuildMutateFunction desired actual = Inr (actual\<lparr>
     VS_ObjectMeta := (VS_ObjectMeta actual)\<lparr>
       OM_Labels := OM_Labels (VS_ObjectMeta desired),
       OM_Annotations := OM_Annotations (VS_ObjectMeta desired),
       OM_OwnerReferences := OM_OwnerReferences (VS_ObjectMeta desired)\<rparr>,
     VS_Spec := VS_Spec desired\<rparr>)"

section \<open>Grouping and sorting\<close>

definition map_get :: "('k \<times> 'v list) list \<Rightarrow> 'k \<Rightarrow> 'v list" where
  "map_get m k = (case map_of m k of None \<Rightarrow> [] | Some vs \<Rightarrow> vs)"

fun groupByFQDN_loop :: "(string \<times> Route list) list \<Rightarrow> Route list \<Rightarrow> (string \<times> Route list) list" where
  "groupByFQDN_loop fqdns [] = fqdns"
| "groupByFQDN_loop fqdns (route # routes) =
     (let n = FQDN route
      in groupByFQDN_loop (AList.update n (map_get fqdns n @ [route]) fqdns) routes)"

definition groupByFQDN :: "RouteList \<Rightarrow> (string \<times> Route list) list" where
  "groupByFQDN routes = groupByFQDN_loop [] (RL_Items routes)"

definition sortFQDNs :: "(string \<times> Route list) list \<Rightarrow> string list" where
  "sortFQDNs fqdns = sort (map fst fqdns)"

definition sortRoutes :: "Lib \<Rightarrow> Route list \<Rightarrow> Route list" where
  "sortRoutes L routes = SortSlice L (\<lambda>r r'. RS_Url (R_Spec r) > RS_Url (R_Spec r')) routes"

fun destinationsForFQDN_loop :: "RouteDestination list \<Rightarrow> Route list \<Rightarrow> RouteDestination list" where
  "destinationsForFQDN_loop destinations [] = destinations"
| "destinationsForFQDN_loop destinations (route # routes) =
     destinationsForFQDN_loop (destinations @ RS_Destinations (R_Spec route)) routes"

definition destinationsForFQDN :: "string \<Rightarrow> (string \<times> Route list) list \<Rightarrow> RouteDestination list" where
  "destinationsForFQDN fqdn routesByFQDN = destinationsForFQDN_loop [] (map_get routesByFQDN fqdn)"

fun cloneLabels_loop :: "string_map \<Rightarrow> (string \<times> string) list \<Rightarrow> string_map" where
  "cloneLabels_loop labels [] = labels"
| "cloneLabels_loop labels ((k, v) # template) = cloneLabels_loop (labels(k \<mapsto> v)) template"

definition cloneLabels :: "(string \<times> string) list \<Rightarrow> string_map" where
  "cloneLabels template = cloneLabels_loop Map.empty template"

section \<open>Validation\<close>

text \<open>\<open>r0\<close> is \<^verbatim>\<open>routes[0]\<close>, read inside the loop only.\<close>

fun validateRoutesForFQDN_loop :: "Route \<Rightarrow> Route list \<Rightarrow> unit go_result" where
  "validateRoutesForFQDN_loop r0 [] = Inr ()"
| "validateRoutesForFQDN_loop r0 (route # routes) =
     (if RDom_Internal (RS_Domain (R_Spec r0)) \<noteq> RDom_Internal (RS_Domain (R_Spec route))
      then Inl (Err (ErrorString (''route guid '' @ OM_Name (R_ObjectMeta r0) @ '' and route guid ''
             @ OM_Name (R_ObjectMeta route) @ '' disagree on whether or not the domain is internal'')))
      else if OM_Namespace (R_ObjectMeta r0) \<noteq> OM_Namespace (R_ObjectMeta route)
      then Inl (Err (ErrorString (''route guid '' @ OM_Name (R_ObjectMeta r0) @ '' and route guid ''
             @ OM_Name (R_ObjectMeta route) @ '' share the same FQDN but have different namespaces'')))
      else validateRoutesForFQDN_loop r0 routes)"

definition validateRoutesForFQDN :: "Route list \<Rightarrow> unit go_result" where
  "validateRoutesForFQDN routes =
     (case routes of [] \<Rightarrow> Inr () | r0 # _ \<Rightarrow> validateRoutesForFQDN_loop r0 routes)"

fun validateWeights_loop :: "Route \<Rightarrow> RouteDestination \<Rightarrow> go_int \<Rightarrow> RouteDestination list \<Rightarrow> go_int go_result" where
  "validateWeights_loop route d0 weightSum [] = Inr weightSum"
| "validateWeights_loop route d0 weightSum (d # ds) =
     (if (RD_Weight d = None) \<noteq> (RD_Weight d0 = None)
      then Inl (Err (ErrorString (''invalid destinations for route '' @ OM_Name (R_ObjectMeta route)
             @ '': weights must be set on all or none'')))
      else validateWeights_loop route d0
             (case RD_Weight d of None \<Rightarrow> weightSum | Some w \<Rightarrow> weightSum + w) ds)"

text \<open>After the loop \<^verbatim>\<open>destinations[0]\<close> is read, which panics on an empty slice.\<close>

definition validateWeights :: "Route \<Rightarrow> RouteDestination list \<Rightarrow> unit go_result" where
  "validateWeights route destinations =
     (case destinations of
        [] \<Rightarrow> Inl index_out_of_range
      | d0 # _ \<Rightarrow>
          (case validateWeights_loop route d0 0 destinations of
             Inl e \<Rightarrow> Inl e
           | Inr weightSum \<Rightarrow>
               if RD_Weight d0 \<noteq> None \<and> weightSum \<noteq> IstioExpectedWeight
               then Inl (Err (ErrorString (''invalid destinations for route '' @ OM_Name (R_ObjectMeta route)
                      @ '': weights must sum up to 100'')))
               else Inr ()))"

section \<open>HTTP destinations\<close>

definition httpRouteDestinationPlaceholder :: "HTTPRouteDestination list" where
  "httpRouteDestinationPlaceholder =
     [\<lparr>HRD_Destination = \<lparr>D_Host = ''no-destinations''\<rparr>, HRD_Weight = 0, HRD_Headers = None\<rparr>]"

definition httpDestination :: "Route \<Rightarrow> RouteDestination \<Rightarrow> HTTPRouteDestination" where
  "httpDestination route destination = \<lparr>
     HRD_Destination = \<lparr>D_Host = serviceName destination\<rparr>,
     HRD_Weight = (case RD_Weight destination of None \<Rightarrow> 0 | Some w \<Rightarrow> int32 w),
     HRD_Headers = Some \<lparr>H_Request = Some \<lparr>HHO_Set = [
       ''CF-App-Id'' \<mapsto> DA_Guid (RD_App destination),
       ''CF-App-Process-Type'' \<mapsto> AP_Type (DA_Process (RD_App destination)),
       ''CF-Space-Id'' \<mapsto> label_get (OM_Labels (R_ObjectMeta route)) ''cloudfoundry.org/space_guid'',
       ''CF-Organization-Id'' \<mapsto> label_get (OM_Labels (R_ObjectMeta route)) ''cloudfoundry.org/org_guid'']\<rparr>\<rparr>\<rparr>"

text \<open>The second loop of \<^verbatim>\<open>destinationsToHttpRouteDestinations\<close>, at index \<open>i\<close> of the slice.\<close>

fun inferWeights_loop :: "go_int \<Rightarrow> nat \<Rightarrow> HTTPRouteDestination list \<Rightarrow> HTTPRouteDestination list" where
  "inferWeights_loop n i [] = []"
| "inferWeights_loop n i (h # hs) =
     (let weight = go_quot IstioExpectedWeight n;
          weight' = (if i = 0 then weight + (IstioExpectedWeight - n * weight) else weight)
      in h\<lparr>HRD_Weight := int32 weight'\<rparr> # inferWeights_loop n (Suc i) hs)"

definition destinationsToHttpRouteDestinations ::
    "Route \<Rightarrow> RouteDestination list \<Rightarrow> HTTPRouteDestination list go_result" where
  "destinationsToHttpRouteDestinations route destinations =
     (case validateWeights route destinations of
        Inl e \<Rightarrow> Inl e
      | Inr _ \<Rightarrow>
          (let httpDestinations = map (httpDestination route) destinations
           in case destinations of
                [] \<Rightarrow> Inl index_out_of_range
              | d0 # _ \<Rightarrow>
                  Inr (if RD_Weight d0 = None
                       then inferWeights_loop (go_len destinations) 0 httpDestinations
                       else httpDestinations)))"

section \<open>One VirtualService per FQDN\<close>

definition httpMatch :: "Route \<Rightarrow> HTTPMatchRequest list" where
  "httpMatch route =
     (if RS_Path (R_Spec route) \<noteq> ''''
      then [\<lparr>HM_Uri = Some (StringMatch_Prefix (RS_Path (R_Spec route)))\<rparr>] else [])"

definition addOwner :: "VirtualService \<Rightarrow> OwnerReference \<Rightarrow> VirtualService" where
  "addOwner vs o' = vs\<lparr>VS_ObjectMeta := (VS_ObjectMeta vs)\<lparr>
     OM_OwnerReferences := OM_OwnerReferences (VS_ObjectMeta vs) @ [o']\<rparr>\<rparr>"

definition addHttp :: "VirtualService \<Rightarrow> HTTPRoute \<Rightarrow> VirtualService" where
  "addHttp vs h = vs\<lparr>VS_Spec := (VS_Spec vs)\<lparr>VSS_VirtualService := (VSS_VirtualService (VS_Spec vs))\<lparr>
     VS_Http := VS_Http (VSS_VirtualService (VS_Spec vs)) @ [h]\<rparr>\<rparr>\<rparr>"

text \<open>The loop over the sorted routes; \<open>n\<close> is \<^verbatim>\<open>len(routes)\<close>.\<close>

fun fqdnToVirtualService_loop :: "Lib \<Rightarrow> nat \<Rightarrow> VirtualService \<Rightarrow> Route list \<Rightarrow> VirtualService go_result" where
  "fqdnToVirtualService_loop L n vs [] = Inr vs"
| "fqdnToVirtualService_loop L n vs (route # routes) =
     (let vs = addOwner vs (routeToOwnerRef L route)
      in if RS_Destinations (R_Spec route) \<noteq> []
         then (case destinationsToHttpRouteDestinations route (RS_Destinations (R_Spec route)) of
                 Inl e \<Rightarrow> Inl e
               | Inr istioDestinations \<Rightarrow>
                   fqdnToVirtualService_loop L n
                     (addHttp vs \<lparr>HR_Match = httpMatch route, HR_Route = istioDestinations\<rparr>) routes)
         else if n > 1 then fqdnToVirtualService_loop L n vs routes
         else fqdnToVirtualService_loop L n
                (addHttp vs \<lparr>HR_Match = httpMatch route, HR_Route = httpRouteDestinationPlaceholder\<rparr>) routes)"

definition emptyVirtualService :: "string \<Rightarrow> Route \<Rightarrow> VirtualService" where
  "emptyVirtualService fqdn r0 = \<lparr>
     VS_ObjectMeta = zero_ObjectMeta\<lparr>
       OM_Name := VirtualServiceName fqdn,
       OM_Namespace := OM_Namespace (R_ObjectMeta r0),
       OM_Annotations := [''cloudfoundry.org/fqdn'' \<mapsto> fqdn]\<rparr>,
     VS_Spec = \<lparr>VSS_VirtualService = \<lparr>VS_Hosts = [fqdn], VS_Gateways = [], VS_Http = []\<rparr>\<rparr>\<rparr>"

definition setGateways :: "VirtualService \<Rightarrow> string list \<Rightarrow> VirtualService" where
  "setGateways vs gs = vs\<lparr>VS_Spec := (VS_Spec vs)\<lparr>VSS_VirtualService :=
     (VSS_VirtualService (VS_Spec vs))\<lparr>VS_Gateways := gs\<rparr>\<rparr>\<rparr>"

definition fqdnToVirtualService ::
    "Lib \<Rightarrow> VirtualServiceBuilder \<Rightarrow> string \<Rightarrow> Route list \<Rightarrow> VirtualService go_result" where
  "fqdnToVirtualService L b fqdn routes =
     (case routes of
        [] \<Rightarrow> Inl index_out_of_range
      | r0 # _ \<Rightarrow>
          (let vs = emptyVirtualService fqdn r0
           in case validateRoutesForFQDN routes of
                Inl e \<Rightarrow> Inl e
              | Inr _ \<Rightarrow>
                  (let vs = setGateways vs
                         (if RDom_Internal (RS_Domain (R_Spec r0)) then [MeshInternalGateway] else IstioGateways b)
                   in fqdnToVirtualService_loop L (length routes) vs (sortRoutes L routes))))"

definition VirtualServiceBuilder_Build ::
    "Lib \<Rightarrow> VirtualServiceBuilder \<Rightarrow> RouteList \<Rightarrow> VirtualService list go_result" where
  "VirtualServiceBuilder_Build L b routes =
     (let routesForFQDN = groupByFQDN routes;
          sortedFQDNs = sortFQDNs routesForFQDN
      in traverse_go (\<lambda>fqdn. fqdnToVirtualService L b fqdn (map_get routesForFQDN fqdn)) sortedFQDNs)"

definition intPtr :: "go_int \<Rightarrow> go_int option" where
  "intPtr x = Some x"


section \<open>The mutate contract\<close>

definition vs_managed :: "VirtualService \<Rightarrow> string_map \<times> string_map \<times> OwnerReference list \<times> VirtualServiceSpec" where
  "vs_managed v =
     (OM_Labels (VS_ObjectMeta v), OM_Annotations (VS_ObjectMeta v), OM_OwnerReferences (VS_ObjectMeta v),
      VS_Spec v)"

interpretation vs_resource: managed_resource VS_ObjectMeta vs_managed VirtualServiceBuilder_BuildMutateFunction
  by unfold_locales (auto simp: VirtualServiceBuilder_BuildMutateFunction_def vs_managed_def)

section \<open>Lemmas: grouping\<close>

lemma map_get_update: "map_get (AList.update k vs m) k' = (if k' = k then vs else map_get m k')"
  by (simp add: map_get_def update_conv')

lemma map_get_groupByFQDN_loop:
  "map_get (groupByFQDN_loop m rs) f = map_get m f @ filter (\<lambda>r. FQDN r = f) rs"
  by (induction m rs rule: groupByFQDN_loop.induct) (auto simp: Let_def map_get_update)

lemma keys_groupByFQDN_loop:
  "fst ` set (groupByFQDN_loop m rs) = fst ` set m \<union> FQDN ` set rs"
  by (induction m rs rule: groupByFQDN_loop.induct) (auto simp: Let_def dom_update)

lemma distinct_groupByFQDN_loop:
  "distinct (map fst m) \<Longrightarrow> distinct (map fst (groupByFQDN_loop m rs))"
  by (induction m rs rule: groupByFQDN_loop.induct) (simp_all add: Let_def distinct_update)

lemma map_get_groupByFQDN [simp]:
  "map_get (groupByFQDN routes) f = filter (\<lambda>r. FQDN r = f) (RL_Items routes)"
  by (simp add: groupByFQDN_def map_get_groupByFQDN_loop) (simp add: map_get_def)

lemma distinct_groupByFQDN: "distinct (map fst (groupByFQDN routes))"
  by (simp add: groupByFQDN_def distinct_groupByFQDN_loop)

lemma sortFQDNs_groupByFQDN:
  "sortFQDNs (groupByFQDN routes) = sorted_list_of_set (FQDN ` set (RL_Items routes))"
proof -
  have "set (map fst (groupByFQDN routes)) = FQDN ` set (RL_Items routes)"
    by (simp add: groupByFQDN_def keys_groupByFQDN_loop)
  with distinct_groupByFQDN [of routes] show ?thesis
    by (metis distinct_remdups_id sorted_list_of_set_sort_remdups sortFQDNs_def)
qed

lemma destinationsForFQDN_loop_eq:
  "destinationsForFQDN_loop ds rs = ds @ concat (map (RS_Destinations \<circ> R_Spec) rs)"
  by (induction ds rs rule: destinationsForFQDN_loop.induct) simp_all

lemma cloneLabels_loop_eq: "cloneLabels_loop m t = m ++ map_of (rev t)"
  by (induction t arbitrary: m) auto

section \<open>Lemmas: validation\<close>

lemma validateRoutesForFQDN_loop_ok_iff:
  "is_ok (validateRoutesForFQDN_loop r0 rs) \<longleftrightarrow>
     (\<forall>r \<in> set rs. RDom_Internal (RS_Domain (R_Spec r)) = RDom_Internal (RS_Domain (R_Spec r0)) \<and>
                   OM_Namespace (R_ObjectMeta r) = OM_Namespace (R_ObjectMeta r0))"
  by (induction r0 rs rule: validateRoutesForFQDN_loop.induct) auto

lemma validateRoutesForFQDN_loop_not_panic: "\<not> is_panic (validateRoutesForFQDN_loop r0 rs)"
  by (induction r0 rs rule: validateRoutesForFQDN_loop.induct) auto

text \<open>What the two validations accept, without their loops.\<close>

definition consistent_routes :: "Route list \<Rightarrow> bool" where
  "consistent_routes rs \<longleftrightarrow>
     (\<forall>r \<in> set rs. \<forall>r' \<in> set rs.
        RDom_Internal (RS_Domain (R_Spec r)) = RDom_Internal (RS_Domain (R_Spec r')) \<and>
        OM_Namespace (R_ObjectMeta r) = OM_Namespace (R_ObjectMeta r'))"

definition weights_of :: "RouteDestination list \<Rightarrow> go_int list" where
  "weights_of ds = map (the \<circ> RD_Weight) ds"

definition valid_weights :: "RouteDestination list \<Rightarrow> bool" where
  "valid_weights ds \<longleftrightarrow>
     (\<forall>d \<in> set ds. RD_Weight d = None) \<or>
     (\<forall>d \<in> set ds. RD_Weight d \<noteq> None) \<and> sum_list (weights_of ds) = IstioExpectedWeight"

lemma consistent_routes_mono: "set rs \<subseteq> set rs' \<Longrightarrow> consistent_routes rs' \<Longrightarrow> consistent_routes rs"
  unfolding consistent_routes_def by blast

lemma validateRoutesForFQDN_ok_iff: "is_ok (validateRoutesForFQDN rs) \<longleftrightarrow> consistent_routes rs"
proof (cases rs)
  case Nil
  then show ?thesis by (simp add: validateRoutesForFQDN_def consistent_routes_def)
next
  case (Cons r0 rs')
  then show ?thesis
    unfolding validateRoutesForFQDN_def list.case Cons validateRoutesForFQDN_loop_ok_iff consistent_routes_def
    by (metis list.set_intros(1))
qed

lemma validateRoutesForFQDN_not_panic: "\<not> is_panic (validateRoutesForFQDN rs)"
  by (simp add: validateRoutesForFQDN_def validateRoutesForFQDN_loop_not_panic split: list.splits)

lemma validateWeights_loop_not_panic: "\<not> is_panic (validateWeights_loop r d0 s ds)"
  by (induction r d0 s ds rule: validateWeights_loop.induct) auto

lemma validateWeights_loop_Inr_iff:
  "validateWeights_loop r d0 s ds = Inr t \<longleftrightarrow>
     (\<forall>d \<in> set ds. (RD_Weight d = None) = (RD_Weight d0 = None)) \<and>
     t = (if RD_Weight d0 = None then s else s + sum_list (weights_of ds))"
  by (induction r d0 s ds rule: validateWeights_loop.induct) (auto simp: weights_of_def split: option.splits)

lemma validateWeights_ok_iff: "is_ok (validateWeights r ds) \<longleftrightarrow> ds \<noteq> [] \<and> valid_weights ds"
proof (cases ds)
  case Nil
  then show ?thesis by (simp add: validateWeights_def)
next
  case (Cons d0 ds')
  have "is_ok (validateWeights r ds) \<longleftrightarrow>
      (\<exists>t. validateWeights_loop r d0 0 ds = Inr t \<and> \<not> (RD_Weight d0 \<noteq> None \<and> t \<noteq> IstioExpectedWeight))"
    by (auto simp: validateWeights_def Cons split: sum.splits if_splits)
  also have "\<dots> \<longleftrightarrow> valid_weights ds"
    unfolding validateWeights_loop_Inr_iff valid_weights_def Cons by (auto simp del: not_None_eq)
  finally show ?thesis using Cons by simp
qed

lemma validateWeights_not_panic:
  assumes "ds \<noteq> []"
  shows "\<not> is_panic (validateWeights r ds)"
proof -
  from assms obtain d0 ds' where ds: "ds = d0 # ds'" by (cases ds) simp_all
  show ?thesis
  proof (cases "validateWeights_loop r d0 0 ds")
    case (Inl e)
    with validateWeights_loop_not_panic [of r d0 0 ds] ds show ?thesis
      by (simp add: validateWeights_def del: validateWeights_loop.simps)
  next
    case (Inr t)
    with ds show ?thesis by (simp add: validateWeights_def del: validateWeights_loop.simps)
  qed
qed

section \<open>Lemmas: weights\<close>

lemma destinationsToHttpRouteDestinations_Inr_iff:
  "destinationsToHttpRouteDestinations r ds = Inr hs \<longleftrightarrow>
     ds \<noteq> [] \<and> valid_weights ds \<and>
     hs = (if RD_Weight (hd ds) = None then inferWeights_loop (go_len ds) 0 (map (httpDestination r) ds)
           else map (httpDestination r) ds)"
proof (cases "is_ok (validateWeights r ds)")
  case True
  then have "ds \<noteq> [] \<and> valid_weights ds" by (simp add: validateWeights_ok_iff)
  with True show ?thesis
    by (auto simp: destinationsToHttpRouteDestinations_def is_ok_iff Let_def split: list.splits)
next
  case False
  then have "\<not> (ds \<noteq> [] \<and> valid_weights ds)" by (simp add: validateWeights_ok_iff)
  with False show ?thesis
    by (auto simp: destinationsToHttpRouteDestinations_def is_ok_iff split: sum.splits)
qed

lemma destinationsToHttpRouteDestinations_ok_iff:
  "is_ok (destinationsToHttpRouteDestinations r ds) \<longleftrightarrow> ds \<noteq> [] \<and> valid_weights ds"
  unfolding is_ok_iff destinationsToHttpRouteDestinations_Inr_iff by blast

lemma destinationsToHttpRouteDestinations_not_panic:
  "ds \<noteq> [] \<Longrightarrow> \<not> is_panic (destinationsToHttpRouteDestinations r ds)"
  using validateWeights_not_panic [of ds r]
  by (auto simp: destinationsToHttpRouteDestinations_def Let_def neq_Nil_conv split: sum.splits)

lemma length_inferWeights_loop [simp]: "length (inferWeights_loop n i hs) = length hs"
  by (induction n i hs rule: inferWeights_loop.induct) (simp_all add: Let_def)

lemma inferWeights_loop_nth:
  "k < length hs \<Longrightarrow> inferWeights_loop n i hs ! k =
     (hs ! k)\<lparr>HRD_Weight := int32 (let w = go_quot IstioExpectedWeight n
                                  in if i + k = 0 then w + (IstioExpectedWeight - n * w) else w)\<rparr>"
  by (induction n i hs arbitrary: k rule: inferWeights_loop.induct) (auto simp: Let_def nth_Cons split: nat.splits)

text \<open>The numbers behind the default split of 100 over \<open>n\<close> destinations.\<close>

lemma quot_expected:
  assumes "0 < n" and "n < 2 ^ 63"
  shows "go_quot IstioExpectedWeight (word_of_nat n) = word_of_int (100 div int n)"
    and "IstioExpectedWeight - word_of_nat n * word_of_int (100 div int n) = word_of_int (100 mod int n)"
proof -
  have "sint (word_of_nat n :: go_int) = int n"
    using assms(2) by (rule sint_word_of_nat_small)
  then show "go_quot IstioExpectedWeight (word_of_nat n) = word_of_int (100 div int n)"
    by (subst go_quot_nonneg) (simp_all add: IstioExpectedWeight_def)
  have "IstioExpectedWeight - word_of_nat n * word_of_int (100 div int n)
      = word_of_int (100 - int n * (100 div int n))"
    by (simp add: IstioExpectedWeight_def)
  then show "IstioExpectedWeight - word_of_nat n * word_of_int (100 div int n) = word_of_int (100 mod int n)"
    by (simp add: minus_mult_div_eq_mod)
qed

lemma default_share_bounds:
  fixes n :: int
  assumes "0 < n"
  shows "0 \<le> 100 div n" "100 div n \<le> 100" "0 \<le> 100 div n + 100 mod n" "100 div n + 100 mod n \<le> 100"
proof -
  show "0 \<le> 100 div n" using assms by (simp add: pos_imp_zdiv_nonneg_iff)
  show "100 div n \<le> 100" using assms zdiv_mono2 [of 100 1 n] by simp
  have "100 div n \<le> n * (100 div n)"
    using assms \<open>0 \<le> 100 div n\<close> by (simp add: mult_le_cancel_right1)
  moreover have "n * (100 div n) + 100 mod n = 100" by simp
  ultimately show "100 div n + 100 mod n \<le> 100" by linarith
  show "0 \<le> 100 div n + 100 mod n" using assms \<open>0 \<le> 100 div n\<close> by simp
qed

definition default_share :: "nat \<Rightarrow> nat \<Rightarrow> int" where
  "default_share n k = (if k = 0 then 100 div int n + 100 mod int n else 100 div int n)"

lemma default_share_range: "0 < n \<Longrightarrow> 0 \<le> default_share n k \<and> default_share n k \<le> 100"
  using default_share_bounds [of "int n"] by (simp add: default_share_def)

lemma sum_default_share: "0 < n \<Longrightarrow> (\<Sum>k < n. default_share n k) = 100"
proof -
  assume "0 < n"
  then obtain m where n: "n = Suc m" by (cases n) simp_all
  have "(\<Sum>k < n. default_share n k) = default_share n 0 + (\<Sum>k < m. default_share n (Suc k))"
    unfolding n by (rule sum.lessThan_Suc_shift)
  also have "\<dots> = 100 div int n + 100 mod int n + int m * (100 div int n)"
    by (simp add: default_share_def)
  also have "\<dots> = int n * (100 div int n) + 100 mod int n"
    by (simp add: n algebra_simps)
  also have "\<dots> = 100" by simp
  finally show ?thesis .
qed

lemma inferred_weight_nth:
  assumes "0 < length hs" and "length hs < 2 ^ 63" and "k < length hs"
  shows "HRD_Weight (inferWeights_loop (word_of_nat (length hs)) 0 hs ! k)
         = word_of_int (default_share (length hs) k)"
proof -
  note q = quot_expected [OF assms(1,2)]
  show ?thesis
    by (simp add: inferWeights_loop_nth assms(3) Let_def q int32_add int32_word_of_int default_share_def)
qed

lemma sint_small_share:
  "0 \<le> i \<Longrightarrow> i \<le> 100 \<Longrightarrow> sint (word_of_int i :: go_int32) = i"
  by (subst signed_of_int) (simp add: signed_take_bit_int_eq_self)


section \<open>Lemmas: the loop over the routes of an FQDN\<close>

text \<open>What one route contributes: an owner always, and at most one HTTP entry.\<close>

definition http_entries :: "nat \<Rightarrow> Route \<Rightarrow> HTTPRoute list go_result" where
  "http_entries n route =
     (if RS_Destinations (R_Spec route) \<noteq> []
      then (case destinationsToHttpRouteDestinations route (RS_Destinations (R_Spec route)) of
              Inl e \<Rightarrow> Inl e
            | Inr ds \<Rightarrow> Inr [\<lparr>HR_Match = httpMatch route, HR_Route = ds\<rparr>])
      else if n > 1 then Inr []
      else Inr [\<lparr>HR_Match = httpMatch route, HR_Route = httpRouteDestinationPlaceholder\<rparr>])"

definition extendVS :: "VirtualService \<Rightarrow> OwnerReference list \<Rightarrow> HTTPRoute list \<Rightarrow> VirtualService" where
  "extendVS vs os hs = vs\<lparr>
     VS_ObjectMeta := (VS_ObjectMeta vs)\<lparr>OM_OwnerReferences := OM_OwnerReferences (VS_ObjectMeta vs) @ os\<rparr>,
     VS_Spec := (VS_Spec vs)\<lparr>VSS_VirtualService := (VSS_VirtualService (VS_Spec vs))\<lparr>
       VS_Http := VS_Http (VSS_VirtualService (VS_Spec vs)) @ hs\<rparr>\<rparr>\<rparr>"

lemma extendVS_simps:
  "extendVS vs [] [] = vs"
  "extendVS (addOwner vs o') os hs = extendVS vs (o' # os) hs"
  "extendVS (addHttp (addOwner vs o') h) os hs = extendVS vs (o' # os) (h # hs)"
  by (simp_all add: extendVS_def addOwner_def addHttp_def)

lemma fqdnToVirtualService_loop_eq:
  "fqdnToVirtualService_loop L n vs rs =
     (case traverse_go (http_entries n) rs of
        Inl e \<Rightarrow> Inl e
      | Inr ess \<Rightarrow> Inr (extendVS vs (map (routeToOwnerRef L) rs) (concat ess)))"
  by (induction L n vs rs rule: fqdnToVirtualService_loop.induct)
    (auto simp: Let_def http_entries_def extendVS_simps split: sum.splits)

lemma http_entries_ok_iff:
  "is_ok (http_entries n route) \<longleftrightarrow>
     (RS_Destinations (R_Spec route) = [] \<or> valid_weights (RS_Destinations (R_Spec route)))"
  using destinationsToHttpRouteDestinations_ok_iff [of route "RS_Destinations (R_Spec route)"]
  by (auto simp: http_entries_def is_ok_iff split: sum.splits)

lemma http_entries_not_panic: "\<not> is_panic (http_entries n route)"
  using destinationsToHttpRouteDestinations_not_panic [of "RS_Destinations (R_Spec route)" route]
  by (auto simp: http_entries_def split: sum.splits)

lemma http_entries_match: "http_entries n route = Inr es \<Longrightarrow> e \<in> set es \<Longrightarrow> HR_Match e = httpMatch route"
  by (auto simp: http_entries_def split: if_splits sum.splits)

text \<open>The whole VirtualService of an FQDN, in closed form.\<close>

definition gateways_for :: "VirtualServiceBuilder \<Rightarrow> Route \<Rightarrow> string list" where
  "gateways_for b r = (if RDom_Internal (RS_Domain (R_Spec r)) then [MeshInternalGateway] else IstioGateways b)"

definition assembledVS ::
    "Lib \<Rightarrow> VirtualServiceBuilder \<Rightarrow> string \<Rightarrow> Route \<Rightarrow> Route list \<Rightarrow> HTTPRoute list \<Rightarrow> VirtualService" where
  "assembledVS L b fqdn r0 rs hs =
     extendVS (setGateways (emptyVirtualService fqdn r0) (gateways_for b r0)) (map (routeToOwnerRef L) rs) hs"

lemma assembledVS_sel [simp]:
  "OM_Name (VS_ObjectMeta (assembledVS L b fqdn r0 rs hs)) = VirtualServiceName fqdn"
  "OM_Namespace (VS_ObjectMeta (assembledVS L b fqdn r0 rs hs)) = OM_Namespace (R_ObjectMeta r0)"
  "OM_Labels (VS_ObjectMeta (assembledVS L b fqdn r0 rs hs)) = Map.empty"
  "OM_Annotations (VS_ObjectMeta (assembledVS L b fqdn r0 rs hs)) = [''cloudfoundry.org/fqdn'' \<mapsto> fqdn]"
  "OM_OwnerReferences (VS_ObjectMeta (assembledVS L b fqdn r0 rs hs)) = map (routeToOwnerRef L) rs"
  "VS_Hosts (VSS_VirtualService (VS_Spec (assembledVS L b fqdn r0 rs hs))) = [fqdn]"
  "VS_Gateways (VSS_VirtualService (VS_Spec (assembledVS L b fqdn r0 rs hs))) = gateways_for b r0"
  "VS_Http (VSS_VirtualService (VS_Spec (assembledVS L b fqdn r0 rs hs))) = hs"
  by (simp_all add: assembledVS_def extendVS_def setGateways_def emptyVirtualService_def zero_ObjectMeta_def)

lemma fqdnToVirtualService_eq:
  "fqdnToVirtualService L b fqdn rs =
     (if rs = [] then Inl index_out_of_range
      else case validateRoutesForFQDN rs of
        Inl e \<Rightarrow> Inl e
      | Inr _ \<Rightarrow> (case traverse_go (http_entries (length rs)) (sortRoutes L rs) of
                   Inl e \<Rightarrow> Inl e
                 | Inr ess \<Rightarrow> Inr (assembledVS L b fqdn (hd rs) (sortRoutes L rs) (concat ess))))"
  by (cases rs; cases "validateRoutesForFQDN rs")
    (simp_all add: fqdnToVirtualService_def fqdnToVirtualService_loop_eq assembledVS_def gateways_for_def Let_def
      cong: sum.case_cong)

lemma fqdnToVirtualService_Inr_iff:
  "fqdnToVirtualService L b fqdn rs = Inr vs \<longleftrightarrow>
     rs \<noteq> [] \<and> consistent_routes rs \<and>
     (\<exists>ess. traverse_go (http_entries (length rs)) (sortRoutes L rs) = Inr ess \<and>
            vs = assembledVS L b fqdn (hd rs) (sortRoutes L rs) (concat ess))"
  using validateRoutesForFQDN_ok_iff [of rs]
  by (auto simp: fqdnToVirtualService_eq split: sum.splits)

text \<open>A consistent group gives the same gateways and namespace whichever of its routes is read.\<close>

lemma assembledVS_consistent:
  assumes "consistent_routes rs" and "r \<in> set rs" and "r' \<in> set rs"
  shows "assembledVS L b fqdn r ss hs = assembledVS L b fqdn r' ss hs"
proof -
  have "RDom_Internal (RS_Domain (R_Spec r)) = RDom_Internal (RS_Domain (R_Spec r'))"
    "OM_Namespace (R_ObjectMeta r) = OM_Namespace (R_ObjectMeta r')"
    using assms unfolding consistent_routes_def by blast+
  then show ?thesis
    by (simp add: assembledVS_def emptyVirtualService_def gateways_for_def)
qed

lemma traverse_go_not_panic: "\<forall>x \<in> set xs. \<not> is_panic (f x) \<Longrightarrow> \<not> is_panic (traverse_go f xs)"
  by (induction xs) (auto split: sum.splits)

lemma fqdnToVirtualService_not_panic:
  assumes "rs \<noteq> []"
  shows "\<not> is_panic (fqdnToVirtualService L b fqdn rs)"
  using assms validateRoutesForFQDN_not_panic [of rs]
    traverse_go_not_panic [of "sortRoutes L rs" "http_entries (length rs)"] http_entries_not_panic
  by (auto simp: fqdnToVirtualService_eq split: sum.splits)

section \<open>Lemmas: Build\<close>

definition fqdns_of :: "Route list \<Rightarrow> string list" where
  "fqdns_of rs = sorted_list_of_set (FQDN ` set rs)"

definition routes_for :: "Route list \<Rightarrow> string \<Rightarrow> Route list" where
  "routes_for rs f = filter (\<lambda>r. FQDN r = f) rs"

lemma set_fqdns_of [simp]: "set (fqdns_of rs) = FQDN ` set rs"
  by (simp add: fqdns_of_def)

lemma routes_for_Nil_iff: "routes_for rs f = [] \<longleftrightarrow> f \<notin> FQDN ` set rs"
  by (auto simp: routes_for_def filter_empty_conv)

lemma set_routes_for: "set (routes_for rs f) = {r \<in> set rs. FQDN r = f}"
  by (auto simp: routes_for_def)

lemma Build_eq:
  "VirtualServiceBuilder_Build L b routes =
     traverse_go (\<lambda>f. fqdnToVirtualService L b f (routes_for (RL_Items routes) f)) (fqdns_of (RL_Items routes))"
  by (simp add: VirtualServiceBuilder_Build_def Let_def sortFQDNs_groupByFQDN fqdns_of_def routes_for_def)

lemma Build_list_all2:
  "VirtualServiceBuilder_Build L b routes = Inr vss \<Longrightarrow>
     list_all2 (\<lambda>f vs. fqdnToVirtualService L b f (routes_for (RL_Items routes) f) = Inr vs)
       (fqdns_of (RL_Items routes)) vss"
  by (simp add: Build_eq traverse_go_Inr_iff)

lemma Build_mem:
  assumes "VirtualServiceBuilder_Build L b routes = Inr vss" and "vs \<in> set vss"
  obtains f where "f \<in> FQDN ` set (RL_Items routes)"
    and "fqdnToVirtualService L b f (routes_for (RL_Items routes) f) = Inr vs"
  using Build_list_all2 [OF assms(1)] assms(2)
  by (auto simp: list_all2_conv_all_nth in_set_conv_nth) (metis nth_mem set_fqdns_of)

lemma sortRoutes_order: "strict_weak_order (\<lambda>r r'. RS_Url (R_Spec r) > RS_Url (R_Spec r'))"
  unfolding strict_weak_order_def by auto

context ext_lib
begin

lemma set_sortRoutes [simp]: "set (sortRoutes L rs) = set rs"
  by (simp add: sortRoutes_def)

lemma length_sortRoutes [simp]: "length (sortRoutes L rs) = length rs"
  by (simp add: sortRoutes_def)

lemma mset_sortRoutes: "mset (sortRoutes L rs) = mset rs"
  by (simp add: sortRoutes_def sort_perm)

lemma sorted_sortRoutes:
  "sorted_wrt (\<lambda>r r'. RS_Url (R_Spec r') \<le> RS_Url (R_Spec r)) (sortRoutes L rs)"
proof -
  have "sorted_wrt (\<lambda>r r'. \<not> RS_Url (R_Spec r') > RS_Url (R_Spec r)) (sortRoutes L rs)"
    unfolding sortRoutes_def by (rule sort_sorted [OF sortRoutes_order])
  then show ?thesis by (simp only: not_less)
qed

lemma sortRoutes_perm:
  assumes "mset rs = mset rs'" and "inj_on (RS_Url \<circ> R_Spec) (set rs)"
  shows "sortRoutes L rs = sortRoutes L rs'"
  unfolding sortRoutes_def
  by (rule sort_perm_eq [OF sortRoutes_order assms(1)])
    (use assms(2) in \<open>auto simp: inj_on_def not_less dest: antisym\<close>)

lemma fqdnToVirtualService_ok_iff:
  "is_ok (fqdnToVirtualService L b f rs) \<longleftrightarrow>
     rs \<noteq> [] \<and> consistent_routes rs \<and>
     (\<forall>r \<in> set rs. RS_Destinations (R_Spec r) = [] \<or> valid_weights (RS_Destinations (R_Spec r)))"
proof -
  have "(\<exists>ess. traverse_go (http_entries (length rs)) (sortRoutes L rs) = Inr ess) \<longleftrightarrow>
      (\<forall>r \<in> set rs. RS_Destinations (R_Spec r) = [] \<or> valid_weights (RS_Destinations (R_Spec r)))"
    unfolding is_ok_iff [symmetric] traverse_go_ok_iff http_entries_ok_iff by simp
  then show ?thesis
    unfolding is_ok_iff fqdnToVirtualService_Inr_iff by blast
qed

lemma fqdnToVirtualService_perm:
  assumes "fqdnToVirtualService L b f rs = Inr vs" and "mset rs = mset rs'"
    and "inj_on (RS_Url \<circ> R_Spec) (set rs)"
  shows "fqdnToVirtualService L b f rs' = Inr vs"
proof -
  have same: "set rs' = set rs" "length rs' = length rs"
    using assms(2) by (metis set_mset_mset, metis size_mset)
  from assms(1) obtain ess where ne: "rs \<noteq> []" and co: "consistent_routes rs"
    and ess: "traverse_go (http_entries (length rs)) (sortRoutes L rs) = Inr ess"
    and vs: "vs = assembledVS L b f (hd rs) (sortRoutes L rs) (concat ess)"
    by (auto simp: fqdnToVirtualService_Inr_iff)
  have ne': "rs' \<noteq> []" using ne same(2) by auto
  have co': "consistent_routes rs'" using consistent_routes_mono [of rs' rs] co same(1) by simp
  have "hd rs' \<in> set rs" using ne' same(1) hd_in_set by blast
  then have "vs = assembledVS L b f (hd rs') (sortRoutes L rs) (concat ess)"
    unfolding vs using ne by (intro assembledVS_consistent [OF co]) simp_all
  with ne' co' ess same(2) sortRoutes_perm [OF assms(2,3)] show ?thesis
    by (auto simp: fqdnToVirtualService_Inr_iff)
qed

text \<open>The same two facts for a whole route list.\<close>

lemma Build_ok_iff:
  "is_ok (VirtualServiceBuilder_Build L b routes) \<longleftrightarrow>
    (\<forall>r \<in> set (RL_Items routes). \<forall>r' \<in> set (RL_Items routes). FQDN r = FQDN r' \<longrightarrow>
       RDom_Internal (RS_Domain (R_Spec r)) = RDom_Internal (RS_Domain (R_Spec r')) \<and>
       OM_Namespace (R_ObjectMeta r) = OM_Namespace (R_ObjectMeta r')) \<and>
    (\<forall>r \<in> set (RL_Items routes).
       RS_Destinations (R_Spec r) = [] \<or> valid_weights (RS_Destinations (R_Spec r)))"
proof -
  let ?rs = "RL_Items routes"
  have "is_ok (VirtualServiceBuilder_Build L b routes) \<longleftrightarrow>
      (\<forall>f \<in> FQDN ` set ?rs. consistent_routes (routes_for ?rs f) \<and>
         (\<forall>r \<in> set (routes_for ?rs f).
            RS_Destinations (R_Spec r) = [] \<or> valid_weights (RS_Destinations (R_Spec r))))"
    by (simp add: Build_eq traverse_go_ok_iff fqdnToVirtualService_ok_iff routes_for_Nil_iff)
  then show ?thesis
    unfolding consistent_routes_def set_routes_for by blast
qed

lemma Build_perm:
  assumes "VirtualServiceBuilder_Build L b routes = Inr vss"
    and "mset (RL_Items routes) = mset (RL_Items routes')"
    and "inj_on (RS_Url \<circ> R_Spec) (set (RL_Items routes))"
  shows "VirtualServiceBuilder_Build L b routes' = Inr vss"
proof -
  let ?rs = "RL_Items routes" and ?rs' = "RL_Items routes'"
  have same: "set ?rs' = set ?rs" using assms(2) by (metis set_mset_mset)
  have "fqdnToVirtualService L b f (routes_for ?rs' f) = Inr vs"
    if "fqdnToVirtualService L b f (routes_for ?rs f) = Inr vs" for f vs
  proof (rule fqdnToVirtualService_perm [OF that])
    show "mset (routes_for ?rs f) = mset (routes_for ?rs' f)"
      by (simp add: routes_for_def assms(2))
    show "inj_on (RS_Url \<circ> R_Spec) (set (routes_for ?rs f))"
      using assms(3) by (rule inj_on_subset) (auto simp: set_routes_for)
  qed
  then have "list_all2 (\<lambda>f vs. fqdnToVirtualService L b f (routes_for ?rs' f) = Inr vs) (fqdns_of ?rs') vss"
    using Build_list_all2 [OF assms(1)] unfolding fqdns_of_def same
    by (rule list_all2_mono [rotated])
  then show ?thesis by (simp add: Build_eq traverse_go_Inr_iff)
qed

end

end
