(* ===== verification/RouteMatching.thy ===== *)
theory RouteMatching
  imports VirtualServiceBuilder
begin

text \<open>
  What the built VirtualServices mean for a request. Istio takes the first HTTP entry whose match
  accepts the request's path; \<open>select_http\<close> is that rule over the modelled fields. Against it stands
  the routing the platform promises its users, longest matching path first, stated over the routes
  themselves. The lemmas connect the two: descending URL order makes first match longest match.
\<close>

definition match_uri :: "HTTPMatchRequest \<Rightarrow> string \<Rightarrow> bool" where
  "match_uri m uri = (case HM_Uri m of None \<Rightarrow> True | Some (StringMatch_Prefix p) \<Rightarrow> prefix p uri)"

definition http_matches :: "HTTPRoute \<Rightarrow> string \<Rightarrow> bool" where
  "http_matches h uri \<longleftrightarrow> HR_Match h = [] \<or> list_ex (\<lambda>m. match_uri m uri) (HR_Match h)"

definition select_http :: "HTTPRoute list \<Rightarrow> string \<Rightarrow> HTTPRoute option" where
  "select_http hs uri = find (\<lambda>h. http_matches h uri) hs"

abbreviation path_of :: "Route \<Rightarrow> string" where
  "path_of r \<equiv> RS_Path (R_Spec r)"

abbreviation vs_http :: "VirtualService \<Rightarrow> HTTPRoute list" where
  "vs_http vs \<equiv> VS_Http (VSS_VirtualService (VS_Spec vs))"

abbreviation vs_hosts :: "VirtualService \<Rightarrow> string list" where
  "vs_hosts vs \<equiv> VS_Hosts (VSS_VirtualService (VS_Spec vs))"

abbreviation vs_gateways :: "VirtualService \<Rightarrow> string list" where
  "vs_gateways vs \<equiv> VS_Gateways (VSS_VirtualService (VS_Spec vs))"

text \<open>
  Among \<open>n\<close> routes of one FQDN a route takes part in routing when it has destinations, or when it is
  the only one (its requests then reach the placeholder host).
\<close>

definition served :: "nat \<Rightarrow> Route \<Rightarrow> bool" where
  "served n r \<longleftrightarrow> RS_Destinations (R_Spec r) \<noteq> [] \<or> n \<le> 1"

definition well_formed_url :: "Route \<Rightarrow> bool" where
  "well_formed_url r \<longleftrightarrow> RS_Url (R_Spec r) = FQDN r @ path_of r"

definition backend_hosts :: "Route \<Rightarrow> string list" where
  "backend_hosts r =
     (if RS_Destinations (R_Spec r) = [] then [''no-destinations'']
      else map serviceName (RS_Destinations (R_Spec r)))"

definition entry_for :: "Route \<Rightarrow> HTTPRoute \<Rightarrow> bool" where
  "entry_for r h \<longleftrightarrow>
     HR_Match h = httpMatch r \<and> map (D_Host \<circ> HRD_Destination) (HR_Route h) = backend_hosts r"

section \<open>Lemmas\<close>

lemma http_matches_httpMatch: "HR_Match h = httpMatch r \<Longrightarrow> http_matches h uri \<longleftrightarrow> prefix (path_of r) uri"
  by (auto simp: http_matches_def httpMatch_def match_uri_def)

lemma hosts_inferWeights_loop:
  "map (D_Host \<circ> HRD_Destination) (inferWeights_loop n i hs) = map (D_Host \<circ> HRD_Destination) hs"
  by (induction n i hs rule: inferWeights_loop.induct) (simp_all add: Let_def)

lemma headers_inferWeights_loop: "map HRD_Headers (inferWeights_loop n i hs) = map HRD_Headers hs"
  by (induction n i hs rule: inferWeights_loop.induct) (simp_all add: Let_def)

lemma destinationsToHttpRouteDestinations_hosts:
  "destinationsToHttpRouteDestinations r ds = Inr hs \<Longrightarrow>
     map (D_Host \<circ> HRD_Destination) hs = map serviceName ds"
  by (auto simp: destinationsToHttpRouteDestinations_Inr_iff hosts_inferWeights_loop httpDestination_def)

lemma http_entries_served:
  assumes "http_entries n r = Inr es"
  shows "(if served n r then \<exists>h. es = [h] \<and> entry_for r h else es = [])"
  using assms destinationsToHttpRouteDestinations_hosts
  by (auto simp: http_entries_def served_def entry_for_def backend_hosts_def
      httpRouteDestinationPlaceholder_def split: sum.splits if_splits)

lemma url_order_longest:
  assumes "RS_Url (R_Spec r') \<le> RS_Url (R_Spec r)"
    and "RS_Url (R_Spec r) = f @ path_of r" "RS_Url (R_Spec r') = f @ path_of r'"
    and "prefix (path_of r) uri" "prefix (path_of r') uri"
  shows "length (path_of r') \<le> length (path_of r)"
proof (rule ccontr)
  assume "\<not> length (path_of r') \<le> length (path_of r)"
  with assms(4,5) have "strict_prefix (path_of r) (path_of r')"
    by (metis nle_le prefix_length_prefix prefix_order.dual_order.strict_iff_order)
  then have "path_of r < path_of r'" by (rule strict_prefix_less)
  with assms(1-3) show False by (simp add: append_less_cancel not_less [symmetric])
qed

text \<open>First match in a list sorted by descending URL is longest match.\<close>

lemma find_sorted_longest:
  assumes "list_all2 (\<lambda>r es. http_entries n r = Inr es) rs ess"
    and "sorted_wrt (\<lambda>r r'. RS_Url (R_Spec r') \<le> RS_Url (R_Spec r)) rs"
    and "\<forall>r \<in> set rs. RS_Url (R_Spec r) = f @ path_of r"
  shows "case select_http (concat ess) uri of
      None \<Rightarrow> \<forall>r \<in> set rs. served n r \<longrightarrow> \<not> prefix (path_of r) uri
    | Some h \<Rightarrow> \<exists>r \<in> set rs. served n r \<and> prefix (path_of r) uri \<and> entry_for r h \<and>
        (\<forall>r' \<in> set rs. served n r' \<and> prefix (path_of r') uri \<longrightarrow> length (path_of r') \<le> length (path_of r))"
  using assms
proof (induction rs ess rule: list_all2_induct)
  case Nil
  then show ?case by (simp add: select_http_def)
next
  case (Cons r rs es ess)
  from Cons.prems have sorted: "sorted_wrt (\<lambda>r r'. RS_Url (R_Spec r') \<le> RS_Url (R_Spec r)) rs"
    and url: "\<forall>r \<in> set rs. RS_Url (R_Spec r) = f @ path_of r" by simp_all
  note IH = Cons.IH [OF sorted url]
  show ?case
  proof (cases "served n r \<and> prefix (path_of r) uri")
    case True
    with http_entries_served [OF Cons.hyps(1)] obtain h where h: "es = [h]" "entry_for r h" by auto
    then have "http_matches h uri" using True by (simp add: entry_for_def http_matches_httpMatch)
    with h have sel: "select_http (concat (es # ess)) uri = Some h" by (simp add: select_http_def)
    have "length (path_of r') \<le> length (path_of r)"
      if "r' \<in> set (r # rs)" "prefix (path_of r') uri" for r'
    proof (cases "r' = r")
      case False
      with that Cons.prems(1) have "RS_Url (R_Spec r') \<le> RS_Url (R_Spec r)" by simp
      then show ?thesis
        by (rule url_order_longest [where f = f]) (use Cons.prems(2) that True in auto)
    qed simp
    with sel True h show ?thesis by auto
  next
    case False
    have "select_http (concat (es # ess)) uri = select_http (concat ess) uri"
    proof (cases "served n r")
      case True
      with http_entries_served [OF Cons.hyps(1)] obtain h where h: "es = [h]" "entry_for r h" by auto
      then have "\<not> http_matches h uri" using True False by (simp add: entry_for_def http_matches_httpMatch)
      with h show ?thesis by (simp add: select_http_def)
    next
      case False
      with http_entries_served [OF Cons.hyps(1)] show ?thesis by simp
    qed
    with IH False show ?thesis by (auto split: option.splits)
  qed
qed

context ext_lib
begin

lemma Build_longest_prefix:
  assumes "VirtualServiceBuilder_Build L b routes = Inr vss" and "vs \<in> set vss" and "vs_hosts vs = [f]"
    and "\<forall>r \<in> set (RL_Items routes). well_formed_url r"
  defines "rs \<equiv> routes_for (RL_Items routes) f"
  shows "case select_http (vs_http vs) uri of
      None \<Rightarrow> \<forall>r \<in> set rs. served (length rs) r \<longrightarrow> \<not> prefix (path_of r) uri
    | Some h \<Rightarrow> \<exists>r \<in> set rs. served (length rs) r \<and> prefix (path_of r) uri \<and> entry_for r h \<and>
        (\<forall>r' \<in> set rs. served (length rs) r' \<and> prefix (path_of r') uri \<longrightarrow>
           length (path_of r') \<le> length (path_of r))"
proof -
  from assms(1,2) obtain f' where vs: "fqdnToVirtualService L b f' (routes_for (RL_Items routes) f') = Inr vs"
    by (rule Build_mem)
  then have "f' = f" using assms(3) by (auto simp: fqdnToVirtualService_Inr_iff)
  with vs obtain ess where
    ess: "list_all2 (\<lambda>r es. http_entries (length rs) r = Inr es) (sortRoutes L rs) ess"
    and http: "vs_http vs = concat ess"
    by (auto simp: fqdnToVirtualService_Inr_iff rs_def traverse_go_Inr_iff)
  have "RS_Url (R_Spec r) = f @ path_of r" if "r \<in> set rs" for r
    using that assms(4) by (simp add: rs_def set_routes_for well_formed_url_def)
  with find_sorted_longest [OF ess sorted_sortRoutes, of f uri] show ?thesis
    unfolding http set_sortRoutes by blast
qed

end

end
