(* ===== verification/SampleData.thy ===== *)
theory SampleData
  imports RouteMatching
begin

text \<open>
  Concrete inputs the witnesses evaluate, modelled on the fixtures of
  \<^verbatim>\<open>virtual_service_builder_test.go\<close>: two routes on one FQDN, one path a prefix of the other, a
  third without destinations, and their destinations.
\<close>

definition sample_dest :: "string \<Rightarrow> go_int option \<Rightarrow> RouteDestination" where
  "sample_dest guid weight = \<lparr>RD_Guid = guid, RD_Weight = weight, RD_Port = Some 8080,
     RD_App = \<lparr>DA_Guid = ''app-guid-0'', DA_Process = \<lparr>AP_Type = ''web''\<rparr>\<rparr>,
     RD_Selector = \<lparr>DS_MatchLabels = [''cloudfoundry.org/app_guid'' \<mapsto> ''app-guid-0'']\<rparr>\<rparr>"

definition sample_meta :: "string \<Rightarrow> ObjectMeta" where
  "sample_meta name = zero_ObjectMeta\<lparr>OM_Name := name, OM_Namespace := ''workload-namespace'',
     OM_UID := name @ ''-uid'',
     OM_Labels := [''cloudfoundry.org/space_guid'' \<mapsto> ''space-guid-0'', ''cloudfoundry.org/org_guid'' \<mapsto> ''org-guid-0'']\<rparr>"

definition sample_route :: "string \<Rightarrow> string \<Rightarrow> RouteDestination list \<Rightarrow> Route" where
  "sample_route name path ds = \<lparr>
     R_TypeMeta = \<lparr>TM_Kind = ''Route'', TM_APIVersion = ''networking.cloudfoundry.org/v1alpha1''\<rparr>,
     R_ObjectMeta = sample_meta name,
     R_Spec = \<lparr>RS_Host = ''test0'', RS_Path = path, RS_Url = ''test0.domain0.example.com'' @ path,
       RS_Domain = \<lparr>RDom_Name = ''domain0.example.com'', RDom_Internal = False\<rparr>, RS_Destinations = ds\<rparr>,
     R_Status = \<lparr>RSt_Conditions = []\<rparr>\<rparr>"

definition route0 :: Route where
  "route0 = sample_route ''route-guid-0'' ''/path0'' [sample_dest ''dest-0'' None, sample_dest ''dest-1'' None, sample_dest ''dest-2'' None]"

definition route1 :: Route where
  "route1 = sample_route ''route-guid-1'' ''/path0/deeper'' [sample_dest ''dest-3'' (Some 30), sample_dest ''dest-4'' (Some 70)]"

definition route2 :: Route where
  "route2 = sample_route ''route-guid-2'' '''' []"

definition sample_builder :: VirtualServiceBuilder where
  "sample_builder = \<lparr>IstioGateways = [''some-gateway0'', ''some-gateway1'']\<rparr>"

definition sample_fqdn :: string where
  "sample_fqdn = ''test0.domain0.example.com''"

lemmas sample_defs = route0_def route1_def route2_def sample_route_def sample_meta_def sample_dest_def
  sample_builder_def sample_fqdn_def zero_ObjectMeta_def

lemma sample_FQDN [simp]: "FQDN (sample_route name path ds) = sample_fqdn"
  by (simp add: FQDN_def sample_route_def sample_fqdn_def)

lemma sample_FQDNs [simp]: "FQDN route0 = sample_fqdn" "FQDN route1 = sample_fqdn" "FQDN route2 = sample_fqdn"
  by (simp_all add: route0_def route1_def route2_def)

lemma sample_urls [simp]: "well_formed_url route0" "well_formed_url route1" "well_formed_url route2"
  by (simp_all add: well_formed_url_def) (simp_all add: sample_defs)

lemma sample_routes_for [simp]:
  "routes_for [route0, route1] sample_fqdn = [route0, route1]"
  "routes_for [route0] sample_fqdn = [route0]"
  "routes_for [route2] sample_fqdn = [route2]"
  by (simp_all add: routes_for_def)

lemma sample_fqdns_of [simp]:
  "fqdns_of [route0, route1] = [sample_fqdn]" "fqdns_of [route0] = [sample_fqdn]" "fqdns_of [route2] = [sample_fqdn]"
  by (simp_all add: fqdns_of_def)

lemma sample_consistent: "consistent_routes [route0, route1]"
  by (simp add: consistent_routes_def sample_defs)

lemma sample_valid:
  "valid_weights (RS_Destinations (R_Spec route0))" "valid_weights (RS_Destinations (R_Spec route1))"
  by (simp_all add: valid_weights_def weights_of_def IstioExpectedWeight_def sample_defs)

lemma sample_dests:
  "length (RS_Destinations (R_Spec route0)) = 3" "length (RS_Destinations (R_Spec route1)) = 2"
  "\<forall>d \<in> set (RS_Destinations (R_Spec route0)). RD_Weight d = None"
  by (simp_all add: sample_defs)

lemma sample_paths:
  "path_of route0 = ''/path0''" "path_of route1 = ''/path0/deeper''" "path_of route2 = ''''"
  by (simp_all add: sample_defs)

lemma sample_gateways:
  "\<not> RDom_Internal (RS_Domain (R_Spec route0))" "IstioGateways sample_builder = [''some-gateway0'', ''some-gateway1'']"
  by (simp_all add: sample_defs)

lemma sample_sorted: "sortRoutes go_lib [route0, route1] = [route1, route0]"
  by (simp add: sortRoutes_def go_lib_def insertionSort_def sample_defs less_char_def)

end
