(* ===== verification/BuilderProperties.thy ===== *)
theory BuilderProperties
  imports SampleData
begin

text \<open>
  The properties of the two resource builders, each with a witness that applies it to the sample
  routes. They rest on the lemmas of \<open>ServiceBuilder\<close>, \<open>VirtualServiceBuilder\<close> and \<open>RouteMatching\<close>,
  and hold for every sort that keeps the contract of \<^verbatim>\<open>sort.Slice\<close> (\<open>ext_lib\<close>).
\<close>

section \<open>Requests reach the route with the longest matching path\<close>

text \<open>
  C1. Whenever \<^verbatim>\<open>Build\<close> succeeds and every route's URL is its FQDN followed by its path, the
  VirtualService of an FQDN sends a request to the route of that FQDN with the longest path that is
  a prefix of the request's: the first matching entry carries that route's match and backends, no
  other served route of the FQDN with a matching path has a longer one, and when no entry matches
  no served route's path does.
\<close>

theorem longest_prefix_routing:
  assumes "ext_lib L"
    and "VirtualServiceBuilder_Build L b routes = Inr vss" and "vs \<in> set vss" and "vs_hosts vs = [f]"
    and "\<forall>r \<in> set (RL_Items routes). well_formed_url r"
  defines "rs \<equiv> routes_for (RL_Items routes) f"
  shows "case select_http (vs_http vs) uri of
      None \<Rightarrow> \<forall>r \<in> set rs. served (length rs) r \<longrightarrow> \<not> prefix (path_of r) uri
    | Some h \<Rightarrow> \<exists>r \<in> set rs. served (length rs) r \<and> prefix (path_of r) uri \<and> entry_for r h \<and>
        (\<forall>r' \<in> set rs. served (length rs) r' \<and> prefix (path_of r') uri \<longrightarrow>
           length (path_of r') \<le> length (path_of r))"
  unfolding rs_def by (rule ext_lib.Build_longest_prefix [OF assms(1-5)])

lemma sample_build:
  obtains vs where "VirtualServiceBuilder_Build go_lib sample_builder \<lparr>RL_Items = [route0, route1]\<rparr> = Inr [vs]"
    and "fqdnToVirtualService go_lib sample_builder sample_fqdn [route0, route1] = Inr vs"
    and "vs_hosts vs = [sample_fqdn]"
proof -
  have "is_ok (fqdnToVirtualService go_lib sample_builder sample_fqdn [route0, route1])"
    by (simp add: golib.fqdnToVirtualService_ok_iff sample_consistent sample_valid)
  then obtain vs where vs: "fqdnToVirtualService go_lib sample_builder sample_fqdn [route0, route1] = Inr vs"
    by (auto simp: is_ok_iff)
  moreover from vs have "vs_hosts vs = [sample_fqdn]" by (auto simp: fqdnToVirtualService_Inr_iff)
  ultimately show ?thesis using that by (simp add: Build_eq)
qed

theorem longest_prefix_routing_witness:
  "\<exists>vs h. VirtualServiceBuilder_Build go_lib sample_builder \<lparr>RL_Items = [route0, route1]\<rparr> = Inr [vs] \<and>
     select_http (vs_http vs) ''/path0/deeper/x'' = Some h \<and> entry_for route1 h"
proof -
  obtain vs where vs: "VirtualServiceBuilder_Build go_lib sample_builder \<lparr>RL_Items = [route0, route1]\<rparr> = Inr [vs]"
    "vs_hosts vs = [sample_fqdn]" by (rule sample_build)
  have "served (Suc (Suc 0)) route1" "served (Suc (Suc 0)) route0" using sample_dests by (auto simp: served_def)
  then have "case select_http (vs_http vs) ''/path0/deeper/x'' of None \<Rightarrow> False | Some h \<Rightarrow> entry_for route1 h"
    using longest_prefix_routing [OF golib.ext_lib_axioms vs(1) _ vs(2), of "''/path0/deeper/x''"]
    by (auto simp: sample_paths split: option.splits)
  then show ?thesis using vs(1) by (auto split: option.splits)
qed

section \<open>Weights\<close>

text \<open>
  C7. The weights a route's HTTP entry carries always sum to 100 in 32-bit arithmetic, whether the
  destinations state their weights or leave them to be split.
\<close>

theorem weights_sum_to_100:
  assumes "destinationsToHttpRouteDestinations route ds = Inr hs" and "length ds < 2 ^ 63"
  shows "sum_list (map HRD_Weight hs) = 100"
proof (cases "RD_Weight (hd ds) = None")
  case True
  let ?hs = "map (httpDestination route) ds"
  from assms True have hs: "hs = inferWeights_loop (word_of_nat (length ?hs)) 0 ?hs" and ne: "0 < length ?hs"
    by (simp_all add: destinationsToHttpRouteDestinations_Inr_iff go_len_def)
  have "sum_list (map HRD_Weight hs) = (\<Sum>k < length ?hs. HRD_Weight (hs ! k))"
    by (simp add: sum_list_sum_nth hs atLeast0LessThan)
  also have "\<dots> = (\<Sum>k < length ?hs. word_of_int (default_share (length ?hs) k))"
    unfolding hs using ne assms(2) by (intro sum.cong refl inferred_weight_nth) simp_all
  also have "\<dots> = word_of_int (\<Sum>k < length ?hs. default_share (length ?hs) k)"
    by (rule of_int_sum [symmetric])
  also have "\<dots> = 100" using ne by (simp only: sum_default_share) simp
  finally show ?thesis .
next
  case False
  with assms(1) have "hs = map (httpDestination route) ds" "\<forall>d \<in> set ds. RD_Weight d \<noteq> None"
    and sum: "sum_list (weights_of ds) = IstioExpectedWeight"
    by (auto simp: destinationsToHttpRouteDestinations_Inr_iff valid_weights_def)
  then have "map HRD_Weight hs = map int32 (weights_of ds)"
    by (auto simp: httpDestination_def weights_of_def)
  with sum show ?thesis
    by (simp add: int32_def IstioExpectedWeight_def flip: int32_sum_list)
qed

text \<open>
  C17. When no destination states a weight, each gets \<^verbatim>\<open>100 / n\<close> and the first also the remainder:
  as signed integers the weights lie between 0 and 100 and sum to exactly 100.
\<close>

theorem inferred_weights_exact:
  assumes "destinationsToHttpRouteDestinations route ds = Inr hs" and "length ds < 2 ^ 63"
    and "\<forall>d \<in> set ds. RD_Weight d = None"
  shows "length hs = length ds \<and>
    (\<forall>k < length ds. sint (HRD_Weight (hs ! k)) =
       100 div int (length ds) + (if k = 0 then 100 mod int (length ds) else 0)) \<and>
    (\<forall>k < length ds. 0 \<le> sint (HRD_Weight (hs ! k)) \<and> sint (HRD_Weight (hs ! k)) \<le> 100) \<and>
    (\<Sum>k < length ds. sint (HRD_Weight (hs ! k))) = 100"
proof -
  let ?hs = "map (httpDestination route) ds"
  from assms have hs: "hs = inferWeights_loop (word_of_nat (length ?hs)) 0 ?hs" and ne: "ds \<noteq> []"
    by (auto simp: destinationsToHttpRouteDestinations_Inr_iff go_len_def)
  have share: "sint (HRD_Weight (hs ! k)) = default_share (length ds) k" if "k < length ds" for k
  proof -
    have "HRD_Weight (hs ! k) = word_of_int (default_share (length ds) k)"
      using inferred_weight_nth [of ?hs k] that assms(2) hs ne by simp
    with default_share_range [of "length ds" k] ne show ?thesis by (simp add: sint_small_share)
  qed
  have "(\<Sum>k < length ds. sint (HRD_Weight (hs ! k))) = 100"
    using share ne sum_default_share [of "length ds"] by simp
  moreover have "length hs = length ds" by (simp add: hs)
  ultimately show ?thesis
    using share default_share_range [of "length ds"] ne by (simp add: default_share_def)
qed

lemma sample_http:
  "destinationsToHttpRouteDestinations route0 (RS_Destinations (R_Spec route0)) =
     Inr (inferWeights_loop 3 0 (map (httpDestination route0) (RS_Destinations (R_Spec route0))))"
  "destinationsToHttpRouteDestinations route1 (RS_Destinations (R_Spec route1)) =
     Inr (map (httpDestination route1) (RS_Destinations (R_Spec route1)))"
  using sample_valid
  by (simp_all add: destinationsToHttpRouteDestinations_Inr_iff) (simp_all add: sample_defs go_len_def)

theorem weights_sum_to_100_witness:
  "sum_list (map HRD_Weight (inferWeights_loop 3 0 (map (httpDestination route0) (RS_Destinations (R_Spec route0))))) = 100"
  by (rule weights_sum_to_100 [OF sample_http(1)]) (simp add: sample_defs)

theorem inferred_weights_exact_witness:
  "sint (HRD_Weight (inferWeights_loop 3 0 (map (httpDestination route0) (RS_Destinations (R_Spec route0))) ! 0)) = 34"
  using inferred_weights_exact [OF sample_http(1)] sample_dests by auto

text \<open>
  C18. Weights the destinations state are passed through: on success every destination keeps its own
  host and, when its weight fits 32 bits signed, exactly its weight.
\<close>

theorem explicit_weights_kept:
  assumes "destinationsToHttpRouteDestinations route ds = Inr hs" and "RD_Weight (ds ! k) = Some w"
    and "k < length ds" and "- (2 ^ 31) \<le> sint w" and "sint w < 2 ^ 31"
  shows "length hs = length ds \<and> D_Host (HRD_Destination (hs ! k)) = serviceName (ds ! k) \<and>
    sint (HRD_Weight (hs ! k)) = sint w"
proof -
  from assms(2,3) have "\<not> (\<forall>d \<in> set ds. RD_Weight d = None)" by (metis nth_mem option.distinct(1))
  with assms(1) have "ds \<noteq> []" and "\<forall>d \<in> set ds. RD_Weight d \<noteq> None"
    by (auto simp: destinationsToHttpRouteDestinations_Inr_iff valid_weights_def)
  then have "RD_Weight (hd ds) \<noteq> None" by (metis hd_in_set)
  with assms(1) have "hs = map (httpDestination route) ds"
    by (simp add: destinationsToHttpRouteDestinations_Inr_iff)
  with assms(2,3) show ?thesis
    by (simp add: httpDestination_def sint_int32 [OF assms(4,5)])
qed

theorem explicit_weights_kept_witness:
  "sint (HRD_Weight (map (httpDestination route1) (RS_Destinations (R_Spec route1)) ! 1)) = 70"
  using explicit_weights_kept [OF sample_http(2), of 1 70] by (simp add: sample_defs)

section \<open>Which routes Build accepts\<close>

text \<open>
  C19. \<^verbatim>\<open>Build\<close> succeeds exactly when, for every FQDN, its routes agree on being internal and on their
  namespace, and every route with destinations states all weights, summing to 100, or none.
\<close>

theorem build_succeeds_iff:
  assumes "ext_lib L"
  shows "is_ok (VirtualServiceBuilder_Build L b routes) \<longleftrightarrow>
    (\<forall>r \<in> set (RL_Items routes). \<forall>r' \<in> set (RL_Items routes). FQDN r = FQDN r' \<longrightarrow>
       RDom_Internal (RS_Domain (R_Spec r)) = RDom_Internal (RS_Domain (R_Spec r')) \<and>
       OM_Namespace (R_ObjectMeta r) = OM_Namespace (R_ObjectMeta r')) \<and>
    (\<forall>r \<in> set (RL_Items routes).
       RS_Destinations (R_Spec r) = [] \<or> valid_weights (RS_Destinations (R_Spec r)))"
  by (rule ext_lib.Build_ok_iff [OF assms])

theorem build_succeeds_iff_witness:
  "is_ok (VirtualServiceBuilder_Build go_lib sample_builder \<lparr>RL_Items = [route0, route1]\<rparr>)"
  unfolding build_succeeds_iff [OF golib.ext_lib_axioms] RouteList.select_convs
  by (rule conjI, use sample_consistent in \<open>unfold consistent_routes_def, blast\<close>) (simp add: sample_valid)

text \<open>
  C20. \<^verbatim>\<open>Build\<close> never panics: neither index expression \<^verbatim>\<open>routes[0]\<close> nor \<^verbatim>\<open>destinations[0]\<close> is reached
  with an empty slice, for any list of routes and any sort.
\<close>

theorem build_never_panics: "\<not> is_panic (VirtualServiceBuilder_Build L b routes)"
  unfolding Build_eq
  by (rule traverse_go_not_panic) (auto simp: routes_for_Nil_iff intro!: fqdnToVirtualService_not_panic)


section \<open>What Build produces\<close>

text \<open>
  C22. \<^verbatim>\<open>Build\<close> produces one VirtualService per FQDN occurring among the routes, in ascending order of
  the FQDNs, named after the FQDN's hash and with that FQDN as its only host.
\<close>

theorem build_one_per_fqdn:
  assumes "VirtualServiceBuilder_Build L b routes = Inr vss"
  shows "sorted (concat (map vs_hosts vss)) \<and> distinct (concat (map vs_hosts vss)) \<and>
    set (concat (map vs_hosts vss)) = FQDN ` set (RL_Items routes) \<and>
    map (\<lambda>vs. OM_Name (VS_ObjectMeta vs)) vss = map VirtualServiceName (concat (map vs_hosts vss))"
proof -
  have "list_all2 (\<lambda>f vs. vs_hosts vs = [f] \<and> OM_Name (VS_ObjectMeta vs) = VirtualServiceName f)
      (fqdns_of (RL_Items routes)) vss"
    using Build_list_all2 [OF assms] by (rule list_all2_mono) (auto simp: fqdnToVirtualService_Inr_iff)
  then have "concat (map vs_hosts vss) = fqdns_of (RL_Items routes)"
    and "map (\<lambda>vs. OM_Name (VS_ObjectMeta vs)) vss = map VirtualServiceName (fqdns_of (RL_Items routes))"
    by (induction rule: list_all2_induct) auto
  then show ?thesis by (simp add: fqdns_of_def)
qed

theorem build_one_per_fqdn_witness:
  "\<exists>vs. VirtualServiceBuilder_Build go_lib sample_builder \<lparr>RL_Items = [route0, route1]\<rparr> = Inr [vs] \<and>
     OM_Name (VS_ObjectMeta vs) = VirtualServiceName sample_fqdn"
proof -
  obtain vs where vs: "VirtualServiceBuilder_Build go_lib sample_builder \<lparr>RL_Items = [route0, route1]\<rparr> = Inr [vs]"
    "vs_hosts vs = [sample_fqdn]" by (rule sample_build)
  with build_one_per_fqdn [OF vs(1)] show ?thesis by simp
qed

text \<open>
  C21. The result does not depend on the order in which the API lists the routes: for routes with
  pairwise different URLs, any permutation of the list builds the same VirtualServices.
\<close>

theorem build_order_independent:
  assumes "ext_lib L" and "VirtualServiceBuilder_Build L b routes = Inr vss"
    and "mset (RL_Items routes) = mset (RL_Items routes')"
    and "inj_on (RS_Url \<circ> R_Spec) (set (RL_Items routes))"
  shows "VirtualServiceBuilder_Build L b routes' = Inr vss"
  by (rule ext_lib.Build_perm [OF assms])

theorem build_order_independent_witness:
  "\<exists>vs. VirtualServiceBuilder_Build go_lib sample_builder \<lparr>RL_Items = [route0, route1]\<rparr> = Inr [vs] \<and>
     VirtualServiceBuilder_Build go_lib sample_builder \<lparr>RL_Items = [route1, route0]\<rparr> = Inr [vs]"
proof -
  obtain vs where vs: "VirtualServiceBuilder_Build go_lib sample_builder \<lparr>RL_Items = [route0, route1]\<rparr> = Inr [vs]"
    by (rule sample_build)
  have "RS_Url (R_Spec route0) \<noteq> RS_Url (R_Spec route1)" by (simp add: sample_defs)
  with build_order_independent [OF golib.ext_lib_axioms vs, of "\<lparr>RL_Items = [route1, route0]\<rparr>"] vs
  show ?thesis by (auto simp: inj_on_def)
qed

text \<open>
  C23. A VirtualService is owned by exactly the routes of its FQDN, one owner reference each and also
  for routes without destinations; it lives in their namespace, and it is attached to the mesh
  gateway when they are internal and to the configured gateways otherwise.
\<close>

theorem build_metadata:
  assumes "ext_lib L" and "VirtualServiceBuilder_Build L b routes = Inr vss" and "vs \<in> set vss"
    and "vs_hosts vs = [f]" and "r \<in> set (RL_Items routes)" and "FQDN r = f"
  shows "mset (OM_OwnerReferences (VS_ObjectMeta vs)) = mset (map (routeToOwnerRef L) (routes_for (RL_Items routes) f)) \<and>
    OM_Namespace (VS_ObjectMeta vs) = OM_Namespace (R_ObjectMeta r) \<and>
    OM_Annotations (VS_ObjectMeta vs) = [''cloudfoundry.org/fqdn'' \<mapsto> f] \<and>
    vs_gateways vs = (if RDom_Internal (RS_Domain (R_Spec r)) then [''mesh''] else IstioGateways b)"
proof -
  let ?rs = "routes_for (RL_Items routes) f"
  from assms(2,3) obtain f' where vs: "fqdnToVirtualService L b f' (routes_for (RL_Items routes) f') = Inr vs"
    by (rule Build_mem)
  then have "f' = f" using assms(4) by (auto simp: fqdnToVirtualService_Inr_iff)
  with vs obtain ess where co: "consistent_routes ?rs" and ne: "?rs \<noteq> []"
    and eq: "vs = assembledVS L b f (hd ?rs) (sortRoutes L ?rs) (concat ess)"
    by (auto simp: fqdnToVirtualService_Inr_iff)
  have "hd ?rs \<in> set ?rs" using ne by (rule hd_in_set)
  moreover have "r \<in> set ?rs" using assms(5,6) by (simp add: set_routes_for)
  ultimately have "vs = assembledVS L b f r (sortRoutes L ?rs) (concat ess)"
    unfolding eq by (rule assembledVS_consistent [OF co])
  then show ?thesis
    by (simp add: gateways_for_def MeshInternalGateway_def ext_lib.mset_sortRoutes [OF assms(1)])
qed

theorem build_metadata_witness:
  "\<exists>vs. VirtualServiceBuilder_Build go_lib sample_builder \<lparr>RL_Items = [route0, route1]\<rparr> = Inr [vs] \<and>
     vs_gateways vs = [''some-gateway0'', ''some-gateway1'']"
proof -
  obtain vs where vs: "VirtualServiceBuilder_Build go_lib sample_builder \<lparr>RL_Items = [route0, route1]\<rparr> = Inr [vs]"
    "vs_hosts vs = [sample_fqdn]" by (rule sample_build)
  with build_metadata [OF golib.ext_lib_axioms vs(1) _ vs(2), of route0] show ?thesis
    by (simp add: sample_gateways)
qed

text \<open>
  C24. A VirtualService's name is a valid Kubernetes resource name whatever the FQDN holds (wildcards,
  any bytes, any length): 67 characters from the lower-case hexadecimal digits and
  \<open>v\<close>, \<open>s\<close>, \<open>-\<close>, starting with a letter; and two FQDNs share a name only when their SHA-256 digests
  collide.
\<close>

theorem VirtualServiceName_valid:
  "length (VirtualServiceName fqdn) = 67 \<and> hd (VirtualServiceName fqdn) = CHR ''v'' \<and>
   set (VirtualServiceName fqdn) \<subseteq> set ''0123456789abcdef'' \<union> set ''vs-'' \<and>
   (VirtualServiceName fqdn = VirtualServiceName fqdn' \<longleftrightarrow>
      Sum256 (bytes_of_string fqdn) = Sum256 (bytes_of_string fqdn'))"
proof -
  have "set (VirtualServiceName fqdn) \<subseteq> set ''0123456789abcdef'' \<union> set ''vs-''"
    using set_hex_bytes [of "Sum256 (bytes_of_string fqdn)"]
    unfolding VirtualServiceName_def hex_digits_def set_append by blast
  moreover have "VirtualServiceName fqdn = VirtualServiceName fqdn' \<longleftrightarrow>
      Sum256 (bytes_of_string fqdn) = Sum256 (bytes_of_string fqdn')"
    using hex_bytes_inj by (auto simp: VirtualServiceName_def)
  ultimately show ?thesis by (simp add: VirtualServiceName_def)
qed

text \<open>
  C28. Routes without destinations: a single one gets an entry that leads to the placeholder host, but
  when several routes share an FQDN and none has destinations the VirtualService is built with no
  HTTP entry at all.
\<close>

theorem no_destinations_entries:
  assumes "ext_lib L" and "fqdnToVirtualService L b f rs = Inr vs"
    and "\<forall>r \<in> set rs. RS_Destinations (R_Spec r) = []"
  shows "vs_http vs =
    (if length rs = 1 then [\<lparr>HR_Match = httpMatch (hd rs), HR_Route = httpRouteDestinationPlaceholder\<rparr>] else [])"
proof -
  from assms(2) obtain ess where ne: "rs \<noteq> []" and http: "vs_http vs = concat ess"
    and ess: "traverse_go (http_entries (length rs)) (sortRoutes L rs) = Inr ess"
    by (auto simp: fqdnToVirtualService_Inr_iff)
  show ?thesis
  proof (cases "length rs = 1")
    case True
    then obtain r where rs: "rs = [r]" by (auto simp: length_Suc_conv)
    then have "sortRoutes L rs = [r]"
      using assms(1) by (simp add: sortRoutes_def ext_lib_def go_sort.sort_singleton)
    with ess http rs assms(3) show ?thesis by (auto simp: http_entries_def)
  next
    case False
    with ne have "length rs > 1" by (cases rs) auto
    then have "http_entries (length rs) r = Inr []" if "r \<in> set (sortRoutes L rs)" for r
      using that assms(3) by (simp add: http_entries_def ext_lib.set_sortRoutes [OF assms(1)])
    then have "ess = map (\<lambda>_. []) (sortRoutes L rs)"
      using ess by (intro traverse_go_Inr_mapD [OF ess]) auto
    with http False show ?thesis by simp
  qed
qed

theorem no_destinations_entries_witness:
  "\<exists>vs. fqdnToVirtualService go_lib sample_builder sample_fqdn [route2, route2] = Inr vs \<and> vs_http vs = []"
proof -
  have "is_ok (fqdnToVirtualService go_lib sample_builder sample_fqdn [route2, route2])"
    by (simp add: golib.fqdnToVirtualService_ok_iff consistent_routes_def) (simp add: sample_defs)
  then obtain vs where vs: "fqdnToVirtualService go_lib sample_builder sample_fqdn [route2, route2] = Inr vs"
    by (auto simp: is_ok_iff)
  with no_destinations_entries [OF golib.ext_lib_axioms vs] show ?thesis by (simp add: sample_defs)
qed


text \<open>
  C25. Every request forwarded to a destination carries headers that name its app, process type, space
  and organisation, and no others: the destination's headers set exactly these four keys, for
  inferred and for stated weights alike.
\<close>

theorem destination_headers:
  assumes "destinationsToHttpRouteDestinations route ds = Inr hs" and "k < length ds"
  shows "\<exists>m. HRD_Headers (hs ! k) = Some \<lparr>H_Request = Some \<lparr>HHO_Set = m\<rparr>\<rparr> \<and>
    dom m = {''CF-App-Id'', ''CF-App-Process-Type'', ''CF-Space-Id'', ''CF-Organization-Id''} \<and>
    m ''CF-App-Id'' = Some (DA_Guid (RD_App (ds ! k))) \<and>
    m ''CF-App-Process-Type'' = Some (AP_Type (DA_Process (RD_App (ds ! k)))) \<and>
    m ''CF-Space-Id'' = Some (label_get (OM_Labels (R_ObjectMeta route)) ''cloudfoundry.org/space_guid'') \<and>
    m ''CF-Organization-Id'' = Some (label_get (OM_Labels (R_ObjectMeta route)) ''cloudfoundry.org/org_guid'')"
proof -
  from assms have "map HRD_Headers hs = map (HRD_Headers \<circ> httpDestination route) ds"
    by (auto simp: destinationsToHttpRouteDestinations_Inr_iff headers_inferWeights_loop)
  then have "map HRD_Headers hs ! k = HRD_Headers (httpDestination route (ds ! k))"
    using assms(2) by simp
  moreover have "length hs = length ds"
    using assms(1) by (auto simp: destinationsToHttpRouteDestinations_Inr_iff)
  ultimately have "HRD_Headers (hs ! k) = HRD_Headers (httpDestination route (ds ! k))"
    using assms(2) by simp
  then show ?thesis by (auto simp: httpDestination_def)
qed

theorem destination_headers_witness:
  "\<exists>m. HRD_Headers (map (httpDestination route1) (RS_Destinations (R_Spec route1)) ! 0) =
       Some \<lparr>H_Request = Some \<lparr>HHO_Set = m\<rparr>\<rparr> \<and> m ''CF-Space-Id'' = Some ''space-guid-0''"
  using destination_headers [OF sample_http(2), of 0] by (auto simp: sample_defs)

text \<open>
  C29. The all-or-none rule and the sum are all that is checked of stated weights. Two destinations
  with weights \<open>100 + w\<close> and \<open>- w\<close> are accepted for every \<open>w\<close>, and for a positive \<open>w\<close> below \<open>2 ^ 31 - 100\<close> the
  VirtualService carries a negative weight and one above 100.
\<close>

theorem negative_weight_accepted:
  assumes "0 < sint w" and "sint w < 2 ^ 31 - 100"
    and "RD_Weight d1 = Some (100 + w)" and "RD_Weight d2 = Some (- w)"
  shows "\<exists>hs. destinationsToHttpRouteDestinations route [d1, d2] = Inr hs \<and>
    sint (HRD_Weight (hs ! 0)) > 100 \<and> sint (HRD_Weight (hs ! 1)) < 0"
proof -
  let ?hs = "map (httpDestination route) [d1, d2]"
  have ok: "destinationsToHttpRouteDestinations route [d1, d2] = Inr ?hs"
    using assms(3,4)
    by (simp add: destinationsToHttpRouteDestinations_Inr_iff valid_weights_def weights_of_def IstioExpectedWeight_def)
  have int32s: "int32 (100 + w) = word_of_int (100 + sint w)" "int32 (- w) = word_of_int (- sint w)"
    using int32_word_of_int [of "100 + sint w"] int32_word_of_int [of "- sint w"] by simp_all
  have "sint (int32 (100 + w)) = 100 + sint w" "sint (int32 (- w)) = - sint w"
    unfolding int32s using assms(1,2) by (simp_all only: signed_of_int) (simp_all add: signed_take_bit_int_eq_self)
  then have "sint (HRD_Weight (?hs ! 0)) = 100 + sint w" "sint (HRD_Weight (?hs ! 1)) = - sint w"
    using assms(3,4) by (simp_all add: httpDestination_def)
  with ok assms(1) show ?thesis by (intro exI [of _ ?hs]) simp
qed

theorem negative_weight_accepted_witness:
  "\<exists>hs. destinationsToHttpRouteDestinations route1
      [sample_dest ''dest-3'' (Some (100 + 100)), sample_dest ''dest-4'' (Some (- 100))] = Inr hs \<and>
    sint (HRD_Weight (hs ! 0)) > 100 \<and> sint (HRD_Weight (hs ! 1)) < 0"
  by (rule negative_weight_accepted [of 100]) (simp_all add: sample_dest_def)

section \<open>Services\<close>

text \<open>
  C26. The Service builder gives each destination its own Service: in the route's namespace, named
  after the destination's GUID with a letter in front, selecting the destination's pods, owned by
  the route alone and listening on its port (unchanged when it is a 31-bit number); two of the
  Services have the same key only when their destinations have the same GUID.
\<close>

theorem service_per_destination:
  assumes "ServiceBuilder_Build L route = Inr svcs"
  defines "ds \<equiv> RS_Destinations (R_Spec route)"
  shows "length svcs = length ds \<and>
    (\<forall>k < length ds. \<exists>port. RD_Port (ds ! k) = Some port \<and>
       service_key (svcs ! k) = \<lparr>NN_Namespace = OM_Namespace (R_ObjectMeta route), NN_Name = ''s-'' @ RD_Guid (ds ! k)\<rparr> \<and>
       OM_OwnerReferences (S_ObjectMeta (svcs ! k)) = [routeToOwnerRef L route] \<and>
       SS_Selector (S_Spec (svcs ! k)) = DS_MatchLabels (RD_Selector (ds ! k)) \<and>
       SS_Ports (S_Spec (svcs ! k)) = [\<lparr>SP_Name = ''http'', SP_Port = int32 port\<rparr>] \<and>
       (0 \<le> sint port \<and> sint port < 2 ^ 31 \<longrightarrow> sint (int32 port) = sint port)) \<and>
    (distinct (map service_key svcs) \<longleftrightarrow> distinct (map RD_Guid ds))"
proof -
  have all: "list_all2 (\<lambda>d s. buildService L route d = Inr s) ds svcs"
    unfolding ds_def by (rule ServiceBuilder_Build_list_all2 [OF assms(1)])
  have "distinct (map service_key svcs) \<longleftrightarrow> distinct (map RD_Guid ds)"
    unfolding ServiceBuilder_Build_keys [OF assms(1)] ds_def
    by (simp add: distinct_map inj_on_def)
  moreover have "\<exists>port. RD_Port (ds ! k) = Some port \<and>
       service_key (svcs ! k) = \<lparr>NN_Namespace = OM_Namespace (R_ObjectMeta route), NN_Name = ''s-'' @ RD_Guid (ds ! k)\<rparr> \<and>
       OM_OwnerReferences (S_ObjectMeta (svcs ! k)) = [routeToOwnerRef L route] \<and>
       SS_Selector (S_Spec (svcs ! k)) = DS_MatchLabels (RD_Selector (ds ! k)) \<and>
       SS_Ports (S_Spec (svcs ! k)) = [\<lparr>SP_Name = ''http'', SP_Port = int32 port\<rparr>] \<and>
       (0 \<le> sint port \<and> sint port < 2 ^ 31 \<longrightarrow> sint (int32 port) = sint port)" if "k < length ds" for k
  proof -
    have "buildService L route (ds ! k) = Inr (svcs ! k)"
      using all that by (simp add: list_all2_conv_all_nth)
    from buildService_InrD [OF this] show ?thesis
      by (auto simp: meta_key_def serviceName_def httpPortName_def intro!: sint_int32)
  qed
  moreover have "length svcs = length ds" using all by (simp add: list_all2_lengthD)
  ultimately show ?thesis by blast
qed

lemma sample_services: "is_ok (ServiceBuilder_Build go_lib route0)"
  by (simp add: ServiceBuilder_Build_ok_iff) (simp add: sample_defs)

theorem service_per_destination_witness:
  "\<exists>svcs. ServiceBuilder_Build go_lib route0 = Inr svcs \<and> length svcs = 3 \<and> distinct (map service_key svcs)"
proof -
  obtain svcs where svcs: "ServiceBuilder_Build go_lib route0 = Inr svcs"
    using sample_services by (auto simp: is_ok_iff)
  have "distinct (map RD_Guid (RS_Destinations (R_Spec route0)))" by (simp add: sample_defs)
  with service_per_destination [OF svcs] svcs sample_dests(1) show ?thesis by simp
qed

text \<open>
  C31. The only way the Service builder fails is the nil dereference of a destination's port, and it
  does so exactly when some destination has none.
\<close>

theorem service_build_fails_iff:
  "ServiceBuilder_Build L route = Inl e \<longleftrightarrow>
     e = nil_dereference \<and> (\<exists>d \<in> set (RS_Destinations (R_Spec route)). RD_Port d = None)"
  using ServiceBuilder_Build_ok_iff [of L route] ServiceBuilder_Build_panics [of L route]
  by (cases "ServiceBuilder_Build L route") auto

section \<open>Mutate functions\<close>

text \<open>
  Applying the Service mutate function to any stored Service succeeds, gives it the desired
  labels, annotations, owners, selector and ports, leaves its identity, finalizers and deletion
  mark alone, and applying it again, also after another desired state, changes nothing more.
\<close>

theorem service_mutate_reconciles:
  "\<exists>a'. ServiceBuilder_BuildMutateFunction d a = Inr a' \<and>
     service_managed a' = service_managed d \<and> service_key a' = service_key a \<and>
     OM_UID (S_ObjectMeta a') = OM_UID (S_ObjectMeta a) \<and>
     OM_Finalizers (S_ObjectMeta a') = OM_Finalizers (S_ObjectMeta a) \<and>
     OM_DeletionTimestamp (S_ObjectMeta a') = OM_DeletionTimestamp (S_ObjectMeta a) \<and>
     ServiceBuilder_BuildMutateFunction d a' = Inr a' \<and>
     ServiceBuilder_BuildMutateFunction e a' = ServiceBuilder_BuildMutateFunction e a"
proof -
  obtain a' where a': "ServiceBuilder_BuildMutateFunction d a = Inr a'"
    using service_resource.mutate_total by blast
  with service_resource.mutate_managed [OF a'] service_resource.mutate_key [OF a']
    service_resource.mutate_identity [OF a'] service_resource.mutate_idempotent [OF a']
    service_resource.mutate_overwrite [OF a', of e]
  show ?thesis by blast
qed

text \<open>
  The same of the VirtualService mutate function, which replaces the whole spec.
\<close>

lemma vs_mutate_reconciles:
  "\<exists>a'. VirtualServiceBuilder_BuildMutateFunction d a = Inr a' \<and>
     vs_managed a' = vs_managed d \<and> VS_Spec a' = VS_Spec d \<and> vs_key a' = vs_key a \<and>
     OM_UID (VS_ObjectMeta a') = OM_UID (VS_ObjectMeta a) \<and>
     OM_Finalizers (VS_ObjectMeta a') = OM_Finalizers (VS_ObjectMeta a) \<and>
     OM_DeletionTimestamp (VS_ObjectMeta a') = OM_DeletionTimestamp (VS_ObjectMeta a) \<and>
     VirtualServiceBuilder_BuildMutateFunction d a' = Inr a' \<and>
     VirtualServiceBuilder_BuildMutateFunction e a' = VirtualServiceBuilder_BuildMutateFunction e a"
proof -
  obtain a' where a': "VirtualServiceBuilder_BuildMutateFunction d a = Inr a'"
    using vs_resource.mutate_total by blast
  with vs_resource.mutate_managed [OF a'] vs_resource.mutate_key [OF a']
    vs_resource.mutate_identity [OF a'] vs_resource.mutate_idempotent [OF a']
    vs_resource.mutate_overwrite [OF a', of e]
  show ?thesis by (auto simp: vs_managed_def)
qed

end
