(* ===== verification/KubeClient.thy ===== *)
theory KubeClient
  imports IstioTypes
begin

text \<open>
  The controller-runtime client and the controllerutil helpers, which live outside the repository:
  a record of the calls the reconciler makes, each a state transformer over a state \<open>'s\<close> of which
  the reconciler sees nothing but the answers. A call may fail with any error and the state may
  change in any way between and during calls (other clients, watches, retries); what a well-behaved
  API server promises is stated as locales in \<open>KubeApi\<close>.
\<close>

record Request =
  Req_NamespacedName :: NamespacedName

text \<open>\<^verbatim>\<open>ctrl.Result\<close>: when to reconcile again, in nanoseconds; \<open>None\<close> is the zero value.\<close>

record Result =
  Res_RequeueAfter :: "go_int option"

definition empty_Result :: Result where
  "empty_Result = \<lparr>Res_RequeueAfter = None\<rparr>"

datatype OperationResult = OperationResultNone | OperationResultCreated | OperationResultUpdated

text \<open>
  \<^verbatim>\<open>client.InNamespace(ns)\<close> with \<^verbatim>\<open>client.MatchingFields{key: value}\<close>; \<^verbatim>\<open>Update\<close> writes the server's
  answer back into the object, so it returns one; \<^verbatim>\<open>CreateOrUpdate\<close> takes the object with its key
  and the mutate function of a builder.
\<close>

record ListOptions =
  LO_InNamespace :: string
  LO_MatchingField :: "string \<times> string"

record 's Client =
  Get_Route :: "NamespacedName \<Rightarrow> ('s, Route) go_action"
  List_Routes :: "ListOptions \<Rightarrow> ('s, Route list) go_action"
  Update_Route :: "Route \<Rightarrow> ('s, Route) go_action"
  List_Services :: "ListOptions \<Rightarrow> ('s, Service list) go_action"
  Delete_Service :: "Service \<Rightarrow> ('s, unit) go_action"
  CreateOrUpdate_Service :: "Service \<Rightarrow> (Service \<Rightarrow> Service go_result) \<Rightarrow> ('s, OperationResult) go_action"
  Get_VirtualService :: "NamespacedName \<Rightarrow> ('s, VirtualService) go_action"
  Delete_VirtualService :: "VirtualService \<Rightarrow> ('s, unit) go_action"
  CreateOrUpdate_VirtualService ::
    "VirtualService \<Rightarrow> (VirtualService \<Rightarrow> VirtualService go_result) \<Rightarrow> ('s, OperationResult) go_action"
  AddFinalizer :: "Route \<Rightarrow> string \<Rightarrow> Route"
  RemoveFinalizer :: "Route \<Rightarrow> string \<Rightarrow> Route"

text \<open>\<^verbatim>\<open>apierrors.IsNotFound\<close> and \<^verbatim>\<open>client.IgnoreNotFound\<close> on what a call returned.\<close>

definition IsNotFound :: "go_fault \<Rightarrow> bool" where
  "IsNotFound e \<longleftrightarrow> e = Err NotFoundError"

definition IgnoreNotFound :: "'a \<Rightarrow> go_fault \<Rightarrow> 'a go_result" where
  "IgnoreNotFound x e = (if IsNotFound e then Inr x else Inl e)"

end
