(* ===== verification/RouteController.thy ===== *)
theory RouteController
  imports KubeClient VirtualServiceBuilder
begin

text \<open>
  \<^verbatim>\<open>routecontroller/controllers/networking/route_controller.go\<close>: the reconciler. Each method is a
  state transformer over the client's state; \<open>if_ok\<close> is the \<^verbatim>\<open>if err != nil { return err }\<close> after a
  call. Log lines are not modelled, and \<^verbatim>\<open>CreateOrUpdate\<close>'s operation result, which only a log line
  reads, is dropped.
\<close>

section \<open>State and constants\<close>

record 's RouteReconciler =
  RR_Client :: "'s Client"
  RR_IstioGateway :: string
  RR_ResyncInterval :: go_int

definition fqdnFieldKey :: string where
  "fqdnFieldKey = ''spec.fqdn''"

definition serviceOwnerKey :: string where
  "serviceOwnerKey = ''spec.owner''"

definition finalizerName :: string where
  "finalizerName = ''routes.networking.cloudfoundry.org''"

section \<open>Helpers\<close>

fun hasFinalizer_loop :: "string list \<Rightarrow> string \<Rightarrow> bool" where
  "hasFinalizer_loop [] name = False"
| "hasFinalizer_loop (f # fs) name = (if f = name then True else hasFinalizer_loop fs name)"

definition hasFinalizer :: "ObjectMeta \<Rightarrow> string \<Rightarrow> bool" where
  "hasFinalizer o' name = hasFinalizer_loop (OM_Finalizers o') name"

text \<open>Index \<open>idx\<close> of the first item of that name is cut out of the slice.\<close>

fun removeRouteFromRouteList_loop :: "Route \<Rightarrow> Route list \<Rightarrow> nat \<Rightarrow> Route list \<Rightarrow> Route list" where
  "removeRouteFromRouteList_loop routeToRemove items idx [] = items"
| "removeRouteFromRouteList_loop routeToRemove items idx (route # rest) =
     (if OM_Name (R_ObjectMeta route) = OM_Name (R_ObjectMeta routeToRemove)
      then take idx items @ drop (idx + 1) items
      else removeRouteFromRouteList_loop routeToRemove items (idx + 1) rest)"

definition removeRouteFromRouteList :: "Route \<Rightarrow> RouteList \<Rightarrow> Route list" where
  "removeRouteFromRouteList routeToRemove routes =
     removeRouteFromRouteList_loop routeToRemove (RL_Items routes) 0 (RL_Items routes)"

text \<open>The two nested loops: \<open>foundInDesired\<close> is set by any desired Service of the same key.\<close>

fun foundInDesired :: "Service \<Rightarrow> bool \<Rightarrow> Service list \<Rightarrow> bool" where
  "foundInDesired existing found [] = found"
| "foundInDesired existing found (desired # ds) =
     foundInDesired existing
       (if OM_Name (S_ObjectMeta desired) = OM_Name (S_ObjectMeta existing) \<and>
           OM_Namespace (S_ObjectMeta desired) = OM_Namespace (S_ObjectMeta existing)
        then True else found) ds"

fun findServicesForDeletion_loop :: "Service list \<Rightarrow> Service list \<Rightarrow> Service list \<Rightarrow> Service list" where
  "findServicesForDeletion_loop servicesToDelete [] desired = servicesToDelete"
| "findServicesForDeletion_loop servicesToDelete (existing # rest) desired =
     findServicesForDeletion_loop
       (if foundInDesired existing False desired then servicesToDelete else servicesToDelete @ [existing])
       rest desired"

definition findServicesForDeletion :: "Service list \<Rightarrow> Service list \<Rightarrow> Service list" where
  "findServicesForDeletion actual desired = findServicesForDeletion_loop [] actual desired"

definition deleteServiceList :: "'s RouteReconciler \<Rightarrow> Service list \<Rightarrow> ('s, unit) go_action" where
  "deleteServiceList r services = foreach_go (Delete_Service (RR_Client r)) services"

section \<open>Reconciling the children\<close>

definition key_only_Service :: "Service \<Rightarrow> Service" where
  "key_only_Service desired = zero_Service\<lparr>S_ObjectMeta := zero_ObjectMeta\<lparr>
     OM_Name := OM_Name (S_ObjectMeta desired), OM_Namespace := OM_Namespace (S_ObjectMeta desired)\<rparr>\<rparr>"

definition key_only_VirtualService :: "VirtualService \<Rightarrow> VirtualService" where
  "key_only_VirtualService desired = zero_VirtualService\<lparr>VS_ObjectMeta := zero_ObjectMeta\<lparr>
     OM_Name := OM_Name (VS_ObjectMeta desired), OM_Namespace := OM_Namespace (VS_ObjectMeta desired)\<rparr>\<rparr>"

definition reconcileService :: "'s RouteReconciler \<Rightarrow> Service \<Rightarrow> ('s, unit) go_action" where
  "reconcileService r desired =
     if_ok (CreateOrUpdate_Service (RR_Client r) (key_only_Service desired)
              (ServiceBuilder_BuildMutateFunction desired))
       (\<lambda>result. go_return ())"

definition reconcileServices ::
    "Lib \<Rightarrow> 's RouteReconciler \<Rightarrow> Request \<Rightarrow> Route \<Rightarrow> ('s, unit) go_action" where
  "reconcileServices L r req route =
     (case ServiceBuilder_Build L route of
        Inl e \<Rightarrow> go_fail e
      | Inr desiredServices \<Rightarrow>
          if_ok (List_Services (RR_Client r)
                   \<lparr>LO_InNamespace = NN_Namespace (Req_NamespacedName req),
                    LO_MatchingField = (serviceOwnerKey, OM_UID (R_ObjectMeta route))\<rparr>)
            (\<lambda>actualServicesForRoute.
               if_ok (foreach_go (reconcileService r) desiredServices)
                 (\<lambda>_. deleteServiceList r (findServicesForDeletion actualServicesForRoute desiredServices))))"

definition reconcileVirtualService :: "'s RouteReconciler \<Rightarrow> VirtualService \<Rightarrow> ('s, unit) go_action" where
  "reconcileVirtualService r desired =
     if_ok (CreateOrUpdate_VirtualService (RR_Client r) (key_only_VirtualService desired)
              (VirtualServiceBuilder_BuildMutateFunction desired))
       (\<lambda>result. go_return ())"

definition reconcileVirtualServices ::
    "Lib \<Rightarrow> 's RouteReconciler \<Rightarrow> Request \<Rightarrow> RouteList \<Rightarrow> ('s, unit) go_action" where
  "reconcileVirtualServices L r req routes =
     (case VirtualServiceBuilder_Build L \<lparr>IstioGateways = [RR_IstioGateway r]\<rparr> routes of
        Inl e \<Rightarrow> go_fail e
      | Inr desiredVirtualServices \<Rightarrow> foreach_go (reconcileVirtualService r) desiredVirtualServices)"

section \<open>Deletion\<close>

text \<open>
  The VirtualService branch when no other route shares the FQDN: a failing \<^verbatim>\<open>Get\<close> is not returned,
  whatever the error; only the log line tells NotFound apart.
\<close>

definition deleteVirtualServiceFor ::
    "'s RouteReconciler \<Rightarrow> Request \<Rightarrow> Route \<Rightarrow> ('s, unit) go_action" where
  "deleteVirtualServiceFor r req route = do {
     res \<leftarrow> Get_VirtualService (RR_Client r)
              \<lparr>NN_Namespace = NN_Namespace (Req_NamespacedName req), NN_Name = VirtualServiceName (FQDN route)\<rparr>;
     (case res of
        Inl (Err e) \<Rightarrow> go_return ()
      | Inl (Panic m) \<Rightarrow> go_fail (Panic m)
      | Inr vs \<Rightarrow> Delete_VirtualService (RR_Client r) vs)
   }"

definition finalizeRouteForDeletion ::
    "Lib \<Rightarrow> 's RouteReconciler \<Rightarrow> Request \<Rightarrow> Route \<Rightarrow> RouteList \<Rightarrow> ('s, unit) go_action" where
  "finalizeRouteForDeletion L r req route routes =
     if_ok (List_Services (RR_Client r)
              \<lparr>LO_InNamespace = NN_Namespace (Req_NamespacedName req),
               LO_MatchingField = (serviceOwnerKey, OM_UID (R_ObjectMeta route))\<rparr>)
       (\<lambda>actualServicesForRoute.
          if_ok (deleteServiceList r actualServicesForRoute) (\<lambda>_.
            let routes = routes\<lparr>RL_Items := removeRouteFromRouteList route routes\<rparr>
            in if_ok (if RL_Items routes = [] then deleteVirtualServiceFor r req route
                      else reconcileVirtualServices L r req routes)
                 (\<lambda>_. if_ok (Update_Route (RR_Client r) (RemoveFinalizer (RR_Client r) route finalizerName))
                        (\<lambda>_. go_return ()))))"

section \<open>Reconcile\<close>

text \<open>
  \<^verbatim>\<open>DeletionTimestamp.IsZero()\<close> is \<open>None\<close>. Adding the finalizer updates the route in place, so the
  steps after it use what the update returned; the list read before it stays as it was.
\<close>

definition ensureFinalizer :: "'s RouteReconciler \<Rightarrow> Route \<Rightarrow> ('s, Route) go_action" where
  "ensureFinalizer r route =
     (if \<not> hasFinalizer (R_ObjectMeta route) finalizerName
      then Update_Route (RR_Client r) (AddFinalizer (RR_Client r) route finalizerName)
      else go_return route)"

definition Reconcile :: "Lib \<Rightarrow> 's RouteReconciler \<Rightarrow> Request \<Rightarrow> ('s, Result) go_action" where
  "Reconcile L r req = do {
     got \<leftarrow> Get_Route (RR_Client r) (Req_NamespacedName req);
     (case got of
        Inl e \<Rightarrow> State_Monad.return (IgnoreNotFound empty_Result e)
      | Inr route \<Rightarrow>
          if_ok (List_Routes (RR_Client r)
                   \<lparr>LO_InNamespace = NN_Namespace (Req_NamespacedName req),
                    LO_MatchingField = (fqdnFieldKey, FQDN route)\<rparr>)
            (\<lambda>items.
               let routes = \<lparr>RL_Items = items\<rparr>
               in if OM_DeletionTimestamp (R_ObjectMeta route) = None
                  then if_ok (ensureFinalizer r route) (\<lambda>route.
                         if_ok (reconcileServices L r req route) (\<lambda>_.
                           if_ok (reconcileVirtualServices L r req routes) (\<lambda>_.
                             go_return \<lparr>Res_RequeueAfter = Some (RR_ResyncInterval r)\<rparr>)))
                  else if_ok (if hasFinalizer (R_ObjectMeta route) finalizerName
                              then finalizeRouteForDeletion L r req route routes
                              else go_return ())
                         (\<lambda>_. go_return empty_Result)))
   }"

section \<open>SetupWithManager\<close>

text \<open>
  The two index functions the manager is given; \<open>index_of\<close> is what the field indexer then knows of
  an object under a key.
\<close>

definition indexRouteByFQDN :: "Route \<Rightarrow> string list" where
  "indexRouteByFQDN route = [FQDN route]"

definition indexServiceByOwner :: "Service \<Rightarrow> string list" where
  "indexServiceByOwner service =
     (case OM_OwnerReferences (S_ObjectMeta service) of [] \<Rightarrow> [] | o' # _ \<Rightarrow> [OR_UID o'])"


section \<open>Lemmas: helpers\<close>

lemma hasFinalizer_iff [simp]: "hasFinalizer m f \<longleftrightarrow> f \<in> set (OM_Finalizers m)"
proof -
  have "hasFinalizer_loop fs f \<longleftrightarrow> f \<in> set fs" for fs
    by (induction fs) auto
  then show ?thesis by (simp add: hasFinalizer_def)
qed

lemma foundInDesired_iff:
  "foundInDesired x found ds \<longleftrightarrow> found \<or> service_key x \<in> service_key ` set ds"
  by (induction x found ds rule: foundInDesired.induct) (auto simp: meta_key_eq_iff image_iff)

lemma findServicesForDeletion_eq:
  "findServicesForDeletion actual desired = filter (\<lambda>x. service_key x \<notin> service_key ` set desired) actual"
proof -
  have "findServicesForDeletion_loop acc actual desired =
      acc @ filter (\<lambda>x. service_key x \<notin> service_key ` set desired) actual" for acc
    by (induction acc actual desired rule: findServicesForDeletion_loop.induct) (auto simp: foundInDesired_iff)
  then show ?thesis by (simp add: findServicesForDeletion_def)
qed

lemma removeRouteFromRouteList_loop_eq:
  assumes "items = before @ rest" and "length before = idx"
  shows "removeRouteFromRouteList_loop r items idx rest =
    before @ takeWhile (\<lambda>x. OM_Name (R_ObjectMeta x) \<noteq> OM_Name (R_ObjectMeta r)) rest
           @ tl (dropWhile (\<lambda>x. OM_Name (R_ObjectMeta x) \<noteq> OM_Name (R_ObjectMeta r)) rest)"
  using assms
proof (induction r items idx rest arbitrary: before rule: removeRouteFromRouteList_loop.induct)
  case (1 r items idx)
  then show ?case by simp
next
  case (2 r items idx x rest)
  show ?case
  proof (cases "OM_Name (R_ObjectMeta x) = OM_Name (R_ObjectMeta r)")
    case True
    with "2.prems" show ?thesis by simp
  next
    case False
    with "2.IH" [of "before @ [x]"] "2.prems" show ?thesis by simp
  qed
qed

lemma removeRouteFromRouteList_eq:
  "removeRouteFromRouteList r routes =
     takeWhile (\<lambda>x. OM_Name (R_ObjectMeta x) \<noteq> OM_Name (R_ObjectMeta r)) (RL_Items routes)
     @ tl (dropWhile (\<lambda>x. OM_Name (R_ObjectMeta x) \<noteq> OM_Name (R_ObjectMeta r)) (RL_Items routes))"
  unfolding removeRouteFromRouteList_def by (subst removeRouteFromRouteList_loop_eq) auto

text \<open>With pairwise different names, which the API guarantees within a namespace, that is a filter.\<close>

lemma remove_first_distinct:
  "distinct (map f xs) \<Longrightarrow>
     takeWhile (\<lambda>x. f x \<noteq> a) xs @ tl (dropWhile (\<lambda>x. f x \<noteq> a) xs) = filter (\<lambda>x. f x \<noteq> a) xs"
proof (induction xs)
  case Nil
  then show ?case by simp
next
  case (Cons x xs)
  show ?case
  proof (cases "f x = a")
    case True
    with Cons.prems have "filter (\<lambda>x. f x \<noteq> a) xs = xs" by (auto simp: filter_id_conv image_iff)
    with True show ?thesis by simp
  next
    case False
    with Cons show ?thesis by simp
  qed
qed

lemma removeRouteFromRouteList_filter:
  "distinct (map (\<lambda>x. OM_Name (R_ObjectMeta x)) (RL_Items routes)) \<Longrightarrow>
     removeRouteFromRouteList r routes =
       filter (\<lambda>x. OM_Name (R_ObjectMeta x) \<noteq> OM_Name (R_ObjectMeta r)) (RL_Items routes)"
  unfolding removeRouteFromRouteList_eq by (rule remove_first_distinct)

lemma key_only_key [simp]:
  "service_key (key_only_Service d) = service_key d" "vs_key (key_only_VirtualService v) = vs_key v"
  by (simp_all add: key_only_Service_def key_only_VirtualService_def zero_Service_def zero_VirtualService_def
      zero_ObjectMeta_def meta_key_def)

text \<open>All the routes of one FQDN make exactly one VirtualService, under the FQDN's key.\<close>

lemma Build_single:
  assumes "VirtualServiceBuilder_Build L b \<lparr>RL_Items = items\<rparr> = Inr vss"
    and "items \<noteq> []" and "\<forall>x \<in> set items. FQDN x = f \<and> OM_Namespace (R_ObjectMeta x) = ns"
  obtains v where "vss = [v]" and "vs_key v = \<lparr>NN_Namespace = ns, NN_Name = VirtualServiceName f\<rparr>"
proof -
  have "FQDN ` set items = {f}" using assms(2,3) by (auto simp: image_iff neq_Nil_conv)
  then have "fqdns_of items = [f]" by (simp add: fqdns_of_def)
  with Build_list_all2 [OF assms(1)] obtain v where v: "vss = [v]"
    and eq: "fqdnToVirtualService L b f (routes_for items f) = Inr v"
    by (auto simp: list_all2_Cons1)
  have "routes_for items f = items" using assms(3) by (simp add: routes_for_def filter_id_conv)
  with eq assms(2,3) have "vs_key v = \<lparr>NN_Namespace = ns, NN_Name = VirtualServiceName f\<rparr>"
    by (auto simp: fqdnToVirtualService_Inr_iff meta_key_def)
  with v that show ?thesis by blast
qed

end
