(* ===== verification/KubeApi.thy ===== *)
theory KubeApi
  imports RouteController
begin

text \<open>
  What the reconciler relies on of the Kubernetes API, as locales over the client record. A state
  has three views, the objects stored under each key; \<open>child_api\<close> states what a successful
  create-or-update and a successful delete do to one kind of child object, \<open>kube_api\<close> joins the two
  kinds with the Route calls. Any call may fail; the laws say what a successful call did, and that no
  call touches another kind of object or does anything but its own effect; a call that reports an
  error (a timeout) may have taken effect. They describe a run during which no other client writes
  and reads are current: the manager's client reads from a cache, which has caught up. Children carry
  no finalizers of their own, so deleting one removes it. \<open>live_kube_api\<close> adds that calls on existing
  objects succeed.

  The client's proofs about lists of children, once for Services and once for VirtualServices, are
  lemmas of \<open>child_api\<close>.
\<close>

section \<open>One kind of child object\<close>

locale child_api = managed_resource meta managed mutate
  for meta :: "'r \<Rightarrow> ObjectMeta" and managed :: "'r \<Rightarrow> 'm" and mutate :: "'r \<Rightarrow> 'r \<Rightarrow> 'r go_result" +
  fixes store :: "'s \<Rightarrow> NamespacedName \<Rightarrow> 'r option"
    and others :: "'s \<Rightarrow> 'o"
    and create_or_update :: "'r \<Rightarrow> ('r \<Rightarrow> 'r go_result) \<Rightarrow> ('s, OperationResult) go_action"
    and delete :: "'r \<Rightarrow> ('s, unit) go_action"
    and key_only :: "'r \<Rightarrow> 'r"
  assumes store_key: "store s k = Some x \<Longrightarrow> meta_key (meta x) = k"
    and key_only_key: "meta_key (meta (key_only d)) = meta_key (meta d)"
    and create_or_update_ok: "run_state (create_or_update obj f) s = (Inr res, t) \<Longrightarrow>
      \<exists>x x'. f (case store s (meta_key (meta obj)) of None \<Rightarrow> obj | Some y \<Rightarrow> y) = Inr x \<and>
             managed x' = managed x \<and>
             store t = (store s)(meta_key (meta obj) \<mapsto> x')"
    and create_or_update_effect: "run_state (create_or_update obj f) s = (r, t) \<Longrightarrow>
      store t = store s \<or>
      (\<exists>x x'. f (case store s (meta_key (meta obj)) of None \<Rightarrow> obj | Some y \<Rightarrow> y) = Inr x \<and>
              managed x' = managed x \<and> store t = (store s)(meta_key (meta obj) \<mapsto> x'))"
    and create_or_update_others: "run_state (create_or_update obj f) s = (r, t) \<Longrightarrow> others t = others s"
    and create_or_update_noop: "run_state (create_or_update obj f) s = (Inr res, t) \<Longrightarrow>
      store s (meta_key (meta obj)) = Some y \<Longrightarrow> f y = Inr y \<Longrightarrow> store t = store s"
    and delete_key: "run_state (delete x) s = (Inr (), t) \<Longrightarrow> store t = (store s)(meta_key (meta x) := None)"
    and delete_effect: "run_state (delete x) s = (outcome, t) \<Longrightarrow>
      store t = store s \<or> store t = (store s)(meta_key (meta x) := None)"
    and delete_others: "run_state (delete x) s = (outcome, t) \<Longrightarrow> others t = others s"
begin

lemma delete_ok:
  "run_state (delete x) s = (Inr (), t) \<Longrightarrow> store t = (store s)(meta_key (meta x) := None) \<and> others t = others s"
  using delete_key delete_others by blast

abbreviation key :: "'r \<Rightarrow> NamespacedName" where
  "key x \<equiv> meta_key (meta x)"

abbreviation apply_desired :: "'r \<Rightarrow> ('s, unit) go_action" where
  "apply_desired d \<equiv> if_ok (create_or_update (key_only d) (mutate d)) (\<lambda>_. go_return ())"

lemma apply_desired_others: "keeps others (apply_desired d)"
  by (rule keeps_if_ok) (auto simp: keeps_def create_or_update_others)

lemma apply_desired_ok:
  assumes "run_state (apply_desired d) s = (Inr (), t)"
  obtains x where "store t = (store s)(key d \<mapsto> x)" and "managed x = managed d" and "others t = others s"
proof -
  from assms obtain res u where "run_state (create_or_update (key_only d) (mutate d)) s = (Inr res, u)"
    and "u = t" by (auto elim!: run_if_ok_InrE)
  with create_or_update_ok obtain x x' y where "mutate d y = Inr x" and "managed x' = managed x"
    and "store t = (store s)(key d \<mapsto> x')"
    by (metis key_only_key)
  moreover have "others t = others s" using keepsD [OF apply_desired_others assms] .
  ultimately show ?thesis using that by (metis mutate_managed)
qed

text \<open>
  Whatever the outcome, a step of the two loops has its effect or none: objects allowed by \<open>Q\<close> stay
  allowed when the desired ones are.
\<close>

lemma apply_desired_allowed:
  assumes "\<And>x. managed x = managed d \<Longrightarrow> Q (key d) x"
  defines "allowed \<equiv> \<lambda>s. \<forall>k x. store s k = Some x \<longrightarrow> Q k x"
  shows "triple allowed (apply_desired d) (\<lambda>_. allowed) allowed"
proof -
  have step: "allowed t" if "allowed s" and "run_state (create_or_update (key_only d) (mutate d)) s = (r, t)" for s r t
    using create_or_update_effect [OF that(2)] that(1) assms(1)
    by (auto simp: allowed_def key_only_key dest!: mutate_managed split: if_splits)
  have "triple allowed (create_or_update (key_only d) (mutate d)) (\<lambda>_. allowed) allowed"
    by (rule tripleI) (auto dest: step)
  then show ?thesis by (rule triple_if_ok) (rule triple_return)
qed

lemma delete_allowed:
  "triple (\<lambda>s. \<forall>k x. store s k = Some x \<longrightarrow> Q k x) (delete y)
     (\<lambda>_ s. \<forall>k x. store s k = Some x \<longrightarrow> Q k x) (\<lambda>s. \<forall>k x. store s k = Some x \<longrightarrow> Q k x)"
proof -
  have "\<forall>k x. store t k = Some x \<longrightarrow> Q k x"
    if "\<forall>k x. store s k = Some x \<longrightarrow> Q k x" and "run_state (delete y) s = (r, t)" for s r t
    using delete_effect [OF that(2)] that(1) by (auto split: if_splits)
  then show ?thesis by (intro tripleI) blast+
qed

text \<open>
  The loop over the desired objects leaves under each key what the last of them asks for, and no
  other object changed.
\<close>

lemma apply_all_ok:
  assumes "run_state (foreach_go apply_desired ds) s = (Inr (), t)"
  shows "others t = others s"
    and "\<And>k. k \<notin> key ` set ds \<Longrightarrow> store t k = store s k"
    and "\<And>d. last_of key ds d \<Longrightarrow> \<exists>x. store t (key d) = Some x \<and> managed x = managed d"
proof -
  define I where "I seen u \<longleftrightarrow> others u = others s \<and> (\<forall>k. k \<notin> key ` set seen \<longrightarrow> store u k = store s k) \<and>
      (\<forall>d. last_of key seen d \<longrightarrow> (\<exists>x. store u (key d) = Some x \<and> managed x = managed d))" for seen u
  have "I ds t"
  proof (rule foreach_go_inv [OF assms(1), where I = I])
    show "I [] s" by (simp add: I_def)
  next
    fix ys y zs u v
    assume I: "I ys u" and run: "run_state (apply_desired y) u = (Inr (), v)"
    from run obtain x where x: "store v = (store u)(key y \<mapsto> x)" "managed x = managed y" "others v = others u"
      by (rule apply_desired_ok)
    with I show "I (ys @ [y]) v" unfolding I_def by (auto simp: last_of_snoc)
  qed simp
  then show "others t = others s"
    and "\<And>k. k \<notin> key ` set ds \<Longrightarrow> store t k = store s k"
    and "\<And>d. last_of key ds d \<Longrightarrow> \<exists>x. store t (key d) = Some x \<and> managed x = managed d"
    unfolding I_def by blast+
qed

lemma apply_all_others: "run_state (foreach_go apply_desired ds) s = (Inr (), t) \<Longrightarrow> others t = others s"
  by (rule keepsD [OF keeps_foreach_go [OF apply_desired_others]])

text \<open>Applying a desired object that is already in place changes nothing.\<close>

lemma apply_all_noop:
  assumes "run_state (foreach_go apply_desired ds) s = (Inr (), t)"
    and "\<forall>d \<in> set ds. \<exists>x. store s (key d) = Some x \<and> managed x = managed d"
  shows "store t = store s \<and> others t = others s"
proof (rule foreach_go_inv [OF assms(1), where I = "\<lambda>_ u. store u = store s \<and> others u = others s"])
  fix ys y zs u v
  assume split: "ds = ys @ y # zs" and I: "store u = store s \<and> others u = others s"
    and run: "run_state (apply_desired y) u = (Inr (), v)"
  from assms(2) split obtain x where x: "store s (key y) = Some x" "managed x = managed y" by auto
  then have "mutate y x = Inr x" by (simp add: mutate_noop)
  moreover from run obtain res where "run_state (create_or_update (key_only y) (mutate y)) u = (Inr res, v)"
    by (auto elim!: run_if_ok_InrE)
  ultimately have "store v = store u"
    using x(1) I key_only_key by (metis create_or_update_noop)
  moreover have "others v = others u" by (rule apply_desired_ok [OF run])
  ultimately show "store v = store s \<and> others v = others s" using I by simp
qed simp_all

text \<open>The deletion loop removes exactly the keys of its list.\<close>

lemma delete_all_ok:
  assumes "run_state (foreach_go delete xs) s = (Inr (), t)"
  shows "store t = (\<lambda>k. if k \<in> key ` set xs then None else store s k) \<and> others t = others s"
proof (rule foreach_go_inv [OF assms, where I = "\<lambda>seen u.
    store u = (\<lambda>k. if k \<in> key ` set seen then None else store s k) \<and> others u = others s"])
  fix ys y zs u v
  assume "store u = (\<lambda>k. if k \<in> key ` set ys then None else store s k) \<and> others u = others s"
    and "run_state (delete y) u = (Inr (), v)"
  then show "store v = (\<lambda>k. if k \<in> key ` set (ys @ [y]) then None else store s k) \<and> others v = others s"
    using delete_ok [of y u v] by (auto simp: fun_eq_iff)
qed simp_all

end

text \<open>Liveness: with a total mutate function that keeps the key create-or-update succeeds, and so does deleting what is stored.\<close>

locale live_child_api = child_api +
  assumes create_or_update_live: "\<forall>x. \<exists>x'. f x = Inr x' \<and> meta_key (meta x') = meta_key (meta x) \<Longrightarrow> \<exists>res t. run_state (create_or_update obj f) s = (Inr res, t)"
    and delete_live: "store s (meta_key (meta x)) \<noteq> None \<Longrightarrow> \<exists>t. run_state (delete x) s = (Inr (), t)"
begin

lemma apply_all_live: "\<exists>t. run_state (foreach_go apply_desired ds) s = (Inr (), t)"
proof (induction ds arbitrary: s)
  case Nil
  then show ?case by simp
next
  case (Cons d ds)
  have "\<exists>res u. run_state (create_or_update (key_only d) (mutate d)) s = (Inr res, u)"
    by (rule create_or_update_live) (use mutate_total mutate_key in blast)
  then obtain res u where "run_state (create_or_update (key_only d) (mutate d)) s = (Inr res, u)" by blast
  then have "run_state (apply_desired d) s = (Inr (), u)" by simp
  with Cons.IH [of u] show ?case by simp
qed

lemma delete_all_live:
  assumes "\<forall>x \<in> set xs. store s (key x) \<noteq> None" and "distinct (map key xs)"
  shows "\<exists>t. run_state (foreach_go delete xs) s = (Inr (), t)"
  using assms
proof (induction xs arbitrary: s)
  case Nil
  then show ?case by simp
next
  case (Cons x xs)
  from Cons.prems(1) obtain u where u: "run_state (delete x) s = (Inr (), u)"
    using delete_live by fastforce
  then have "store u = (store s)(key x := None)" using delete_ok by blast
  with Cons.prems have "\<forall>y \<in> set xs. store u (key y) \<noteq> None" by (auto simp: image_iff)
  with Cons.IH [of u] Cons.prems(2) u show ?case by auto
qed

end


section \<open>The whole API\<close>

text \<open>
  An update is based on the stored version of the object (its resource version is the stored one)
  when the two differ in nothing but what the controller changes, the finalizers.
\<close>

definition based_on :: "Route \<Rightarrow> Route \<Rightarrow> bool" where
  "based_on q r \<longleftrightarrow> R_Spec r = R_Spec q \<and>
     R_ObjectMeta r = (R_ObjectMeta q)\<lparr>OM_Finalizers := OM_Finalizers (R_ObjectMeta r)\<rparr>"

locale kube_api =
  svc: child_api S_ObjectMeta service_managed ServiceBuilder_BuildMutateFunction
    services "\<lambda>s. (routes s, vss s)" "CreateOrUpdate_Service C" "Delete_Service C" key_only_Service +
  vs: child_api VS_ObjectMeta vs_managed VirtualServiceBuilder_BuildMutateFunction
    vss "\<lambda>s. (routes s, services s)" "CreateOrUpdate_VirtualService C" "Delete_VirtualService C" key_only_VirtualService
  for C :: "'s Client"
    and routes :: "'s \<Rightarrow> NamespacedName \<Rightarrow> Route option"
    and services :: "'s \<Rightarrow> NamespacedName \<Rightarrow> Service option"
    and vss :: "'s \<Rightarrow> NamespacedName \<Rightarrow> VirtualService option" +
  assumes route_store_key: "routes s k = Some r \<Longrightarrow> route_key r = k"
    and get_route_ok: "run_state (Get_Route C k) s = (Inr r, t) \<Longrightarrow>
      routes s k = Some r \<and> routes t = routes s \<and> services t = services s \<and> vss t = vss s"
    and get_route_fails: "run_state (Get_Route C k) s = (Inl e, t) \<Longrightarrow>
      (e = Err NotFoundError \<longrightarrow> routes s k = None) \<and> routes t = routes s \<and> services t = services s \<and> vss t = vss s"
    and list_routes_ok:
      "run_state (List_Routes C \<lparr>LO_InNamespace = ns, LO_MatchingField = (fqdnFieldKey, fqdn)\<rparr>) s = (Inr rs, t) \<Longrightarrow>
       distinct (map route_key rs) \<and>
       set rs = {r. \<exists>k. routes s k = Some r \<and> NN_Namespace k = ns \<and> fqdn \<in> set (indexRouteByFQDN r)}"
    and list_routes_frame: "run_state (List_Routes C opts) s = (res, t) \<Longrightarrow>
      routes t = routes s \<and> services t = services s \<and> vss t = vss s"
    and list_services_ok:
      "run_state (List_Services C \<lparr>LO_InNamespace = ns, LO_MatchingField = (serviceOwnerKey, uid)\<rparr>) s = (Inr xs, t) \<Longrightarrow>
       distinct (map service_key xs) \<and>
       set xs = {x. \<exists>k. services s k = Some x \<and> NN_Namespace k = ns \<and> uid \<in> set (indexServiceByOwner x)}"
    and list_services_frame: "run_state (List_Services C opts) s = (res', t) \<Longrightarrow>
      routes t = routes s \<and> services t = services s \<and> vss t = vss s"
    and get_vs_ok: "run_state (Get_VirtualService C k) s = (Inr v, t) \<Longrightarrow>
      vss s k = Some v \<and> routes t = routes s \<and> services t = services s \<and> vss t = vss s"
    and get_vs_fails: "run_state (Get_VirtualService C k) s = (Inl e, t) \<Longrightarrow>
      (e = Err NotFoundError \<longrightarrow> vss s k = None) \<and> routes t = routes s \<and> services t = services s \<and> vss t = vss s"
    and update_route_ok: "run_state (Update_Route C r) s = (Inr r', t) \<Longrightarrow>
      R_ObjectMeta r' = R_ObjectMeta r \<and> R_Spec r' = R_Spec r \<and>
      routes t = (routes s)(route_key r :=
        (if OM_DeletionTimestamp (R_ObjectMeta r) \<noteq> None \<and> OM_Finalizers (R_ObjectMeta r) = [] then None else Some r')) \<and>
      services t = services s \<and> vss t = vss s"
    and update_route_stored: "run_state (Update_Route C r) s = (Inr r', t) \<Longrightarrow>
      \<exists>q. routes s (route_key r) = Some q \<and> OM_UID (R_ObjectMeta q) = OM_UID (R_ObjectMeta r)"
    and update_route_fails: "run_state (Update_Route C r) s = (Inl e, t) \<Longrightarrow>
      services t = services s \<and> vss t = vss s \<and>
      (routes t = routes s \<or>
       (\<exists>q r'. routes s (route_key r) = Some q \<and> OM_UID (R_ObjectMeta q) = OM_UID (R_ObjectMeta r) \<and>
          R_ObjectMeta r' = R_ObjectMeta r \<and> R_Spec r' = R_Spec r \<and>
          routes t = (routes s)(route_key r :=
            (if OM_DeletionTimestamp (R_ObjectMeta r) \<noteq> None \<and> OM_Finalizers (R_ObjectMeta r) = [] then None else Some r'))))"
    and add_finalizer: "\<exists>fs. AddFinalizer C r f = r\<lparr>R_ObjectMeta := (R_ObjectMeta r)\<lparr>OM_Finalizers := fs\<rparr>\<rparr> \<and>
      set fs = insert f (set (OM_Finalizers (R_ObjectMeta r)))"
    and remove_finalizer: "\<exists>fs. RemoveFinalizer C r f = r\<lparr>R_ObjectMeta := (R_ObjectMeta r)\<lparr>OM_Finalizers := fs\<rparr>\<rparr> \<and>
      set fs = set (OM_Finalizers (R_ObjectMeta r)) - {f}"

locale live_kube_api = kube_api +
  svc_live: live_child_api S_ObjectMeta service_managed ServiceBuilder_BuildMutateFunction
    services "\<lambda>s. (routes s, vss s)" "CreateOrUpdate_Service C" "Delete_Service C" key_only_Service +
  vs_live: live_child_api VS_ObjectMeta vs_managed VirtualServiceBuilder_BuildMutateFunction
    vss "\<lambda>s. (routes s, services s)" "CreateOrUpdate_VirtualService C" "Delete_VirtualService C" key_only_VirtualService +
  assumes get_route_live: "\<exists>t. run_state (Get_Route C k) s = (case routes s k of None \<Rightarrow> Inl (Err NotFoundError) | Some r \<Rightarrow> Inr r, t)"
    and list_routes_live: "\<exists>rs t. run_state (List_Routes C opts) s = (Inr rs, t)"
    and list_services_live: "\<exists>xs t. run_state (List_Services C opts) s = (Inr xs, t)"
    and get_vs_live: "\<exists>t. run_state (Get_VirtualService C k) s = (case vss s k of None \<Rightarrow> Inl (Err NotFoundError) | Some v \<Rightarrow> Inr v, t)"
    and update_route_live: "routes s (route_key r) = Some q \<Longrightarrow> based_on q r \<Longrightarrow> \<exists>r' t. run_state (Update_Route C r) s = (Inr r', t)"

end
