(* ===== verification/ReconcileCorrect.thy ===== *)
theory ReconcileCorrect
  imports KubeApi
begin

text \<open>
  The reconciler against the API's laws: what the state looks like after each of its steps succeeds,
  in the locale \<open>kube_api\<close>, and that the steps do succeed, in \<open>live_kube_api\<close>. The abstract
  specification is in terms of the three views: which children are in place, which Services a route
  owns, which routes share an FQDN.
\<close>

section \<open>Specification\<close>

definition owned_services :: "(NamespacedName \<Rightarrow> Service option) \<Rightarrow> string \<Rightarrow> string \<Rightarrow> NamespacedName set" where
  "owned_services sv ns uid =
     {k. \<exists>x. sv k = Some x \<and> NN_Namespace k = ns \<and> uid \<in> set (indexServiceByOwner x)}"

definition services_in_place :: "(NamespacedName \<Rightarrow> Service option) \<Rightarrow> Service list \<Rightarrow> bool" where
  "services_in_place sv desired \<longleftrightarrow>
     (\<forall>d \<in> set desired. \<exists>x. sv (service_key d) = Some x \<and> service_managed x = service_managed d)"

text \<open>When several desired Services share a key (their destinations share a GUID), the last one prevails.\<close>

definition services_applied :: "(NamespacedName \<Rightarrow> Service option) \<Rightarrow> Service list \<Rightarrow> bool" where
  "services_applied sv desired \<longleftrightarrow>
     (\<forall>d. last_of service_key desired d \<longrightarrow> (\<exists>x. sv (service_key d) = Some x \<and> service_managed x = service_managed d))"

definition vss_in_place :: "(NamespacedName \<Rightarrow> VirtualService option) \<Rightarrow> VirtualService list \<Rightarrow> bool" where
  "vss_in_place vv desired \<longleftrightarrow>
     (\<forall>d \<in> set desired. \<exists>x. vv (vs_key d) = Some x \<and> vs_managed x = vs_managed d)"

definition routes_sharing :: "(NamespacedName \<Rightarrow> Route option) \<Rightarrow> string \<Rightarrow> string \<Rightarrow> Route set" where
  "routes_sharing rv ns fqdn = {x. \<exists>k. rv k = Some x \<and> NN_Namespace k = ns \<and> FQDN x = fqdn}"

definition vs_key_of :: "string \<Rightarrow> string \<Rightarrow> NamespacedName" where
  "vs_key_of ns fqdn = \<lparr>NN_Namespace = ns, NN_Name = VirtualServiceName fqdn\<rparr>"

text \<open>A route after its finalizer was removed: gone when that was its last finalizer.\<close>

definition route_finalized :: "Route \<Rightarrow> Route option \<Rightarrow> bool" where
  "route_finalized route after \<longleftrightarrow>
     (case after of
        None \<Rightarrow> set (OM_Finalizers (R_ObjectMeta route)) \<subseteq> {finalizerName}
      | Some x \<Rightarrow> R_Spec x = R_Spec route \<and>
          set (OM_Finalizers (R_ObjectMeta x)) = set (OM_Finalizers (R_ObjectMeta route)) - {finalizerName} \<and>
          \<not> set (OM_Finalizers (R_ObjectMeta route)) \<subseteq> {finalizerName})"

text \<open>
  The steady state of a route: its finalizer is set, its Services are exactly the desired ones, and
  the VirtualService of its FQDN is the one its routes ask for.
\<close>

definition steady ::
    "Lib \<Rightarrow> string \<Rightarrow> (NamespacedName \<Rightarrow> Route option) \<Rightarrow> (NamespacedName \<Rightarrow> Service option) \<Rightarrow>
     (NamespacedName \<Rightarrow> VirtualService option) \<Rightarrow> NamespacedName \<Rightarrow> bool" where
  "steady L gateway rv sv vv k \<longleftrightarrow>
     (\<exists>route ds items v x.
        rv k = Some route \<and> OM_DeletionTimestamp (R_ObjectMeta route) = None \<and>
        finalizerName \<in> set (OM_Finalizers (R_ObjectMeta route)) \<and>
        ServiceBuilder_Build L route = Inr ds \<and> services_in_place sv ds \<and>
        owned_services sv (NN_Namespace k) (OM_UID (R_ObjectMeta route)) = service_key ` set ds \<and>
        set items = routes_sharing rv (NN_Namespace k) (FQDN route) \<and> distinct (map route_key items) \<and>
        VirtualServiceBuilder_Build L \<lparr>IstioGateways = [gateway]\<rparr> \<lparr>RL_Items = items\<rparr> = Inr [v] \<and>
        vv (vs_key_of (NN_Namespace k) (FQDN route)) = Some x \<and> vs_managed x = vs_managed v)"

lemma in_place_applied: "services_in_place sv ds \<Longrightarrow> services_applied sv ds"
  by (auto simp: services_in_place_def services_applied_def dest: last_of_mem)

lemma applied_in_place:
  assumes "services_applied sv ds" and "ServiceBuilder_Build L route = Inr ds"
    and "distinct (map RD_Guid (RS_Destinations (R_Spec route)))"
  shows "services_in_place sv ds"
proof -
  have "distinct (map service_key ds)"
    unfolding ServiceBuilder_Build_keys [OF assms(2)] using assms(3) by (auto simp: distinct_map inj_on_def)
  with assms(1) show ?thesis by (simp add: services_in_place_def services_applied_def last_of_distinct)
qed

lemma applied_exists:
  assumes "services_applied sv ds" and "k \<in> service_key ` set ds"
  shows "sv k \<noteq> None"
proof -
  from last_of_exists [OF assms(2)] obtain d where "last_of service_key ds d" "service_key d = k" by blast
  with assms(1) show ?thesis unfolding services_applied_def by auto
qed

section \<open>Steps that succeed\<close>

context kube_api
begin

lemma list_routes_sharing:
  assumes "run_state (List_Routes C \<lparr>LO_InNamespace = ns, LO_MatchingField = (fqdnFieldKey, fqdn)\<rparr>) s = (Inr rs, t)"
  shows "set rs = routes_sharing (routes s) ns fqdn" and "distinct (map route_key rs)"
    and "routes t = routes s" "services t = services s" "vss t = vss s"
  using list_routes_ok [OF assms] list_routes_frame [OF assms] by (auto simp: routes_sharing_def indexRouteByFQDN_def)

lemma routes_sharing_namespace:
  "x \<in> routes_sharing (routes s) ns fqdn \<Longrightarrow> OM_Namespace (R_ObjectMeta x) = ns \<and> FQDN x = fqdn"
  using route_store_key by (fastforce simp: routes_sharing_def meta_key_def)

lemma list_services_owned:
  assumes "run_state (List_Services C \<lparr>LO_InNamespace = ns, LO_MatchingField = (serviceOwnerKey, uid)\<rparr>) s = (Inr xs, t)"
  shows "service_key ` set xs = owned_services (services s) ns uid" and "distinct (map service_key xs)"
    and "routes t = routes s" "services t = services s" "vss t = vss s"
    and "\<forall>x \<in> set xs. services s (service_key x) = Some x"
proof -
  note l = list_services_ok [OF assms] list_services_frame [OF assms]
  then show "distinct (map service_key xs)" "routes t = routes s" "services t = services s" "vss t = vss s"
    by simp_all
  from l have set_xs: "set xs = {x. \<exists>k. services s k = Some x \<and> NN_Namespace k = ns \<and> uid \<in> set (indexServiceByOwner x)}"
    by simp
  show "\<forall>x \<in> set xs. services s (service_key x) = Some x"
    unfolding set_xs using svc.store_key by blast
  show "service_key ` set xs = owned_services (services s) ns uid"
    unfolding set_xs owned_services_def using svc.store_key by (fastforce simp: image_iff)
qed

lemma reconcileServices_ok:
  assumes "run_state (reconcileServices L r req route) s = (Inr (), t)" and "RR_Client r = C"
    and "ServiceBuilder_Build L route = Inr ds"
  shows "routes t = routes s" and "vss t = vss s" and "services_applied (services t) ds"
    and "\<And>k. k \<notin> service_key ` set ds \<Longrightarrow> services t k =
      (if k \<in> owned_services (services s) (NN_Namespace (Req_NamespacedName req)) (OM_UID (R_ObjectMeta route))
       then None else services s k)"
proof -
  let ?opts = "\<lparr>LO_InNamespace = NN_Namespace (Req_NamespacedName req),
    LO_MatchingField = (serviceOwnerKey, OM_UID (R_ObjectMeta route))\<rparr>"
  from assms(1-3) obtain xs s1 s2 where
    l: "run_state (List_Services C ?opts) s = (Inr xs, s1)" and
    a: "run_state (foreach_go svc.apply_desired ds) s1 = (Inr (), s2)" and
    d: "run_state (foreach_go (Delete_Service C) (findServicesForDeletion xs ds)) s2 = (Inr (), t)"
    by (auto simp: reconcileServices_def reconcileService_def [abs_def] deleteServiceList_def
        elim!: run_if_ok_InrE)
  note L = list_services_owned [OF l]
  note A = svc.apply_all_ok [OF a]
  note D = svc.delete_all_ok [OF d]
  from A(1) D L show "routes t = routes s" "vss t = vss s" by auto
  have del: "service_key ` set (findServicesForDeletion xs ds) =
      owned_services (services s) (NN_Namespace (Req_NamespacedName req)) (OM_UID (R_ObjectMeta route))
      - service_key ` set ds"
    unfolding L(1) [symmetric] by (auto simp: findServicesForDeletion_eq)
  have sv: "services t k = (if k \<in> service_key ` set (findServicesForDeletion xs ds) then None else services s2 k)" for k
    using D by simp
  show "services_applied (services t) ds"
    unfolding services_applied_def using A(3) sv del by (auto dest: last_of_mem)
  show "services t k = (if k \<in> owned_services (services s) (NN_Namespace (Req_NamespacedName req))
      (OM_UID (R_ObjectMeta route)) then None else services s k)" if "k \<notin> service_key ` set ds" for k
    using that A(2) [OF that] sv [of k] del L(4) by simp
qed

lemma reconcileVirtualServices_ok:
  assumes "run_state (reconcileVirtualServices L r req rl) s = (Inr (), t)" and "RR_Client r = C"
  obtains vs where "VirtualServiceBuilder_Build L \<lparr>IstioGateways = [RR_IstioGateway r]\<rparr> rl = Inr vs"
    and "run_state (foreach_go vs.apply_desired vs) s = (Inr (), t)"
  using assms by (auto simp: reconcileVirtualServices_def reconcileVirtualService_def [abs_def] split: sum.splits)


text \<open>Adding the finalizer: the stored route is the one the later steps use, with its spec unchanged.\<close>

lemma ensureFinalizer_ok:
  assumes "run_state (ensureFinalizer r route) s = (Inr route', t)" and "RR_Client r = C"
    and "routes s k = Some route" and "OM_DeletionTimestamp (R_ObjectMeta route) = None"
  obtains fs where "R_ObjectMeta route' = (R_ObjectMeta route)\<lparr>OM_Finalizers := fs\<rparr>"
    and "set fs = insert finalizerName (set (OM_Finalizers (R_ObjectMeta route)))"
    and "R_Spec route' = R_Spec route"
    and "routes t = (routes s)(k \<mapsto> route')" and "services t = services s" and "vss t = vss s"
    and "finalizerName \<in> set (OM_Finalizers (R_ObjectMeta route)) \<longrightarrow> route' = route"
proof (cases "finalizerName \<in> set (OM_Finalizers (R_ObjectMeta route))")
  case True
  with assms have "route' = route" "t = s" by (auto simp: ensureFinalizer_def)
  with True assms(3) that [of "OM_Finalizers (R_ObjectMeta route)"] show ?thesis
    by (auto simp: insert_absorb map_upd_triv)
next
  case False
  let ?added = "AddFinalizer C route finalizerName"
  from False assms(1,2) have u: "run_state (Update_Route C ?added) s = (Inr route', t)"
    by (simp add: ensureFinalizer_def)
  from add_finalizer obtain fs where fs: "?added = route\<lparr>R_ObjectMeta := (R_ObjectMeta route)\<lparr>OM_Finalizers := fs\<rparr>\<rparr>"
    and set_fs: "set fs = insert finalizerName (set (OM_Finalizers (R_ObjectMeta route)))" by blast
  have "route_key ?added = k" using route_store_key [OF assms(3)] by (simp add: fs meta_key_def)
  with update_route_ok [OF u] fs set_fs assms(4) False that [of fs] show ?thesis by (auto simp: meta_key_def)
qed

text \<open>What a successful run went through, by the state of the route.\<close>

lemma Reconcile_cases:
  assumes "run_state (Reconcile L r req) s = (Inr res, t)" and "RR_Client r = C"
    and k: "k = Req_NamespacedName req"
  obtains
    (absent) "routes s k = None" "res = empty_Result" "routes t = routes s" "services t = services s" "vss t = vss s"
  | (present) route items s2 where "routes s k = Some route"
      and "OM_DeletionTimestamp (R_ObjectMeta route) = None"
      and "set items = routes_sharing (routes s) (NN_Namespace k) (FQDN route)" and "distinct (map route_key items)"
      and "routes s2 = routes s" "services s2 = services s" "vss s2 = vss s"
      and "run_state (if_ok (ensureFinalizer r route) (\<lambda>route. if_ok (reconcileServices L r req route)
             (\<lambda>_. reconcileVirtualServices L r req \<lparr>RL_Items = items\<rparr>))) s2 = (Inr (), t)"
      and "res = \<lparr>Res_RequeueAfter = Some (RR_ResyncInterval r)\<rparr>"
  | (deleted) route items s2 where "routes s k = Some route"
      and "OM_DeletionTimestamp (R_ObjectMeta route) \<noteq> None"
      and "set items = routes_sharing (routes s) (NN_Namespace k) (FQDN route)" and "distinct (map route_key items)"
      and "routes s2 = routes s" "services s2 = services s" "vss s2 = vss s"
      and "run_state (if hasFinalizer (R_ObjectMeta route) finalizerName
             then finalizeRouteForDeletion L r req route \<lparr>RL_Items = items\<rparr> else go_return ()) s2 = (Inr (), t)"
      and "res = empty_Result"
proof -
  obtain got s1 where g: "run_state (Get_Route C k) s = (got, s1)" by fastforce
  show ?thesis
  proof (cases got)
    case (Inl e)
    with g assms have "e = Err NotFoundError" and "res = empty_Result" and "s1 = t"
      by (auto simp: Reconcile_def IgnoreNotFound_def IsNotFound_def split: if_splits)
    with get_route_fails g Inl absent show ?thesis by simp
  next
    case (Inr route)
    note G = get_route_ok [OF g [unfolded Inr]]
    from assms(1,2) g Inr k obtain items s2 where
      l: "run_state (List_Routes C \<lparr>LO_InNamespace = NN_Namespace k, LO_MatchingField = (fqdnFieldKey, FQDN route)\<rparr>) s1
            = (Inr items, s2)" and
      rest: "run_state (if OM_DeletionTimestamp (R_ObjectMeta route) = None
                  then if_ok (ensureFinalizer r route) (\<lambda>route.
                         if_ok (reconcileServices L r req route) (\<lambda>_.
                           if_ok (reconcileVirtualServices L r req \<lparr>RL_Items = items\<rparr>) (\<lambda>_.
                             go_return \<lparr>Res_RequeueAfter = Some (RR_ResyncInterval r)\<rparr>)))
                  else if_ok (if hasFinalizer (R_ObjectMeta route) finalizerName
                              then finalizeRouteForDeletion L r req route \<lparr>RL_Items = items\<rparr>
                              else go_return ())
                         (\<lambda>_. go_return empty_Result)) s2 = (Inr res, t)"
      by (auto simp: Reconcile_def Let_def elim!: run_if_ok_InrE)
    note L = list_routes_sharing [OF l]
    show ?thesis
    proof (cases "OM_DeletionTimestamp (R_ObjectMeta route) = None")
      case True
      from rest [simplified True, simplified] show ?thesis
        by (auto elim!: run_if_ok_InrE intro!: present [of route items s2] simp: G L True)
    next
      case False
      with rest have "run_state (if hasFinalizer (R_ObjectMeta route) finalizerName
             then finalizeRouteForDeletion L r req route \<lparr>RL_Items = items\<rparr> else go_return ()) s2 = (Inr (), t)"
        and "res = empty_Result"
        by (auto elim!: run_if_ok_InrE split: if_splits)
      with False G L deleted [of route items s2] show ?thesis by simp
    qed
  qed
qed


text \<open>The routes of the list all carry the FQDN and the namespace, so they make one VirtualService.\<close>

lemma reconcile_shared_ok:
  assumes "run_state (reconcileVirtualServices L r req \<lparr>RL_Items = items\<rparr>) s = (Inr (), t)" and "RR_Client r = C"
    and "items \<noteq> []" and "\<forall>x \<in> set items. FQDN x = f \<and> OM_Namespace (R_ObjectMeta x) = ns"
  obtains v x where "VirtualServiceBuilder_Build L \<lparr>IstioGateways = [RR_IstioGateway r]\<rparr> \<lparr>RL_Items = items\<rparr> = Inr [v]"
    and "vss t = (vss s)(vs_key_of ns f \<mapsto> x)" and "vs_managed x = vs_managed v"
    and "routes t = routes s" and "services t = services s"
proof -
  from reconcileVirtualServices_ok [OF assms(1,2)] obtain vs where
    b: "VirtualServiceBuilder_Build L \<lparr>IstioGateways = [RR_IstioGateway r]\<rparr> \<lparr>RL_Items = items\<rparr> = Inr vs" and
    a: "run_state (foreach_go vs.apply_desired vs) s = (Inr (), t)" by blast
  from Build_single [OF b assms(3,4)] obtain v where v: "vs = [v]" "vs_key v = vs_key_of ns f"
    unfolding vs_key_of_def by blast
  from a v(1) have "run_state (vs.apply_desired v) s = (Inr (), t)" by (auto elim!: run_if_ok_InrE)
  with vs.apply_desired_ok v(2) obtain x where "vss t = (vss s)(vs_key_of ns f \<mapsto> x)"
    and "vs_managed x = vs_managed v" and "(routes t, services t) = (routes s, services s)" by metis
  with b v(1) that show ?thesis by simp
qed

lemma deleteVirtualServiceFor_ok:
  assumes "run_state (deleteVirtualServiceFor r req route) s = (Inr (), t)" and "RR_Client r = C"
    and "k = vs_key_of (NN_Namespace (Req_NamespacedName req)) (FQDN route)"
  shows "routes t = routes s" and "services t = services s"
    and "\<And>k'. k' \<noteq> k \<Longrightarrow> vss t k' = vss s k'"
    and "vss t k = None \<or> (\<exists>e u. run_state (Get_VirtualService C k) s = (Inl (Err e), u) \<and> e \<noteq> NotFoundError)"
proof -
  obtain res u where g: "run_state (Get_VirtualService C k) s = (res, u)" by fastforce
  have "(routes t = routes s \<and> services t = services s \<and> (\<forall>k'. k' \<noteq> k \<longrightarrow> vss t k' = vss s k')) \<and>
      (vss t k = None \<or> (\<exists>e u. run_state (Get_VirtualService C k) s = (Inl (Err e), u) \<and> e \<noteq> NotFoundError))"
  proof (cases res)
    case (Inl e)
    then obtain e' where e: "e = Err e'" using assms g
      by (cases e) (auto simp: deleteVirtualServiceFor_def vs_key_of_def)
    have "u = t" using assms g Inl e by (simp add: deleteVirtualServiceFor_def vs_key_of_def)
    with get_vs_fails [OF g [unfolded Inl]] g Inl e show ?thesis by auto
  next
    case (Inr v)
    with assms g have d: "run_state (Delete_VirtualService C v) u = (Inr (), t)"
      by (simp add: deleteVirtualServiceFor_def vs_key_of_def)
    note G = get_vs_ok [OF g [unfolded Inr]]
    from vs.delete_ok [OF d] vs.store_key G show ?thesis by fastforce
  qed
  then show "routes t = routes s" and "services t = services s"
    and "\<And>k'. k' \<noteq> k \<Longrightarrow> vss t k' = vss s k'"
    and "vss t k = None \<or> (\<exists>e u. run_state (Get_VirtualService C k) s = (Inl (Err e), u) \<and> e \<noteq> NotFoundError)"
    by blast+
qed

text \<open>
  Finalizing: the owned Services go, the VirtualService goes with the last route of its FQDN and is
  otherwise rebuilt from the remaining ones, and the route loses the finalizer.
\<close>

text \<open>An update that removes the finalizer and takes effect, whether or not the API says so.\<close>

lemma finalizer_dropped:
  assumes "R_ObjectMeta x = R_ObjectMeta rem" and "R_Spec x = R_Spec rem"
    and "rem = RemoveFinalizer C route finalizerName"
    and "rv' = rv(route_key rem :=
      (if OM_DeletionTimestamp (R_ObjectMeta rem) \<noteq> None \<and> OM_Finalizers (R_ObjectMeta rem) = [] then None else Some x))"
    and "OM_DeletionTimestamp (R_ObjectMeta route) \<noteq> None"
  shows "route_finalized route (rv' (route_key route))" and "\<And>k. k \<noteq> route_key route \<Longrightarrow> rv' k = rv k"
proof -
  from remove_finalizer obtain fs where fs: "rem = route\<lparr>R_ObjectMeta := (R_ObjectMeta route)\<lparr>OM_Finalizers := fs\<rparr>\<rparr>"
    and set_fs: "set fs = set (OM_Finalizers (R_ObjectMeta route)) - {finalizerName}" unfolding assms(3) by blast
  have key: "route_key rem = route_key route" by (simp add: fs meta_key_def)
  have "fs = [] \<longleftrightarrow> set (OM_Finalizers (R_ObjectMeta route)) \<subseteq> {finalizerName}"
    using set_fs by (metis Diff_eq_empty_iff set_empty)
  with assms(1,2,5) fs set_fs show "route_finalized route (rv' (route_key route))"
    unfolding assms(4) key by (auto simp: route_finalized_def)
  show "\<And>k. k \<noteq> route_key route \<Longrightarrow> rv' k = rv k" unfolding assms(4) key by simp
qed

lemma drop_finalizer_ok:
  assumes "run_state (Update_Route C (RemoveFinalizer C route finalizerName)) s = (Inr x, t)"
    and "OM_DeletionTimestamp (R_ObjectMeta route) \<noteq> None"
  shows "route_finalized route (routes t (route_key route))"
    and "\<And>k. k \<noteq> route_key route \<Longrightarrow> routes t k = routes s k"
    and "services t = services s" "vss t = vss s"
  using update_route_ok [OF assms(1)] finalizer_dropped [OF _ _ refl _ assms(2), of x "routes t" "routes s"] by blast+

lemma drop_finalizer_fails:
  assumes "run_state (Update_Route C (RemoveFinalizer C route finalizerName)) s = (Inl e, t)"
    and "OM_DeletionTimestamp (R_ObjectMeta route) \<noteq> None"
  shows "services t = services s" and "vss t = vss s"
    and "routes t = routes s \<or> route_finalized route (routes t (route_key route)) \<and>
      (\<forall>k. k \<noteq> route_key route \<longrightarrow> routes t k = routes s k)"
  using update_route_fails [OF assms(1)] finalizer_dropped [OF _ _ refl _ assms(2), of _ "routes t" "routes s"] by blast+

lemma remaining_routes:
  assumes "set items = routes_sharing (routes s) ns f" and "distinct (map route_key items)"
    and "routes s k = Some route" and "NN_Namespace k = ns"
  shows "set (removeRouteFromRouteList route \<lparr>RL_Items = items\<rparr>) = routes_sharing (routes s) ns f - {route}"
    and "distinct (map route_key (removeRouteFromRouteList route \<lparr>RL_Items = items\<rparr>))"
proof -
  have "map route_key items = map (\<lambda>n. \<lparr>NN_Namespace = ns, NN_Name = n\<rparr>) (map (\<lambda>x. OM_Name (R_ObjectMeta x)) items)"
    using routes_sharing_namespace assms(1) by (auto simp: meta_key_def)
  with assms(2) have "distinct (map (\<lambda>x. OM_Name (R_ObjectMeta x)) items)"
    by (metis distinct_map)
  then have eq: "removeRouteFromRouteList route \<lparr>RL_Items = items\<rparr> =
      filter (\<lambda>x. OM_Name (R_ObjectMeta x) \<noteq> OM_Name (R_ObjectMeta route)) items"
    by (simp add: removeRouteFromRouteList_filter)
  have "x = route" if x: "x \<in> routes_sharing (routes s) ns f"
    and name: "OM_Name (R_ObjectMeta x) = OM_Name (R_ObjectMeta route)" for x
  proof -
    have "route_key route = k" using route_store_key assms(3) by blast
    then have "route_key x = k"
      using routes_sharing_namespace [OF x] name assms(4) by (auto simp: meta_key_def)
    moreover from x obtain k' where "routes s k' = Some x" by (auto simp: routes_sharing_def)
    ultimately show ?thesis using route_store_key assms(3) by fastforce
  qed
  then show "set (removeRouteFromRouteList route \<lparr>RL_Items = items\<rparr>) = routes_sharing (routes s) ns f - {route}"
    unfolding eq using assms(1) by auto
  show "distinct (map route_key (removeRouteFromRouteList route \<lparr>RL_Items = items\<rparr>))"
    unfolding eq using assms(2) by (rule distinct_map_filter)
qed

text \<open>
  Everything of the finalization but its last call: the clean-up, which writes no route. \<open>cleaned_up\<close>
  says what it leaves.
\<close>

definition clean_up :: "Lib \<Rightarrow> 's RouteReconciler \<Rightarrow> Request \<Rightarrow> Route \<Rightarrow> RouteList \<Rightarrow> ('s, unit) go_action" where
  "clean_up L r req route rl =
     if_ok (List_Services (RR_Client r) \<lparr>LO_InNamespace = NN_Namespace (Req_NamespacedName req),
         LO_MatchingField = (serviceOwnerKey, OM_UID (R_ObjectMeta route))\<rparr>) (\<lambda>xs.
       if_ok (deleteServiceList r xs) (\<lambda>_.
         if removeRouteFromRouteList route rl = [] then deleteVirtualServiceFor r req route
         else reconcileVirtualServices L r req (rl\<lparr>RL_Items := removeRouteFromRouteList route rl\<rparr>)))"

lemma finalize_eq: "finalizeRouteForDeletion L r req route rl =
  if_ok (clean_up L r req route rl) (\<lambda>_.
    if_ok (Update_Route (RR_Client r) (RemoveFinalizer (RR_Client r) route finalizerName)) (\<lambda>_. go_return ()))"
  by (simp add: finalizeRouteForDeletion_def clean_up_def Let_def if_ok_assoc)

definition cleaned_up :: "Lib \<Rightarrow> string \<Rightarrow> NamespacedName \<Rightarrow> Route \<Rightarrow> 's \<Rightarrow> 's \<Rightarrow> bool" where
  "cleaned_up L gateway k route s t \<longleftrightarrow>
     (\<exists>rest s2. set rest = routes_sharing (routes s) (NN_Namespace k) (FQDN route) - {route} \<and> distinct (map route_key rest) \<and>
        services t = (\<lambda>k'. if k' \<in> owned_services (services s) (NN_Namespace k) (OM_UID (R_ObjectMeta route))
                           then None else services s k') \<and>
        (\<forall>k'. k' \<noteq> vs_key_of (NN_Namespace k) (FQDN route) \<longrightarrow> vss t k' = vss s k') \<and>
        (rest = [] \<longrightarrow> vss t (vs_key_of (NN_Namespace k) (FQDN route)) = None \<or>
           (\<exists>e u. run_state (Get_VirtualService C (vs_key_of (NN_Namespace k) (FQDN route))) s2 = (Inl (Err e), u) \<and>
                  e \<noteq> NotFoundError)) \<and>
        (rest \<noteq> [] \<longrightarrow> (\<exists>v x.
           VirtualServiceBuilder_Build L \<lparr>IstioGateways = [gateway]\<rparr> \<lparr>RL_Items = rest\<rparr> = Inr [v] \<and>
           vss t (vs_key_of (NN_Namespace k) (FQDN route)) = Some x \<and> vs_managed x = vs_managed v)))"

lemma cleaned_up_views:
  "cleaned_up L gateway k route s t \<Longrightarrow> services t' = services t \<Longrightarrow> vss t' = vss t \<Longrightarrow> cleaned_up L gateway k route s t'"
  "cleaned_up L gateway k route s t \<Longrightarrow> routes s' = routes s \<Longrightarrow> services s' = services s \<Longrightarrow> vss s' = vss s \<Longrightarrow>
    cleaned_up L gateway k route s' t"
  unfolding cleaned_up_def by (simp_all cong: if_cong)

lemma cleaned_upE:
  assumes "cleaned_up L gateway k route s t"
  obtains rest s2 where
    "set rest = routes_sharing (routes s) (NN_Namespace k) (FQDN route) - {route}" and "distinct (map route_key rest)"
    and "services t = (\<lambda>k'. if k' \<in> owned_services (services s) (NN_Namespace k) (OM_UID (R_ObjectMeta route))
                            then None else services s k')"
    and "\<forall>k'. k' \<noteq> vs_key_of (NN_Namespace k) (FQDN route) \<longrightarrow> vss t k' = vss s k'"
    and "rest = [] \<longrightarrow> vss t (vs_key_of (NN_Namespace k) (FQDN route)) = None \<or>
           (\<exists>e u. run_state (Get_VirtualService C (vs_key_of (NN_Namespace k) (FQDN route))) s2 = (Inl (Err e), u) \<and>
                  e \<noteq> NotFoundError)"
    and "rest \<noteq> [] \<longrightarrow> (\<exists>v x.
           VirtualServiceBuilder_Build L \<lparr>IstioGateways = [gateway]\<rparr> \<lparr>RL_Items = rest\<rparr> = Inr [v] \<and>
           vss t (vs_key_of (NN_Namespace k) (FQDN route)) = Some x \<and> vs_managed x = vs_managed v)"
  using assms unfolding cleaned_up_def by (elim exE conjE) (rule that; assumption)

lemma clean_up_virtual_service:
  assumes "run_state (if rest = [] then deleteVirtualServiceFor r req route
      else reconcileVirtualServices L r req \<lparr>RL_Items = rest\<rparr>) s = (Inr (), t)" and "RR_Client r = C"
    and "K = vs_key_of (NN_Namespace (Req_NamespacedName req)) (FQDN route)"
    and "\<forall>y \<in> set rest. FQDN y = FQDN route \<and> OM_Namespace (R_ObjectMeta y) = NN_Namespace (Req_NamespacedName req)"
  shows "routes t = routes s \<and> services t = services s \<and> (\<forall>k'. k' \<noteq> K \<longrightarrow> vss t k' = vss s k') \<and>
    (rest = [] \<longrightarrow> vss t K = None \<or>
       (\<exists>e u. run_state (Get_VirtualService C K) s = (Inl (Err e), u) \<and> e \<noteq> NotFoundError)) \<and>
    (rest \<noteq> [] \<longrightarrow> (\<exists>v x.
       VirtualServiceBuilder_Build L \<lparr>IstioGateways = [RR_IstioGateway r]\<rparr> \<lparr>RL_Items = rest\<rparr> = Inr [v] \<and>
       vss t K = Some x \<and> vs_managed x = vs_managed v))"
proof (cases "rest = []")
  case True
  with assms(1) have "run_state (deleteVirtualServiceFor r req route) s = (Inr (), t)" by simp
  note D = deleteVirtualServiceFor_ok [OF this assms(2,3)]
  from True D(4) show ?thesis by (simp add: D(1-3))
next
  case False
  with assms(1) have w: "run_state (reconcileVirtualServices L r req \<lparr>RL_Items = rest\<rparr>) s = (Inr (), t)" by simp
  from reconcile_shared_ok [OF w assms(2) False assms(4)] False show ?thesis unfolding assms(3) by fastforce
qed

lemma clean_up_ok:
  assumes "run_state (clean_up L r req route \<lparr>RL_Items = items\<rparr>) s = (Inr (), t)"
    and "RR_Client r = C" and k: "k = Req_NamespacedName req" and route: "routes s k = Some route"
    and items: "set items = routes_sharing (routes s) (NN_Namespace k) (FQDN route)" "distinct (map route_key items)"
  shows "routes t = routes s" and "cleaned_up L (RR_IstioGateway r) k route s t"
proof -
  define rest where "rest = removeRouteFromRouteList route \<lparr>RL_Items = items\<rparr>"
  let ?opts = "\<lparr>LO_InNamespace = NN_Namespace (Req_NamespacedName req),
    LO_MatchingField = (serviceOwnerKey, OM_UID (R_ObjectMeta route))\<rparr>"
  from assms(1,2) obtain xs s1 s2 where
    l: "run_state (List_Services C ?opts) s = (Inr xs, s1)" and
    d: "run_state (foreach_go (Delete_Service C) xs) s1 = (Inr (), s2)" and
    v: "run_state (if rest = [] then deleteVirtualServiceFor r req route
          else reconcileVirtualServices L r req \<lparr>RL_Items = rest\<rparr>) s2 = (Inr (), t)"
    by (auto simp: clean_up_def deleteServiceList_def simp flip: rest_def cong: if_cong elim!: run_if_ok_InrE)
  note L = list_services_owned [OF l, folded k] and R = remaining_routes [OF items route refl, folded rest_def]
  have s2: "services s2 = (\<lambda>k'. if k' \<in> owned_services (services s) (NN_Namespace k) (OM_UID (R_ObjectMeta route))
      then None else services s k')" "routes s2 = routes s" "vss s2 = vss s"
    using svc.delete_all_ok [OF d] L by (simp_all cong: if_cong)
  have "\<forall>y \<in> set rest. FQDN y = FQDN route \<and> OM_Namespace (R_ObjectMeta y) = NN_Namespace k"
    using R(1) routes_sharing_namespace by blast
  note V = clean_up_virtual_service [OF v assms(2) refl this [unfolded k], folded k]
  show "routes t = routes s" using V s2(2) by simp
  show "cleaned_up L (RR_IstioGateway r) k route s t"
    unfolding cleaned_up_def by (intro exI [of _ rest] exI [of _ s2]) (use R V s2 in simp)
qed

lemma finalize_ok:
  assumes "run_state (finalizeRouteForDeletion L r req route \<lparr>RL_Items = items\<rparr>) s = (Inr (), t)"
    and "RR_Client r = C" and k: "k = Req_NamespacedName req" and route: "routes s k = Some route"
    and "OM_DeletionTimestamp (R_ObjectMeta route) \<noteq> None"
    and items: "set items = routes_sharing (routes s) (NN_Namespace k) (FQDN route)" "distinct (map route_key items)"
  shows "cleaned_up L (RR_IstioGateway r) k route s t" and "route_finalized route (routes t k)"
    and "\<forall>k'. k' \<noteq> k \<longrightarrow> routes t k' = routes s k'"
proof -
  from assms(1,2) obtain s3 x where c: "run_state (clean_up L r req route \<lparr>RL_Items = items\<rparr>) s = (Inr (), s3)"
    and u: "run_state (Update_Route C (RemoveFinalizer C route finalizerName)) s3 = (Inr x, t)"
    by (auto simp: finalize_eq elim!: run_if_ok_InrE)
  note C = clean_up_ok [OF c assms(2) k route items]
  note U = drop_finalizer_ok [OF u assms(5), unfolded route_store_key [OF route]]
  show "cleaned_up L (RR_IstioGateway r) k route s t" by (rule cleaned_up_views(1) [OF C(2) U(3,4)])
  show "route_finalized route (routes t k)" by (rule U(1))
  show "\<forall>k'. k' \<noteq> k \<longrightarrow> routes t k' = routes s k'" using U(2) C(1) by simp
qed

lemma Reconcile_deleted_ok:
  assumes "run_state (Reconcile L r req) s = (Inr res, t)" and "RR_Client r = C" and k: "k = Req_NamespacedName req"
    and route: "routes s k = Some route" "OM_DeletionTimestamp (R_ObjectMeta route) \<noteq> None"
    and "finalizerName \<in> set (OM_Finalizers (R_ObjectMeta route))"
  shows "cleaned_up L (RR_IstioGateway r) k route s t" and "route_finalized route (routes t k)"
    and "\<forall>k'. k' \<noteq> k \<longrightarrow> routes t k' = routes s k'" and "res = empty_Result"
proof -
  have "cleaned_up L (RR_IstioGateway r) k route s t \<and> route_finalized route (routes t k) \<and>
      (\<forall>k'. k' \<noteq> k \<longrightarrow> routes t k' = routes s k') \<and> res = empty_Result"
    using assms(1-3)
  proof (cases rule: Reconcile_cases)
    case (deleted rt items s2)
    from deleted(1) route(1) have [simp]: "rt = route" by simp
    from deleted(8) assms(6) have fin: "run_state (finalizeRouteForDeletion L r req route \<lparr>RL_Items = items\<rparr>) s2 = (Inr (), t)"
      by simp
    note views = deleted(5-7)
    have "routes s2 k = Some route" "set items = routes_sharing (routes s2) (NN_Namespace k) (FQDN route)"
      using deleted(3) route(1) views by simp_all
    note F = finalize_ok [OF fin assms(2) k this(1) route(2) this(2) deleted(4), unfolded views]
    from cleaned_up_views(2) [OF F(1), of s] views F(2,3) deleted(9) show ?thesis by simp
  qed (use route in auto)
  then show "cleaned_up L (RR_IstioGateway r) k route s t" and "route_finalized route (routes t k)"
    and "\<forall>k'. k' \<noteq> k \<longrightarrow> routes t k' = routes s k'" and "res = empty_Result" by blast+
qed

section \<open>A reconcile of a route that is not being deleted\<close>

lemma Reconcile_present_ok:
  assumes "run_state (Reconcile L r req) s = (Inr res, t)" and "RR_Client r = C" and k: "k = Req_NamespacedName req"
    and route: "routes s k = Some route" "OM_DeletionTimestamp (R_ObjectMeta route) = None"
  obtains route' fs ds items v x where
    "res = \<lparr>Res_RequeueAfter = Some (RR_ResyncInterval r)\<rparr>"
    and "R_ObjectMeta route' = (R_ObjectMeta route)\<lparr>OM_Finalizers := fs\<rparr>"
    and "set fs = insert finalizerName (set (OM_Finalizers (R_ObjectMeta route)))"
    and "R_Spec route' = R_Spec route" and "routes t = (routes s)(k \<mapsto> route')"
    and "ServiceBuilder_Build L route' = Inr ds" and "services_applied (services t) ds"
    and "\<forall>k'. k' \<notin> service_key ` set ds \<longrightarrow> services t k' =
      (if k' \<in> owned_services (services s) (NN_Namespace k) (OM_UID (R_ObjectMeta route)) then None else services s k')"
    and "set items = routes_sharing (routes s) (NN_Namespace k) (FQDN route)" and "distinct (map route_key items)"
    and "VirtualServiceBuilder_Build L \<lparr>IstioGateways = [RR_IstioGateway r]\<rparr> \<lparr>RL_Items = items\<rparr> = Inr [v]"
    and "vss t = (vss s)(vs_key_of (NN_Namespace k) (FQDN route) \<mapsto> x)" and "vs_managed x = vs_managed v"
    and "finalizerName \<in> set (OM_Finalizers (R_ObjectMeta route)) \<longrightarrow> route' = route"
  using assms(1-3)
proof (cases rule: Reconcile_cases)
  case (present rt items s2)
  from present(1) route(1) have [simp]: "rt = route" by simp
  from present(8) obtain route' s3 s4 where
    f: "run_state (ensureFinalizer r route) s2 = (Inr route', s3)" and
    sv: "run_state (reconcileServices L r req route') s3 = (Inr (), s4)" and
    v: "run_state (reconcileVirtualServices L r req \<lparr>RL_Items = items\<rparr>) s4 = (Inr (), t)"
    by (auto elim!: run_if_ok_InrE)
  have "routes s2 k = Some route" using present(5) route(1) by simp
  then obtain fs where F: "R_ObjectMeta route' = (R_ObjectMeta route)\<lparr>OM_Finalizers := fs\<rparr>"
      "set fs = insert finalizerName (set (OM_Finalizers (R_ObjectMeta route)))"
      "R_Spec route' = R_Spec route" "routes s3 = (routes s2)(k \<mapsto> route')" "services s3 = services s2" "vss s3 = vss s2"
      "finalizerName \<in> set (OM_Finalizers (R_ObjectMeta route)) \<longrightarrow> route' = route"
    by (rule ensureFinalizer_ok [OF f assms(2) _ route(2)])
  from sv obtain ds where ds: "ServiceBuilder_Build L route' = Inr ds"
    by (auto simp: reconcileServices_def split: sum.splits)
  note S = reconcileServices_ok [OF sv assms(2) ds, folded k]
  have "route \<in> set items" using present(3) route(1) by (auto simp: routes_sharing_def)
  then have "items \<noteq> []" by auto
  moreover have "\<forall>y \<in> set items. FQDN y = FQDN route \<and> OM_Namespace (R_ObjectMeta y) = NN_Namespace k"
    using present(3) routes_sharing_namespace by auto
  ultimately obtain w x where
    W: "VirtualServiceBuilder_Build L \<lparr>IstioGateways = [RR_IstioGateway r]\<rparr> \<lparr>RL_Items = items\<rparr> = Inr [w]"
      "vss t = (vss s4)(vs_key_of (NN_Namespace k) (FQDN route) \<mapsto> x)" "vs_managed x = vs_managed w"
      "routes t = routes s4" "services t = services s4"
    by (rule reconcile_shared_ok [OF v assms(2)])
  show ?thesis
  proof (rule that [OF present(9) F(1-3) _ ds _ _ _ present(4) W(1) _ W(3) F(7)])
    show "routes t = (routes s)(k \<mapsto> route')" using W(4) S(1) F(4) present(5) by simp
    show "services_applied (services t) ds" using W(5) S(3) by simp
    show "vss t = (vss s)(vs_key_of (NN_Namespace k) (FQDN route) \<mapsto> x)" using W(2) S(2) F(6) present(7) by simp
    show "set items = routes_sharing (routes s) (NN_Namespace k) (FQDN route)" using present(3) by simp
    show "\<forall>k'. k' \<notin> service_key ` set ds \<longrightarrow> services t k' =
      (if k' \<in> owned_services (services s) (NN_Namespace k) (OM_UID (R_ObjectMeta route)) then None else services s k')"
      using W(5) S(4) F(1,5) present(6) by simp
  qed
qed (use route in auto)

end

text \<open>A Service has at most one indexed owner, and the Services in place for a route have that route.\<close>

lemma indexServiceByOwner_unique: "u \<in> set (indexServiceByOwner x) \<Longrightarrow> u' \<in> set (indexServiceByOwner x) \<Longrightarrow> u = u'"
  by (cases "OM_OwnerReferences (S_ObjectMeta x)") (simp_all add: indexServiceByOwner_def)

lemma applied_owner:
  assumes "ServiceBuilder_Build L route = Inr ds" and "services_applied sv ds" and "k \<in> service_key ` set ds"
  obtains x where "sv k = Some x" and "indexServiceByOwner x = [OM_UID (R_ObjectMeta route)]"
    and "NN_Namespace k = OM_Namespace (R_ObjectMeta route)"
proof -
  from last_of_exists [OF assms(3)] obtain d where last: "last_of service_key ds d" and k: "k = service_key d" by blast
  then have d: "d \<in> set ds" by (blast dest: last_of_mem)
  from ServiceBuilder_Build_mem [OF assms(1) d] obtain dest where "buildService L route dest = Inr d" .
  note B = buildService_InrD [OF this]
  from assms(2) last k obtain x where x: "sv k = Some x" "service_managed x = service_managed d"
    unfolding services_applied_def by blast
  from x(2) B(3) have "OM_OwnerReferences (S_ObjectMeta x) = [routeToOwnerRef L route]"
    by (simp add: service_managed_def)
  then have "indexServiceByOwner x = [OM_UID (R_ObjectMeta route)]"
    by (simp add: indexServiceByOwner_def routeToOwnerRef_def)
  with x(1) that B(2) k show ?thesis by simp
qed

lemmas in_place_owner = applied_owner [OF _ in_place_applied]

text \<open>The Services that exist for the route afterwards are exactly the desired ones.\<close>

lemma owned_after:
  assumes "ServiceBuilder_Build L route' = Inr ds" and "services_applied sv' ds"
    and "\<forall>k'. k' \<notin> service_key ` set ds \<longrightarrow> sv' k' = (if k' \<in> owned_services sv ns uid then None else sv k')"
    and "OM_UID (R_ObjectMeta route') = uid" and "OM_Namespace (R_ObjectMeta route') = ns"
  shows "owned_services sv' ns uid = service_key ` set ds"
proof (intro set_eqI iffI)
  fix k' assume o: "k' \<in> owned_services sv' ns uid"
  show "k' \<in> service_key ` set ds"
  proof (rule ccontr)
    assume "k' \<notin> service_key ` set ds"
    with assms(3) have "sv' k' = (if k' \<in> owned_services sv ns uid then None else sv k')" by simp
    with o show False by (auto simp: owned_services_def split: if_splits)
  qed
next
  fix k' assume "k' \<in> service_key ` set ds"
  from applied_owner [OF assms(1,2) this] obtain x where "sv' k' = Some x" "indexServiceByOwner x = [uid]"
    "NN_Namespace k' = ns" unfolding assms(4,5) .
  then show "k' \<in> owned_services sv' ns uid" by (simp add: owned_services_def)
qed

section \<open>The steady state\<close>

context kube_api
begin

lemma Reconcile_reaches_steady:
  assumes "run_state (Reconcile L r req) s = (Inr res, t)" and "RR_Client r = C" and k: "k = Req_NamespacedName req"
    and route: "routes s k = Some route" "OM_DeletionTimestamp (R_ObjectMeta route) = None"
    and guids: "distinct (map RD_Guid (RS_Destinations (R_Spec route)))"
    and fin: "finalizerName \<in> set (OM_Finalizers (R_ObjectMeta route))"
  shows "steady L (RR_IstioGateway r) (routes t) (services t) (vss t) k"
proof -
  obtain route' fs ds items v x where
    P: "R_ObjectMeta route' = (R_ObjectMeta route)\<lparr>OM_Finalizers := fs\<rparr>" "routes t = (routes s)(k \<mapsto> route')"
      "ServiceBuilder_Build L route' = Inr ds" "services_applied (services t) ds"
      "\<forall>k'. k' \<notin> service_key ` set ds \<longrightarrow> services t k' =
        (if k' \<in> owned_services (services s) (NN_Namespace k) (OM_UID (R_ObjectMeta route)) then None else services s k')"
      "set items = routes_sharing (routes s) (NN_Namespace k) (FQDN route)" "distinct (map route_key items)"
      "VirtualServiceBuilder_Build L \<lparr>IstioGateways = [RR_IstioGateway r]\<rparr> \<lparr>RL_Items = items\<rparr> = Inr [v]"
      "vss t = (vss s)(vs_key_of (NN_Namespace k) (FQDN route) \<mapsto> x)" "vs_managed x = vs_managed v"
      "finalizerName \<in> set (OM_Finalizers (R_ObjectMeta route)) \<longrightarrow> route' = route"
    by (rule Reconcile_present_ok [OF assms(1-5)])
  have eq: "route' = route" using P(11) fin by blast
  have rt: "routes t = routes s" using P(2) route(1) by (simp add: eq map_upd_triv)
  have "owned_services (services t) (NN_Namespace k) (OM_UID (R_ObjectMeta route)) = service_key ` set ds"
    by (rule owned_after [OF P(3,4,5)]) (use route_store_key [OF route(1)] in \<open>auto simp: eq\<close>)
  moreover have "services_in_place (services t) ds" using applied_in_place [OF P(4,3)] guids eq by simp
  ultimately show ?thesis
    unfolding steady_def rt using route fin P(3,6-10)
    by (intro exI [of _ route] exI [of _ ds] exI [of _ items] exI [of _ v] exI [of _ x]) (simp add: eq)
qed

lemma reconcileServices_noop:
  assumes "run_state (reconcileServices L r req route) s = (Inr (), t)" and "RR_Client r = C"
    and "ServiceBuilder_Build L route = Inr ds" and "services_in_place (services s) ds"
    and "owned_services (services s) (NN_Namespace (Req_NamespacedName req)) (OM_UID (R_ObjectMeta route))
           = service_key ` set ds"
  shows "routes t = routes s \<and> services t = services s \<and> vss t = vss s"
proof -
  let ?opts = "\<lparr>LO_InNamespace = NN_Namespace (Req_NamespacedName req),
    LO_MatchingField = (serviceOwnerKey, OM_UID (R_ObjectMeta route))\<rparr>"
  from assms(1-3) obtain xs s1 s2 where
    l: "run_state (List_Services C ?opts) s = (Inr xs, s1)" and
    a: "run_state (foreach_go svc.apply_desired ds) s1 = (Inr (), s2)" and
    d: "run_state (foreach_go (Delete_Service C) (findServicesForDeletion xs ds)) s2 = (Inr (), t)"
    by (auto simp: reconcileServices_def reconcileService_def [abs_def] deleteServiceList_def
        elim!: run_if_ok_InrE)
  note L = list_services_owned [OF l]
  have "service_key ` set xs = service_key ` set ds" using L(1) assms(5) by simp
  then have "findServicesForDeletion xs ds = []"
    by (auto simp: findServicesForDeletion_eq filter_empty_conv)
  with d have "s2 = t" by simp
  moreover have "services s2 = services s1 \<and> (routes s2, vss s2) = (routes s1, vss s1)"
    by (rule svc.apply_all_noop [OF a]) (use assms(4) L(4) in \<open>simp add: services_in_place_def\<close>)
  ultimately show ?thesis using L by simp
qed

lemma steady_noop:
  assumes "run_state (Reconcile L r req) s = (Inr res, t)" and "RR_Client r = C" and k: "k = Req_NamespacedName req"
    and "steady L (RR_IstioGateway r) (routes s) (services s) (vss s) k" and "ext_lib L"
    and inj: "\<And>route. routes s k = Some route \<Longrightarrow>
      inj_on (RS_Url \<circ> R_Spec) (routes_sharing (routes s) (NN_Namespace k) (FQDN route))"
  shows "routes t = routes s \<and> services t = services s \<and> vss t = vss s"
proof -
  from assms(4) obtain route ds items v x where
    st: "routes s k = Some route" "OM_DeletionTimestamp (R_ObjectMeta route) = None"
      "finalizerName \<in> set (OM_Finalizers (R_ObjectMeta route))"
      "ServiceBuilder_Build L route = Inr ds" "services_in_place (services s) ds"
      "owned_services (services s) (NN_Namespace k) (OM_UID (R_ObjectMeta route)) = service_key ` set ds"
    and items: "set items = routes_sharing (routes s) (NN_Namespace k) (FQDN route)" "distinct (map route_key items)"
    and v: "VirtualServiceBuilder_Build L \<lparr>IstioGateways = [RR_IstioGateway r]\<rparr> \<lparr>RL_Items = items\<rparr> = Inr [v]"
      "vss s (vs_key_of (NN_Namespace k) (FQDN route)) = Some x" "vs_managed x = vs_managed v"
    unfolding steady_def by auto
  from assms(1-3) show ?thesis
  proof (cases rule: Reconcile_cases)
    case (present rt items' s2)
    from present(1) st(1) have [simp]: "rt = route" by simp
    from present(8) st(3) obtain s3 where
      sv: "run_state (reconcileServices L r req route) s2 = (Inr (), s3)" and
      vs: "run_state (reconcileVirtualServices L r req \<lparr>RL_Items = items'\<rparr>) s3 = (Inr (), t)"
      by (auto simp: ensureFinalizer_def elim!: run_if_ok_InrE)
    have S: "routes s3 = routes s2 \<and> services s3 = services s2 \<and> vss s3 = vss s2"
      using reconcileServices_noop [OF sv assms(2) st(4), folded k] st(5,6) present(6) by simp
    have "mset items = mset items'"
      using items present(3,4) by (auto simp: distinct_map simp flip: set_eq_iff_mset_eq_distinct)
    then have b: "VirtualServiceBuilder_Build L \<lparr>IstioGateways = [RR_IstioGateway r]\<rparr> \<lparr>RL_Items = items'\<rparr> = Inr [v]"
      by (intro ext_lib.Build_perm [OF assms(5) v(1)]) (use inj [OF st(1)] items(1) in simp_all)
    have "route \<in> set items" using items(1) st(1) by (auto simp: routes_sharing_def)
    then have "items \<noteq> []" by auto
    moreover have "\<forall>y \<in> set items. FQDN y = FQDN route \<and> OM_Namespace (R_ObjectMeta y) = NN_Namespace k"
      using items(1) routes_sharing_namespace by auto
    ultimately have "vs_key v = vs_key_of (NN_Namespace k) (FQDN route)"
      using Build_single [OF v(1)] unfolding vs_key_of_def by (metis list.inject)
    moreover have a: "run_state (foreach_go vs.apply_desired [v]) s3 = (Inr (), t)"
      using reconcileVirtualServices_ok [OF vs assms(2)] b by auto
    ultimately have "vss t = vss s3 \<and> (routes t, services t) = (routes s3, services s3)"
      by (intro vs.apply_all_noop [OF a]) (use v S present(7) in auto)
    with S present(5-7) show ?thesis by simp
  qed (use st in auto)
qed

section \<open>Frames, whatever the outcome\<close>

lemma keeps_service_calls:
  "keeps routes (List_Services C opts)" "keeps vss (List_Services C opts)"
  "keeps routes (CreateOrUpdate_Service C obj f)" "keeps vss (CreateOrUpdate_Service C obj f)"
  "keeps routes (Delete_Service C x)" "keeps vss (Delete_Service C x)"
  by (auto simp: keeps_def dest!: list_services_frame svc.create_or_update_others svc.delete_others)

lemma keeps_get_vs: "keeps routes (Get_VirtualService C k)" "keeps services (Get_VirtualService C k)"
proof -
  have "routes t = routes s \<and> services t = services s" if "run_state (Get_VirtualService C k) s = (res, t)" for s res t
    using that get_vs_ok get_vs_fails by (cases res) auto
  then show "keeps routes (Get_VirtualService C k)" "keeps services (Get_VirtualService C k)"
    by (auto simp: keeps_def)
qed

lemma keeps_vs_calls:
  "keeps routes (CreateOrUpdate_VirtualService C v g)" "keeps services (CreateOrUpdate_VirtualService C v g)"
  "keeps routes (Delete_VirtualService C v)" "keeps services (Delete_VirtualService C v)"
  by (auto simp: keeps_def dest!: vs.create_or_update_others vs.delete_others)

lemmas frames = keeps_service_calls keeps_get_vs keeps_vs_calls keeps_if_ok keeps_foreach_go keeps_bind

lemma keeps_reconcileServices:
  assumes "RR_Client r = C"
  shows "keeps routes (reconcileServices L r req route)" "keeps vss (reconcileServices L r req route)"
  unfolding reconcileServices_def deleteServiceList_def reconcileService_def [abs_def] assms
  by (auto intro!: frames split: sum.splits)

lemma keeps_reconcileVirtualServices:
  assumes "RR_Client r = C"
  shows "keeps routes (reconcileVirtualServices L r req rl)" "keeps services (reconcileVirtualServices L r req rl)"
  unfolding reconcileVirtualServices_def reconcileVirtualService_def [abs_def] assms
  by (auto intro!: frames split: sum.splits)

lemma keeps_deleteVirtualServiceFor:
  assumes "RR_Client r = C"
  shows "keeps routes (deleteVirtualServiceFor r req route)" "keeps services (deleteVirtualServiceFor r req route)"
  unfolding deleteVirtualServiceFor_def assms
  by (auto intro!: frames split: sum.splits go_fault.splits)

lemma keeps_route_calls:
  "keeps vss (Get_Route C k)" "keeps vss (List_Routes C opts)" "keeps vss (Update_Route C x)"
  "keeps routes (Get_Route C k)" "keeps routes (List_Routes C opts)"
proof -
  have "vss t = vss s \<and> routes t = routes s" if "run_state (Get_Route C k) s = (res, t)" for s res t
    using that get_route_ok get_route_fails by (cases res) auto
  moreover have "vss t = vss s" if "run_state (Update_Route C x) s = (res, t)" for s res t
    using that update_route_ok update_route_fails by (cases res) auto
  ultimately show "keeps vss (Get_Route C k)" "keeps vss (List_Routes C opts)" "keeps vss (Update_Route C x)"
    "keeps routes (Get_Route C k)" "keeps routes (List_Routes C opts)"
    by (auto simp: keeps_def dest: list_routes_frame)
qed

text \<open>
  A finalization that fails has not touched the route, so that the next reconcile tries again, unless
  its last call took effect all the same; by then everything is cleaned up.
\<close>

lemma keeps_clean_up:
  assumes "RR_Client r = C"
  shows "keeps routes (clean_up L r req route rl)"
  unfolding clean_up_def deleteServiceList_def assms
  using keeps_deleteVirtualServiceFor [OF assms] keeps_reconcileVirtualServices [OF assms] by (auto intro!: frames)

lemma finalize_fails:
  assumes "run_state (finalizeRouteForDeletion L r req route \<lparr>RL_Items = items\<rparr>) s = (Inl e, t)"
    and "RR_Client r = C" and k: "k = Req_NamespacedName req" and route: "routes s k = Some route"
    and "OM_DeletionTimestamp (R_ObjectMeta route) \<noteq> None"
    and items: "set items = routes_sharing (routes s) (NN_Namespace k) (FQDN route)" "distinct (map route_key items)"
  shows "routes t = routes s \<or> cleaned_up L (RR_IstioGateway r) k route s t \<and> route_finalized route (routes t k) \<and>
    (\<forall>k'. k' \<noteq> k \<longrightarrow> routes t k' = routes s k')"
proof -
  obtain res u where u: "run_state (clean_up L r req route \<lparr>RL_Items = items\<rparr>) s = (res, u)" by fastforce
  show ?thesis
  proof (cases res)
    case (Inl e')
    with u assms(1,2) have "u = t" by (simp add: finalize_eq)
    with keepsD [OF keeps_clean_up [OF assms(2)] u] show ?thesis by simp
  next
    case (Inr x)
    with u assms(1,2) have f: "run_state (Update_Route C (RemoveFinalizer C route finalizerName)) u = (Inl e, t)"
      by (auto simp: finalize_eq run_if_ok split: prod.splits sum.splits)
    note U = drop_finalizer_fails [OF f assms(5), unfolded route_store_key [OF route]]
    from u Inr have "run_state (clean_up L r req route \<lparr>RL_Items = items\<rparr>) s = (Inr (), u)" by simp
    note C = clean_up_ok [OF this assms(2) k route items]
    from cleaned_up_views(1) [OF C(2) U(1,2)] U(3) C(1) show ?thesis by auto
  qed
qed

lemma Reconcile_deleted_fails:
  assumes "run_state (Reconcile L r req) s = (Inl e, t)" and "RR_Client r = C" and k: "k = Req_NamespacedName req"
    and route: "routes s k = Some route" and del: "OM_DeletionTimestamp (R_ObjectMeta route) \<noteq> None"
  shows "routes t = routes s \<or> cleaned_up L (RR_IstioGateway r) k route s t \<and> route_finalized route (routes t k) \<and>
    (\<forall>k'. k' \<noteq> k \<longrightarrow> routes t k' = routes s k')"
proof -
  obtain got s1 where g: "run_state (Get_Route C k) s = (got, s1)" by fastforce
  have s1: "routes s1 = routes s" by (rule keepsD [OF keeps_route_calls(4) g])
  show ?thesis
  proof (cases got)
    case (Inl e')
    with g assms(1-3) have "t = s1" by (simp add: Reconcile_def)
    with s1 show ?thesis by simp
  next
    case (Inr rt)
    note G = get_route_ok [OF g [unfolded Inr]]
    with route have rt: "rt = route" by simp
    let ?opts = "\<lparr>LO_InNamespace = NN_Namespace k, LO_MatchingField = (fqdnFieldKey, FQDN route)\<rparr>"
    obtain ls s2 where l: "run_state (List_Routes C ?opts) s1 = (ls, s2)" by fastforce
    have s2: "routes s2 = routes s1" by (rule keepsD [OF keeps_route_calls(5) l])
    show ?thesis
    proof (cases ls)
      case (Inl e')
      with g Inr rt l assms(1-3) have "t = s2" by (simp add: Reconcile_def)
      with s1 s2 show ?thesis by simp
    next
      case [simp]: (Inr items)
      from l have "run_state (List_Routes C ?opts) s1 = (Inr items, s2)" by simp
      note L = list_routes_sharing [OF this]
      have "run_state (finalizeRouteForDeletion L r req route \<lparr>RL_Items = items\<rparr>) s2 = (Inl e, t)"
        using g \<open>got = Inr rt\<close> rt l assms
        by (auto simp: Reconcile_def run_if_ok split: prod.splits sum.splits if_splits)
      from finalize_fails [OF this assms(2) k _ del] route L G cleaned_up_views(2) [of L _ k route s2 t s] show ?thesis by auto
    qed
  qed
qed

text \<open>When the FQDN's routes cannot be built, the reconcile ends in the builder's error before any VirtualService is written.\<close>

lemma Reconcile_unbuildable_fails:
  assumes "run_state (Reconcile L r req) s = (res, t)" and "RR_Client r = C" and k: "k = Req_NamespacedName req"
    and "routes s k = Some route" and "OM_DeletionTimestamp (R_ObjectMeta route) = None"
    and bad: "\<And>items. set items = routes_sharing (routes s) (NN_Namespace k) (FQDN route) \<Longrightarrow>
      \<not> is_ok (VirtualServiceBuilder_Build L \<lparr>IstioGateways = [RR_IstioGateway r]\<rparr> \<lparr>RL_Items = items\<rparr>)"
  shows "\<not> is_ok res"
proof
  assume "is_ok res"
  then obtain x where "run_state (Reconcile L r req) s = (Inr x, t)" using assms(1) by (auto simp: is_ok_iff)
  then show False
    using assms(2) k
  proof (cases rule: Reconcile_cases)
    case (present rt items s2)
    with assms(4) have "set items = routes_sharing (routes s) (NN_Namespace k) (FQDN route)" by simp
    moreover from present(8) obtain u where "run_state (reconcileVirtualServices L r req \<lparr>RL_Items = items\<rparr>) u = (Inr (), t)"
      by (auto elim!: run_if_ok_InrE)
    ultimately show False
      using bad [of items] by (auto simp: reconcileVirtualServices_def split: sum.splits)
  qed (use assms(4,5) in auto)
qed

lemma Reconcile_unbuildable_vss:
  assumes "run_state (Reconcile L r req) s = (res, t)" and "RR_Client r = C" and k: "k = Req_NamespacedName req"
    and "routes s k = Some route" and "OM_DeletionTimestamp (R_ObjectMeta route) = None"
    and bad: "\<And>items. set items = routes_sharing (routes s) (NN_Namespace k) (FQDN route) \<Longrightarrow>
      \<not> is_ok (VirtualServiceBuilder_Build L \<lparr>IstioGateways = [RR_IstioGateway r]\<rparr> \<lparr>RL_Items = items\<rparr>)"
  shows "vss t = vss s"
proof -
  obtain got s1 where g: "run_state (Get_Route C k) s = (got, s1)" by fastforce
  show ?thesis
  proof (cases got)
    case (Inl e)
    with g assms(1-3) have "t = s1" by (simp add: Reconcile_def)
    with keepsD [OF keeps_route_calls(1) g] show ?thesis by simp
  next
    case (Inr rt)
    note G = get_route_ok [OF g [unfolded Inr]]
    then have rt: "rt = route" using assms(4) by simp
    let ?opts = "\<lparr>LO_InNamespace = NN_Namespace k, LO_MatchingField = (fqdnFieldKey, FQDN route)\<rparr>"
    obtain ls s2 where l: "run_state (List_Routes C ?opts) s1 = (ls, s2)" by fastforce
    note s2 = keepsD [OF keeps_route_calls(2) l]
    show ?thesis
    proof (cases ls)
      case (Inl e)
      with g Inr rt l assms(1-3) have "t = s2" by (simp add: Reconcile_def)
      with s2 G show ?thesis by simp
    next
      case [simp]: (Inr items)
      from l have "set items = routes_sharing (routes s) (NN_Namespace k) (FQDN route)"
        using list_routes_sharing(1) G by simp
      from bad [OF this] obtain e where
        e: "VirtualServiceBuilder_Build L \<lparr>IstioGateways = [RR_IstioGateway r]\<rparr> \<lparr>RL_Items = items\<rparr> = Inl e"
        by (cases "VirtualServiceBuilder_Build L \<lparr>IstioGateways = [RR_IstioGateway r]\<rparr> \<lparr>RL_Items = items\<rparr>") auto
      define rest where "rest = if_ok (ensureFinalizer r route) (\<lambda>route. if_ok (reconcileServices L r req route)
        (\<lambda>_. if_ok (go_fail e :: ('s, unit) go_action) (\<lambda>_. go_return \<lparr>Res_RequeueAfter = Some (RR_ResyncInterval r)\<rparr>)))"
      have "keeps vss rest"
        unfolding rest_def ensureFinalizer_def
        by (auto simp: assms(2) intro!: keeps_if_ok keeps_route_calls keeps_reconcileServices(2) [OF assms(2)])
      moreover have "run_state rest s2 = (res, t)"
        using g \<open>got = Inr rt\<close> rt l assms(1-3,5) e
        by (simp add: Reconcile_def rest_def reconcileVirtualServices_def)
      ultimately have "vss t = vss s2" by (rule keepsD)
      with s2 G show ?thesis by simp
    qed
  qed
qed

end

end
