(* ===== verification/ReconcileLive.thy ===== *)
theory ReconcileLive
  imports ReconcileCorrect
begin

text \<open>
  The reconciler's runs end well when the API serves every call on an existing object: the client's
  side of the locale \<open>live_kube_api\<close>. Together with the lemmas about successful runs this gives total
  correctness of a reconcile.
\<close>

section \<open>Routes the builders accept\<close>

text \<open>
  \<open>deployable\<close> is what one route needs for its Services: ports set and destination GUIDs distinct.
  \<open>routable\<close> is what the routes of one FQDN need for their VirtualService.
\<close>

definition deployable :: "Route \<Rightarrow> bool" where
  "deployable route \<longleftrightarrow>
     (\<forall>d \<in> set (RS_Destinations (R_Spec route)). RD_Port d \<noteq> None) \<and>
     distinct (map RD_Guid (RS_Destinations (R_Spec route)))"

definition routable :: "Route set \<Rightarrow> bool" where
  "routable R \<longleftrightarrow>
     (\<forall>x \<in> R. \<forall>y \<in> R. RDom_Internal (RS_Domain (R_Spec x)) = RDom_Internal (RS_Domain (R_Spec y))) \<and>
     (\<forall>x \<in> R. RS_Destinations (R_Spec x) = [] \<or> valid_weights (RS_Destinations (R_Spec x)))"

lemma routable_mono: "R \<subseteq> R' \<Longrightarrow> routable R' \<Longrightarrow> routable R"
  unfolding routable_def by blast

lemma deployable_cong: "R_Spec r = R_Spec r' \<Longrightarrow> deployable r = deployable r'"
  by (simp add: deployable_def)

lemma deployable_keys:
  assumes "ServiceBuilder_Build L route = Inr ds"
  shows "distinct (map service_key ds) \<longleftrightarrow> distinct (map RD_Guid (RS_Destinations (R_Spec route)))"
  unfolding ServiceBuilder_Build_keys [OF assms] by (auto simp: distinct_map inj_on_def)

lemma deployable_Build:
  assumes "deployable route"
  obtains ds where "ServiceBuilder_Build L route = Inr ds" and "distinct (map service_key ds)"
  using assms ServiceBuilder_Build_ok_iff [of L route] deployable_keys
  by (auto simp: deployable_def is_ok_iff)

lemma routable_Build:
  assumes "ext_lib L" and "routable (set items)"
    and "\<forall>x \<in> set items. OM_Namespace (R_ObjectMeta x) = ns"
  shows "is_ok (VirtualServiceBuilder_Build L b \<lparr>RL_Items = items\<rparr>)"
  unfolding ext_lib.Build_ok_iff [OF assms(1)] RouteList.select_convs
  using assms(2,3) unfolding routable_def by metis

lemma Build_routable:
  assumes "ext_lib L" and "is_ok (VirtualServiceBuilder_Build L b \<lparr>RL_Items = items\<rparr>)"
    and "\<forall>x \<in> set items. FQDN x = f"
  shows "routable (set items)"
  using assms(2,3) unfolding ext_lib.Build_ok_iff [OF assms(1)] RouteList.select_convs routable_def by metis

section \<open>Steps that end\<close>

context live_kube_api
begin

lemma reconcileServices_live:
  assumes "RR_Client r = C" and "deployable route"
  shows "\<exists>t. run_state (reconcileServices L r req route) s = (Inr (), t)"
proof -
  let ?opts = "\<lparr>LO_InNamespace = NN_Namespace (Req_NamespacedName req),
    LO_MatchingField = (serviceOwnerKey, OM_UID (R_ObjectMeta route))\<rparr>"
  from assms(2) obtain ds where b: "ServiceBuilder_Build L route = Inr ds" and keys: "distinct (map service_key ds)"
    by (rule deployable_Build)
  obtain xs s1 where l: "run_state (List_Services C ?opts) s = (Inr xs, s1)"
    using list_services_live by blast
  note L = list_services_owned [OF l]
  obtain s2 where a: "run_state (foreach_go svc.apply_desired ds) s1 = (Inr (), s2)"
    using svc_live.apply_all_live by blast
  note A = svc.apply_all_ok [OF a]
  let ?del = "findServicesForDeletion xs ds"
  have "\<forall>x \<in> set ?del. services s2 (service_key x) \<noteq> None"
    using A(2) L(4,6) by (auto simp: findServicesForDeletion_eq)
  moreover have "distinct (map service_key ?del)"
    using L(2) by (simp add: findServicesForDeletion_eq distinct_map_filter)
  ultimately obtain t where "run_state (foreach_go (Delete_Service C) ?del) s2 = (Inr (), t)"
    using svc_live.delete_all_live by blast
  with l a assms(1) b show ?thesis
    by (simp add: reconcileServices_def reconcileService_def [abs_def] deleteServiceList_def)
qed

lemma reconcileVirtualServices_live:
  assumes "RR_Client r = C" and "is_ok (VirtualServiceBuilder_Build L \<lparr>IstioGateways = [RR_IstioGateway r]\<rparr> rl)"
  shows "\<exists>t. run_state (reconcileVirtualServices L r req rl) s = (Inr (), t)"
proof -
  from assms(2) obtain ds where "VirtualServiceBuilder_Build L \<lparr>IstioGateways = [RR_IstioGateway r]\<rparr> rl = Inr ds"
    unfolding is_ok_iff by blast
  then have "reconcileVirtualServices L r req rl = foreach_go vs.apply_desired ds"
    using assms(1) by (simp add: reconcileVirtualServices_def reconcileVirtualService_def [abs_def])
  then show ?thesis by (simp only: vs_live.apply_all_live)
qed

lemma ensureFinalizer_live:
  assumes "RR_Client r = C" and "routes s (route_key route) = Some route"
  shows "\<exists>route' t. run_state (ensureFinalizer r route) s = (Inr route', t)"
proof -
  obtain fs where "AddFinalizer C route finalizerName = route\<lparr>R_ObjectMeta := (R_ObjectMeta route)\<lparr>OM_Finalizers := fs\<rparr>\<rparr>"
    using add_finalizer by blast
  then have "route_key (AddFinalizer C route finalizerName) = route_key route"
    and "based_on route (AddFinalizer C route finalizerName)" by (simp_all add: meta_key_def based_on_def)
  with assms update_route_live [of s "AddFinalizer C route finalizerName"] show ?thesis
    by (auto simp: ensureFinalizer_def)
qed

lemma deleteVirtualServiceFor_live:
  assumes "RR_Client r = C"
  shows "\<exists>t. run_state (deleteVirtualServiceFor r req route) s = (Inr (), t)"
proof -
  let ?k = "\<lparr>NN_Namespace = NN_Namespace (Req_NamespacedName req), NN_Name = VirtualServiceName (FQDN route)\<rparr>"
  obtain u where g: "run_state (Get_VirtualService C ?k) s = (case vss s ?k of None \<Rightarrow> Inl (Err NotFoundError) | Some v \<Rightarrow> Inr v, u)"
    using get_vs_live by blast
  show ?thesis
  proof (cases "vss s ?k")
    case None
    with g assms show ?thesis by (simp add: deleteVirtualServiceFor_def)
  next
    case (Some v)
    with g have "run_state (Get_VirtualService C ?k) s = (Inr v, u)" by simp
    with get_vs_ok vs.store_key have "vss u (vs_key v) \<noteq> None" by fastforce
    with vs_live.delete_live obtain t where "run_state (Delete_VirtualService C v) u = (Inr (), t)" by blast
    with g Some assms show ?thesis by (auto simp: deleteVirtualServiceFor_def)
  qed
qed

section \<open>Runs that end\<close>

text \<open>The reads a reconcile starts with.\<close>

lemma read_live:
  assumes "routes s k = Some route" and "ns = NN_Namespace k"
  obtains s1 s2 items where "run_state (Get_Route C k) s = (Inr route, s1)"
    and "run_state (List_Routes C \<lparr>LO_InNamespace = ns, LO_MatchingField = (fqdnFieldKey, FQDN route)\<rparr>) s1
           = (Inr items, s2)"
    and "set items = routes_sharing (routes s) ns (FQDN route)" and "distinct (map route_key items)"
    and "\<forall>x \<in> set items. FQDN x = FQDN route \<and> OM_Namespace (R_ObjectMeta x) = ns"
    and "routes s2 = routes s"
proof -
  obtain s1 where g: "run_state (Get_Route C k) s = (Inr route, s1)"
    using get_route_live [of k s] assms(1) by auto
  obtain items s2 where l: "run_state (List_Routes C \<lparr>LO_InNamespace = ns, LO_MatchingField = (fqdnFieldKey, FQDN route)\<rparr>) s1
      = (Inr items, s2)" using list_routes_live by blast
  note L = list_routes_sharing [OF l] and G = get_route_ok [OF g]
  show ?thesis
    by (rule that [OF g l]) (use L G routes_sharing_namespace in auto)
qed

lemma Reconcile_present_live:
  assumes "RR_Client r = C" and k: "k = Req_NamespacedName req" and route: "routes s k = Some route"
    and "OM_DeletionTimestamp (R_ObjectMeta route) = None" and "deployable route"
    and "ext_lib L" and "routable (routes_sharing (routes s) (NN_Namespace k) (FQDN route))"
  shows "\<exists>res t. run_state (Reconcile L r req) s = (Inr res, t)"
proof -
  obtain s1 s2 items where g: "run_state (Get_Route C k) s = (Inr route, s1)" and
    l: "run_state (List_Routes C \<lparr>LO_InNamespace = NN_Namespace k, LO_MatchingField = (fqdnFieldKey, FQDN route)\<rparr>) s1
          = (Inr items, s2)" and
    items: "set items = routes_sharing (routes s) (NN_Namespace k) (FQDN route)"
      "\<forall>x \<in> set items. FQDN x = FQDN route \<and> OM_Namespace (R_ObjectMeta x) = NN_Namespace k"
      and s2: "routes s2 = routes s"
    by (rule read_live [OF route refl])
  have "routes s2 (route_key route) = Some route" using s2 route route_store_key [OF route] by simp
  then obtain route' s3 where f: "run_state (ensureFinalizer r route) s2 = (Inr route', s3)"
    using ensureFinalizer_live assms(1) by blast
  have "R_Spec route' = R_Spec route"
    using ensureFinalizer_ok [OF f assms(1), of k] s2 route assms(4) by auto
  with assms(5) have "deployable route'" by (simp add: deployable_def)
  then obtain s4 where sv: "run_state (reconcileServices L r req route') s3 = (Inr (), s4)"
    using reconcileServices_live assms(1) by blast
  have "is_ok (VirtualServiceBuilder_Build L \<lparr>IstioGateways = [RR_IstioGateway r]\<rparr> \<lparr>RL_Items = items\<rparr>)"
    by (rule routable_Build [OF assms(6), where ns = "NN_Namespace k"]) (use assms(7) items in simp_all)
  then obtain s5 where "run_state (reconcileVirtualServices L r req \<lparr>RL_Items = items\<rparr>) s4 = (Inr (), s5)"
    using reconcileVirtualServices_live assms(1) by blast
  with g l f sv assms(1,4) k show ?thesis by (simp add: Reconcile_def)
qed

lemma finalize_live:
  assumes "RR_Client r = C" and "routes s k = Some route" and "k = Req_NamespacedName req"
    and "ext_lib L" and "routable (routes_sharing (routes s) (NN_Namespace k) (FQDN route) - {route})"
    and "set items = routes_sharing (routes s) (NN_Namespace k) (FQDN route)" "distinct (map route_key items)"
  shows "\<exists>t. run_state (finalizeRouteForDeletion L r req route \<lparr>RL_Items = items\<rparr>) s = (Inr (), t)"
proof -
  let ?opts = "\<lparr>LO_InNamespace = NN_Namespace (Req_NamespacedName req),
    LO_MatchingField = (serviceOwnerKey, OM_UID (R_ObjectMeta route))\<rparr>"
  define rest where "rest = removeRouteFromRouteList route \<lparr>RL_Items = items\<rparr>"
  note R = remaining_routes [OF assms(6,7,2) refl, folded rest_def]
  obtain xs s1 where l: "run_state (List_Services C ?opts) s = (Inr xs, s1)" using list_services_live by blast
  note L = list_services_owned [OF l]
  have "\<forall>x \<in> set xs. services s1 (service_key x) \<noteq> None" using L(4,6) by simp
  then obtain s2 where d: "run_state (foreach_go (Delete_Service C) xs) s1 = (Inr (), s2)"
    using svc_live.delete_all_live L(2) by blast
  have "is_ok (VirtualServiceBuilder_Build L \<lparr>IstioGateways = [RR_IstioGateway r]\<rparr> \<lparr>RL_Items = rest\<rparr>)"
    by (rule routable_Build [OF assms(4), where ns = "NN_Namespace k"])
      (use R(1) assms(5) routes_sharing_namespace in auto)
  then obtain s3 where v: "run_state (if rest = [] then deleteVirtualServiceFor r req route
      else reconcileVirtualServices L r req \<lparr>RL_Items = rest\<rparr>) s2 = (Inr (), s3)"
    using reconcileVirtualServices_live [OF assms(1), of L "\<lparr>RL_Items = rest\<rparr>" req s2]
      deleteVirtualServiceFor_live [OF assms(1), of req route s2] by (cases "rest = []") auto
  have "routes s2 = routes s" using svc.delete_all_ok [OF d] L(3) by simp
  moreover have "routes s3 = routes s2"
  proof (cases "rest = []")
    case True
    with v deleteVirtualServiceFor_ok(1) [OF _ assms(1) refl] show ?thesis by simp
  next
    case False
    with v have "run_state (reconcileVirtualServices L r req \<lparr>RL_Items = rest\<rparr>) s2 = (Inr (), s3)" by simp
    then obtain ds where "run_state (foreach_go vs.apply_desired ds) s2 = (Inr (), s3)"
      by (rule reconcileVirtualServices_ok [OF _ assms(1)])
    from vs.apply_all_others [OF this] show ?thesis by simp
  qed
  moreover obtain fs where
    "RemoveFinalizer C route finalizerName = route\<lparr>R_ObjectMeta := (R_ObjectMeta route)\<lparr>OM_Finalizers := fs\<rparr>\<rparr>"
    using remove_finalizer by blast
  then have "route_key (RemoveFinalizer C route finalizerName) = k" "based_on route (RemoveFinalizer C route finalizerName)"
    using route_store_key [OF assms(2)] by (simp_all add: meta_key_def based_on_def)
  ultimately obtain x t where "run_state (Update_Route C (RemoveFinalizer C route finalizerName)) s3 = (Inr x, t)"
    using update_route_live [of s3 "RemoveFinalizer C route finalizerName"] assms(2) by auto
  with l d v assms(1) show ?thesis
    by (simp add: finalizeRouteForDeletion_def deleteServiceList_def Let_def flip: rest_def)
qed

lemma Reconcile_deleted_live:
  assumes "RR_Client r = C" and k: "k = Req_NamespacedName req" and route: "routes s k = Some route"
    and "OM_DeletionTimestamp (R_ObjectMeta route) \<noteq> None"
    and "ext_lib L" and "routable (routes_sharing (routes s) (NN_Namespace k) (FQDN route) - {route})"
  shows "\<exists>res t. run_state (Reconcile L r req) s = (Inr res, t)"
proof -
  obtain s1 s2 items where g: "run_state (Get_Route C k) s = (Inr route, s1)" and
    l: "run_state (List_Routes C \<lparr>LO_InNamespace = NN_Namespace k, LO_MatchingField = (fqdnFieldKey, FQDN route)\<rparr>) s1
          = (Inr items, s2)" and
    items: "set items = routes_sharing (routes s) (NN_Namespace k) (FQDN route)" "distinct (map route_key items)"
      and s2: "routes s2 = routes s"
    by (rule read_live [OF route refl])
  obtain t where "run_state (finalizeRouteForDeletion L r req route \<lparr>RL_Items = items\<rparr>) s2 = (Inr (), t)"
    using finalize_live [OF assms(1) _ k assms(5), of s2 route items] s2 route items assms(6) by auto
  then have "\<exists>t. run_state (if hasFinalizer (R_ObjectMeta route) finalizerName
      then finalizeRouteForDeletion L r req route \<lparr>RL_Items = items\<rparr> else go_return ()) s2 = (Inr (), t)"
    by auto
  with g l assms(1,4) k show ?thesis by (auto simp: Reconcile_def)
qed

end

end
