(* ===== verification/SharedApi.thy ===== *)
theory SharedApi
  imports ReconcileCorrect
begin

text \<open>
  The API as the controller really shares it: while a reconcile runs, users go on creating, editing
  and deleting routes. The locale \<open>shared_api\<close> weakens \<open>kube_api\<close> accordingly. Every call may come with
  any number of user steps before and after it, and a call that reports an error may still have taken
  effect. An update that takes effect meets the object it was read from, recognised by its UID: the
  API's check of the resource version. The lemmas show that reconciles in such company still orphan
  no Service.

  Reads are served from the cache of the manager's client. They may lag behind the users, but not
  behind the controller's own writes: a route that was read was stored under its key at some moment
  since the controller last wrote that key, and the list of a route's Services has all those that the
  controller has made. Without the second half a Service can be orphaned (\<open>lagging_list_orphans\<close> in
  \<open>ClusterSteps\<close>).
\<close>

section \<open>Users\<close>

text \<open>
  What a user, or another controller, may do to the stored routes. A new route takes a free key; an
  edit keeps the object's key, UID and deletion mark and may change everything else, the finalizers
  included, but does not strip this controller's finalizer; a marked route goes with its last
  finalizer; deleting a route with finalizers only marks it.
\<close>

inductive user_step :: "(NamespacedName \<Rightarrow> Route option) \<Rightarrow> (NamespacedName \<Rightarrow> Route option) \<Rightarrow> bool" where
  create: "rv (route_key r) = None \<Longrightarrow> user_step rv (rv(route_key r \<mapsto> r))"
| edit: "rv k = Some r \<Longrightarrow> route_key r' = k \<Longrightarrow> OM_UID (R_ObjectMeta r') = OM_UID (R_ObjectMeta r) \<Longrightarrow>
    OM_DeletionTimestamp (R_ObjectMeta r') = OM_DeletionTimestamp (R_ObjectMeta r) \<Longrightarrow>
    (finalizerName \<in> set (OM_Finalizers (R_ObjectMeta r)) \<Longrightarrow> finalizerName \<in> set (OM_Finalizers (R_ObjectMeta r'))) \<Longrightarrow>
    user_step rv (rv(k :=
      (if OM_DeletionTimestamp (R_ObjectMeta r') \<noteq> None \<and> OM_Finalizers (R_ObjectMeta r') = [] then None else Some r')))"
| mark_deleted: "rv k = Some r \<Longrightarrow> OM_Finalizers (R_ObjectMeta r) \<noteq> [] \<Longrightarrow>
    user_step rv (rv(k \<mapsto> r\<lparr>R_ObjectMeta := (R_ObjectMeta r)\<lparr>OM_DeletionTimestamp := Some now\<rparr>\<rparr>))"
| delete: "rv k = Some r \<Longrightarrow> OM_Finalizers (R_ObjectMeta r) = [] \<Longrightarrow> user_step rv (rv(k := None))"

inductive_cases user_stepE: "user_step rv rv'"

section \<open>The invariant\<close>

text \<open>
  A UID is guarded in a namespace when a route there carries it together with the finalizer; no
  Service is orphaned when the UID of every Service's owner is guarded in the Service's namespace.
\<close>

definition guarded :: "(NamespacedName \<Rightarrow> Route option) \<Rightarrow> string \<Rightarrow> string \<Rightarrow> bool" where
  "guarded rv ns uid \<longleftrightarrow>
     (\<exists>k r. rv k = Some r \<and> NN_Namespace k = ns \<and> OM_UID (R_ObjectMeta r) = uid \<and>
            finalizerName \<in> set (OM_Finalizers (R_ObjectMeta r)))"

definition owner_guarded :: "(NamespacedName \<Rightarrow> Route option) \<Rightarrow> NamespacedName \<Rightarrow> Service \<Rightarrow> bool" where
  "owner_guarded rv k x \<longleftrightarrow> (\<forall>uid \<in> set (indexServiceByOwner x). guarded rv (NN_Namespace k) uid)"

definition no_orphans :: "(NamespacedName \<Rightarrow> Route option) \<Rightarrow> (NamespacedName \<Rightarrow> Service option) \<Rightarrow> bool" where
  "no_orphans rv sv \<longleftrightarrow> (\<forall>k x. sv k = Some x \<longrightarrow> owner_guarded rv k x)"

lemma no_orphans_mono:
  assumes "no_orphans rv sv" and "\<And>ns uid. guarded rv ns uid \<Longrightarrow> guarded rv' ns uid"
  shows "no_orphans rv' sv"
  using assms unfolding no_orphans_def owner_guarded_def by blast

text \<open>A change at one key keeps the guards when the route there keeps its UID and the finalizer.\<close>

lemma guarded_upd:
  assumes "guarded rv ns uid"
    and "\<And>r. rv k = Some r \<Longrightarrow> finalizerName \<in> set (OM_Finalizers (R_ObjectMeta r)) \<Longrightarrow>
      \<exists>r'. new = Some r' \<and> OM_UID (R_ObjectMeta r') = OM_UID (R_ObjectMeta r) \<and>
           finalizerName \<in> set (OM_Finalizers (R_ObjectMeta r'))"
  shows "guarded (rv(k := new)) ns uid"
proof -
  from assms(1) obtain k0 r0 where r0: "rv k0 = Some r0" "NN_Namespace k0 = ns" "OM_UID (R_ObjectMeta r0) = uid"
    "finalizerName \<in> set (OM_Finalizers (R_ObjectMeta r0))" unfolding guarded_def by blast
  show ?thesis
  proof (cases "k0 = k")
    case True
    with assms(2) r0 obtain r' where "new = Some r'" "OM_UID (R_ObjectMeta r') = uid"
      "finalizerName \<in> set (OM_Finalizers (R_ObjectMeta r'))" by blast
    with True r0(2) show ?thesis unfolding guarded_def by (intro exI [of _ k] exI [of _ r']) simp
  next
    case False
    with r0 show ?thesis unfolding guarded_def by (intro exI [of _ k0] exI [of _ r0]) simp
  qed
qed

lemma user_step_guarded:
  assumes "user_step rv rv'" and "guarded rv ns uid"
  shows "guarded rv' ns uid"
  using assms by (elim user_stepE) (auto intro!: guarded_upd)

lemma user_step_keeps:
  assumes "user_step rv rv'" and "rv k = Some r" and "finalizerName \<in> set (OM_Finalizers (R_ObjectMeta r))"
  shows "\<exists>r'. rv' k = Some r' \<and> OM_UID (R_ObjectMeta r') = OM_UID (R_ObjectMeta r) \<and>
    finalizerName \<in> set (OM_Finalizers (R_ObjectMeta r'))"
  using assms(1)
proof cases
  case (edit k' r1 r2)
  with assms(2,3) show ?thesis by (cases "k' = k") auto
qed (use assms(2,3) in auto)

lemma users_guarded: "user_step\<^sup>*\<^sup>* rv rv' \<Longrightarrow> guarded rv ns uid \<Longrightarrow> guarded rv' ns uid"
  by (induction rule: rtranclp_induct) (auto intro: user_step_guarded)

text \<open>Users and deletions of Services cannot break the invariant.\<close>

lemma no_orphans_shrink:
  assumes "no_orphans rv sv" and "user_step\<^sup>*\<^sup>* rv rv'" and "\<And>k. sv' k = None \<or> sv' k = sv k"
  shows "no_orphans rv' sv'"
  unfolding no_orphans_def
proof (intro allI impI)
  fix k x
  assume "sv' k = Some x"
  with assms(3) [of k] have "sv k = Some x" by auto
  with assms(1) have "owner_guarded rv k x" unfolding no_orphans_def by blast
  with users_guarded [OF assms(2)] show "owner_guarded rv' k x" unfolding owner_guarded_def by blast
qed

section \<open>The interface\<close>

text \<open>
  What may have happened since a route was read: steps of users, and the controller's writes of other
  routes.
\<close>

definition since_read :: "NamespacedName \<Rightarrow> (NamespacedName \<Rightarrow> Route option) \<Rightarrow> (NamespacedName \<Rightarrow> Route option) \<Rightarrow> bool" where
  "since_read k rv rv' \<longleftrightarrow> user_step rv rv' \<or> (\<exists>k' x. k' \<noteq> k \<and> rv' = rv(k' := x))"

lemma since_read_keeps:
  assumes "(since_read k)\<^sup>*\<^sup>* rv rv'" and "rv k = Some r" and "finalizerName \<in> set (OM_Finalizers (R_ObjectMeta r))"
  shows "\<exists>r'. rv' k = Some r' \<and> OM_UID (R_ObjectMeta r') = OM_UID (R_ObjectMeta r) \<and>
    finalizerName \<in> set (OM_Finalizers (R_ObjectMeta r'))"
  using assms(1)
proof (induction rule: rtranclp_induct)
  case base
  with assms(2,3) show ?case by blast
next
  case (step rv1 rv2)
  then obtain r1 where r1: "rv1 k = Some r1" "OM_UID (R_ObjectMeta r1) = OM_UID (R_ObjectMeta r)"
    "finalizerName \<in> set (OM_Finalizers (R_ObjectMeta r1))" by blast
  from step.hyps(2) show ?case
    unfolding since_read_def
  proof (elim disjE exE conjE)
    assume "user_step rv1 rv2"
    from user_step_keeps [OF this r1(1,3)] r1(2) show ?thesis by simp
  next
    fix k' x
    assume "k' \<noteq> k" "rv2 = rv1(k' := x)"
    with r1 show ?thesis by simp
  qed
qed

lemma users_since_read: "user_step\<^sup>*\<^sup>* rv rv' \<Longrightarrow> (since_read k)\<^sup>*\<^sup>* rv rv'"
  by (induction rule: rtranclp_induct) (auto intro: rtranclp.rtrancl_into_rtrancl simp: since_read_def)

text \<open>What an update of a route does when it takes effect; \<open>r'\<close> is what the server stored.\<close>

definition route_written ::
    "(NamespacedName \<Rightarrow> Route option) \<Rightarrow> Route \<Rightarrow> Route \<Rightarrow> (NamespacedName \<Rightarrow> Route option) \<Rightarrow> bool" where
  "route_written rv r r' rv' \<longleftrightarrow>
     (\<exists>u q. user_step\<^sup>*\<^sup>* rv u \<and> u (route_key r) = Some q \<and> OM_UID (R_ObjectMeta q) = OM_UID (R_ObjectMeta r) \<and>
        R_ObjectMeta r' = R_ObjectMeta r \<and> R_Spec r' = R_Spec r \<and>
        user_step\<^sup>*\<^sup>* (u(route_key r :=
          (if OM_DeletionTimestamp (R_ObjectMeta r) \<noteq> None \<and> OM_Finalizers (R_ObjectMeta r) = [] then None else Some r'))) rv')"

locale shared_api =
  fixes C :: "'s Client"
    and routes :: "'s \<Rightarrow> NamespacedName \<Rightarrow> Route option"
    and services :: "'s \<Rightarrow> NamespacedName \<Rightarrow> Service option"
  assumes get_route_reads: "run_state (Get_Route C k) s = (res, t) \<Longrightarrow>
      services t = services s \<and> user_step\<^sup>*\<^sup>* (routes s) (routes t) \<and>
      (\<forall>r. res = Inr r \<longrightarrow> route_key r = k \<and>
         (\<exists>u. u k = Some r \<and> (since_read k)\<^sup>*\<^sup>* u (routes t)))"
    and list_routes_reads: "run_state (List_Routes C opts) s = (rs, t) \<Longrightarrow>
      services t = services s \<and> user_step\<^sup>*\<^sup>* (routes s) (routes t)"
    and list_services_reads: "run_state (List_Services C opts) s = (xs, t) \<Longrightarrow>
      services t = services s \<and> user_step\<^sup>*\<^sup>* (routes s) (routes t)"
    and list_services_complete:
      "run_state (List_Services C \<lparr>LO_InNamespace = ns, LO_MatchingField = (serviceOwnerKey, uid)\<rparr>) s = (Inr ys, t) \<Longrightarrow>
       services s k = Some x \<Longrightarrow> NN_Namespace k = ns \<Longrightarrow> uid \<in> set (indexServiceByOwner x) \<Longrightarrow> k \<in> service_key ` set ys"
    and create_service_effect: "run_state (CreateOrUpdate_Service C obj f) s = (op, t) \<Longrightarrow>
      user_step\<^sup>*\<^sup>* (routes s) (routes t) \<and>
      (services t = services s \<or>
       (\<exists>x x'. f (case services s (service_key obj) of None \<Rightarrow> obj | Some y \<Rightarrow> y) = Inr x \<and>
               service_managed x' = service_managed x \<and> services t = (services s)(service_key obj \<mapsto> x')))"
    and delete_service_effect: "run_state (Delete_Service C y) s = (done, t) \<Longrightarrow>
      user_step\<^sup>*\<^sup>* (routes s) (routes t) \<and>
      (services t = services s \<or> services t = (services s)(service_key y := None)) \<and>
      (done = Inr () \<longrightarrow> services t (service_key y) = None)"
    and get_vs_reads: "run_state (Get_VirtualService C k) s = (got, t) \<Longrightarrow>
      services t = services s \<and> user_step\<^sup>*\<^sup>* (routes s) (routes t)"
    and create_vs_reads: "run_state (CreateOrUpdate_VirtualService C v g) s = (op, t) \<Longrightarrow>
      services t = services s \<and> user_step\<^sup>*\<^sup>* (routes s) (routes t)"
    and delete_vs_reads: "run_state (Delete_VirtualService C v) s = (done, t) \<Longrightarrow>
      services t = services s \<and> user_step\<^sup>*\<^sup>* (routes s) (routes t)"
    and update_route_effect: "run_state (Update_Route C r) s = (upd, t) \<Longrightarrow>
      services t = services s \<and>
      (case upd of
         Inr r' \<Rightarrow> route_written (routes s) r r' (routes t)
       | Inl _ \<Rightarrow> user_step\<^sup>*\<^sup>* (routes s) (routes t) \<or> (\<exists>r'. route_written (routes s) r r' (routes t)))"
    and adds_finalizer: "\<exists>fs. AddFinalizer C r f' = r\<lparr>R_ObjectMeta := (R_ObjectMeta r)\<lparr>OM_Finalizers := fs\<rparr>\<rparr> \<and>
      set fs = insert f' (set (OM_Finalizers (R_ObjectMeta r)))"
    and removes_finalizer: "\<exists>fs. RemoveFinalizer C r f' = r\<lparr>R_ObjectMeta := (R_ObjectMeta r)\<lparr>OM_Finalizers := fs\<rparr>\<rparr> \<and>
      set fs = set (OM_Finalizers (R_ObjectMeta r)) - {f'}"
begin

text \<open>Calls that leave the Services alone and let only users at the routes.\<close>

definition calm :: "('s, 'a) go_action \<Rightarrow> bool" where
  "calm m \<longleftrightarrow> (\<forall>s r t. run_state m s = (r, t) \<longrightarrow> services t = services s \<and> user_step\<^sup>*\<^sup>* (routes s) (routes t))"

lemma calmD: "calm m \<Longrightarrow> run_state m s = (r, t) \<Longrightarrow> services t = services s \<and> user_step\<^sup>*\<^sup>* (routes s) (routes t)"
  unfolding calm_def by blast

lemma calm_return [simp]: "calm (go_return x)" "calm (go_fail e)"
  by (simp_all add: calm_def)

lemma calm_if_ok:
  assumes "calm m" and "\<And>x. calm (f x)"
  shows "calm (if_ok m f)"
  unfolding calm_def
proof (intro allI impI)
  fix s r t
  assume run: "run_state (if_ok m f) s = (r, t)"
  obtain a u where m: "run_state m s = (a, u)" by fastforce
  note M = calmD [OF assms(1) m]
  show "services t = services s \<and> user_step\<^sup>*\<^sup>* (routes s) (routes t)"
  proof (cases a)
    case (Inl e)
    with run m M show ?thesis by simp
  next
    case (Inr x)
    with run m have "run_state (f x) u = (r, t)" by simp
    from calmD [OF assms(2) this] M show ?thesis by (auto intro: rtranclp_trans)
  qed
qed

lemma calm_foreach_go: "(\<And>x. calm (f x)) \<Longrightarrow> calm (foreach_go f xs)"
  by (induction xs) (simp_all add: calm_if_ok)

lemma calm_calls:
  "calm (Get_Route C k)" "calm (List_Routes C opts)" "calm (List_Services C opts)" "calm (Get_VirtualService C k)"
  "calm (CreateOrUpdate_VirtualService C v g)" "calm (Delete_VirtualService C v)"
  unfolding calm_def
  by (use get_route_reads in blast) (use list_routes_reads in blast, use list_services_reads in blast,
      use get_vs_reads in blast, use create_vs_reads in blast, use delete_vs_reads in blast)

lemma calm_reconcileVirtualServices:
  assumes "RR_Client r = C"
  shows "calm (reconcileVirtualServices L r req rl)"
  unfolding reconcileVirtualServices_def reconcileVirtualService_def [abs_def] assms
  by (auto split: sum.splits intro!: calm_foreach_go calm_if_ok calm_calls)

lemma calm_deleteVirtualServiceFor:
  assumes "RR_Client r = C"
  shows "calm (deleteVirtualServiceFor r req route)"
  unfolding calm_def
proof (intro allI impI)
  fix s res t
  assume run: "run_state (deleteVirtualServiceFor r req route) s = (res, t)"
  let ?k = "\<lparr>NN_Namespace = NN_Namespace (Req_NamespacedName req), NN_Name = VirtualServiceName (FQDN route)\<rparr>"
  obtain a u where g: "run_state (Get_VirtualService C ?k) s = (a, u)" by fastforce
  note G = calmD [OF calm_calls(4) g]
  from run g assms have "t = u \<or> (\<exists>v. run_state (Delete_VirtualService C v) u = (res, t))"
    by (auto simp: deleteVirtualServiceFor_def split: sum.splits go_fault.splits)
  with G calmD [OF calm_calls(6)] show "services t = services s \<and> user_step\<^sup>*\<^sup>* (routes s) (routes t)"
    by (metis rtranclp_trans)
qed

section \<open>Reconciles keep the invariant\<close>

text \<open>The invariant, together with the guard of the route at hand.\<close>

abbreviation safe :: "string \<Rightarrow> string \<Rightarrow> 's \<Rightarrow> bool" where
  "safe ns uid s \<equiv> no_orphans (routes s) (services s) \<and> guarded (routes s) ns uid"

lemma calm_no_orphans: "calm m \<Longrightarrow> triple (\<lambda>s. no_orphans (routes s) (services s)) m
    (\<lambda>_ s. no_orphans (routes s) (services s)) (\<lambda>s. no_orphans (routes s) (services s))"
  by (rule tripleI) (auto dest!: calmD intro: no_orphans_shrink)

lemma calm_safe: "calm m \<Longrightarrow> triple (safe ns uid) m (\<lambda>_. safe ns uid) (safe ns uid)"
  by (rule tripleI) (auto dest!: calmD intro: no_orphans_shrink users_guarded)

lemma delete_safe: "triple (safe ns uid) (Delete_Service C x) (\<lambda>_. safe ns uid) (safe ns uid)"
proof -
  have "safe ns uid t" if "safe ns uid s" and "run_state (Delete_Service C x) s = (r, t)" for s r t
    using delete_service_effect [OF that(2)] that(1)
    by (auto intro: users_guarded intro!: no_orphans_shrink [of "routes s" "services s"])
  then show ?thesis by (intro tripleI)
qed

lemma create_safe:
  assumes "ServiceBuilder_Build L route = Inr ds" and "d \<in> set ds"
    and "OM_Namespace (R_ObjectMeta route) = ns" and "OM_UID (R_ObjectMeta route) = uid"
  shows "triple (safe ns uid) (CreateOrUpdate_Service C (key_only_Service d) (ServiceBuilder_BuildMutateFunction d))
    (\<lambda>_. safe ns uid) (safe ns uid)"
proof -
  from ServiceBuilder_Build_mem [OF assms(1,2)] obtain dest where "buildService L route dest = Inr d" .
  note B = buildService_InrD [OF this]
  have key: "service_key (key_only_Service d) = service_key d" by (simp add: key_only_Service_def meta_key_def)
  have "safe ns uid t" if s: "safe ns uid s"
    and run: "run_state (CreateOrUpdate_Service C (key_only_Service d) (ServiceBuilder_BuildMutateFunction d)) s = (r, t)" for s r t
  proof
    note E = create_service_effect [OF run]
    from s E show g: "guarded (routes t) ns uid" using users_guarded by blast
    show "no_orphans (routes t) (services t)"
    proof (cases "services t = services s")
      case True
      with s E show ?thesis by (auto intro: no_orphans_shrink)
    next
      case False
      with E obtain x where "service_managed x = service_managed d" and t: "services t = (services s)(service_key d \<mapsto> x)"
        unfolding key by (auto dest!: service_resource.mutate_managed)
      with B(3) have "indexServiceByOwner x = [uid]"
        by (simp add: service_managed_def indexServiceByOwner_def routeToOwnerRef_def assms(4))
      moreover have "no_orphans (routes t) (services s)" using s E by (auto intro: no_orphans_shrink)
      ultimately show ?thesis
        using g B(2) assms(3) by (auto simp: t no_orphans_def owner_guarded_def)
    qed
  qed
  then show ?thesis by (intro tripleI)
qed

lemma reconcileServices_safe:
  assumes "RR_Client r = C" and "OM_Namespace (R_ObjectMeta route) = ns" and "OM_UID (R_ObjectMeta route) = uid"
  shows "triple (safe ns uid) (reconcileServices L r req route) (\<lambda>_. safe ns uid) (safe ns uid)"
proof (cases "ServiceBuilder_Build L route")
  case (Inl e)
  then show ?thesis by (simp add: reconcileServices_def triple_fail)
next
  case (Inr ds)
  have create: "triple (safe ns uid) (reconcileService r d) (\<lambda>_. safe ns uid) (safe ns uid)" if "d \<in> set ds" for d
    unfolding reconcileService_def assms(1)
    by (rule triple_if_ok [OF create_safe [OF Inr that assms(2,3)]]) (rule triple_return)
  have delete: "triple (safe ns uid) (deleteServiceList r xs) (\<lambda>_. safe ns uid) (safe ns uid)" for xs
    unfolding deleteServiceList_def assms(1) by (rule triple_foreach_go) (rule delete_safe)
  show ?thesis
    using calm_safe [OF calm_calls(3)] triple_foreach_go [OF create] delete
    by (auto simp: reconcileServices_def Inr assms(1) intro!: triple_seq)
qed

text \<open>A written route guards its UID when it has the finalizer, and takes no other guard away.\<close>

lemma written_guarded:
  assumes "route_written rv r r' rv'" and "guarded rv ns uid"
    and "finalizerName \<in> set (OM_Finalizers (R_ObjectMeta r)) \<or> NN_Namespace (route_key r) \<noteq> ns \<or> OM_UID (R_ObjectMeta r) \<noteq> uid"
  shows "guarded rv' ns uid"
proof -
  let ?new = "if OM_DeletionTimestamp (R_ObjectMeta r) \<noteq> None \<and> OM_Finalizers (R_ObjectMeta r) = [] then None else Some r'"
  from assms(1) obtain u q where users: "user_step\<^sup>*\<^sup>* rv u" "user_step\<^sup>*\<^sup>* (u(route_key r := ?new)) rv'"
    and q: "u (route_key r) = Some q" "OM_UID (R_ObjectMeta q) = OM_UID (R_ObjectMeta r)" "R_ObjectMeta r' = R_ObjectMeta r"
    unfolding route_written_def by blast
  from users_guarded [OF users(1) assms(2)] obtain k0 r0 where r0: "u k0 = Some r0" "NN_Namespace k0 = ns"
    "OM_UID (R_ObjectMeta r0) = uid" "finalizerName \<in> set (OM_Finalizers (R_ObjectMeta r0))"
    unfolding guarded_def by blast
  have "guarded (u(route_key r := ?new)) ns uid"
  proof (cases "k0 = route_key r")
    case True
    with r0 q assms(3) have "finalizerName \<in> set (OM_Finalizers (R_ObjectMeta r))" by auto
    then have "?new = Some r'" by auto
    with True r0 q \<open>finalizerName \<in> set (OM_Finalizers (R_ObjectMeta r))\<close> show ?thesis
      unfolding guarded_def by (intro exI [of _ k0] exI [of _ r']) auto
  next
    case False
    with r0 show ?thesis unfolding guarded_def by (intro exI [of _ k0] exI [of _ r0]) simp
  qed
  with users(2) show ?thesis using users_guarded by blast
qed

lemma written_guards:
  assumes "route_written rv r r' rv'" and "finalizerName \<in> set (OM_Finalizers (R_ObjectMeta r))"
  shows "guarded rv' (NN_Namespace (route_key r)) (OM_UID (R_ObjectMeta r))"
proof -
  from assms obtain u where "user_step\<^sup>*\<^sup>* (u(route_key r \<mapsto> r')) rv'" and meta: "R_ObjectMeta r' = R_ObjectMeta r"
    unfolding route_written_def by (auto split: if_splits)
  moreover have "guarded (u(route_key r \<mapsto> r')) (NN_Namespace (route_key r)) (OM_UID (R_ObjectMeta r))"
    unfolding guarded_def using assms(2) meta by (intro exI [of _ "route_key r"] exI [of _ r']) simp
  ultimately show ?thesis using users_guarded by blast
qed

text \<open>
  So writing a route orphans nothing, if it has the finalizer or its UID owns no Service any more.
\<close>

definition disowned :: "(NamespacedName \<Rightarrow> Service option) \<Rightarrow> string \<Rightarrow> string \<Rightarrow> bool" where
  "disowned sv ns uid \<longleftrightarrow> (\<forall>k x. sv k = Some x \<longrightarrow> NN_Namespace k = ns \<longrightarrow> uid \<notin> set (indexServiceByOwner x))"

lemma update_no_orphans:
  assumes "run_state (Update_Route C r) s = (upd, t)" and "no_orphans (routes s) (services s)"
    and "finalizerName \<in> set (OM_Finalizers (R_ObjectMeta r)) \<or>
      disowned (services s) (NN_Namespace (route_key r)) (OM_UID (R_ObjectMeta r))"
  shows "no_orphans (routes t) (services t)"
proof -
  from update_route_effect [OF assms(1)] have sv: "services t = services s"
    and "user_step\<^sup>*\<^sup>* (routes s) (routes t) \<or> (\<exists>r'. route_written (routes s) r r' (routes t))"
    by (auto split: sum.splits)
  then show ?thesis
  proof (elim disjE exE)
    assume "user_step\<^sup>*\<^sup>* (routes s) (routes t)"
    with assms(2) sv show ?thesis by (auto intro: no_orphans_shrink)
  next
    fix r'
    assume w: "route_written (routes s) r r' (routes t)"
    show ?thesis
      unfolding no_orphans_def owner_guarded_def
    proof (intro allI impI ballI)
      fix k x uid
      assume x: "services t k = Some x" and uid: "uid \<in> set (indexServiceByOwner x)"
      with assms(2) sv have "guarded (routes s) (NN_Namespace k) uid"
        unfolding no_orphans_def owner_guarded_def by auto
      then show "guarded (routes t) (NN_Namespace k) uid"
        by (rule written_guarded [OF w]) (use assms(3) x uid sv in \<open>auto simp: disowned_def\<close>)
    qed
  qed
qed

lemma delete_all_effect:
  assumes "run_state (foreach_go (Delete_Service C) xs) s = (res, t)"
  shows "user_step\<^sup>*\<^sup>* (routes s) (routes t) \<and> (\<forall>k. services t k = None \<or> services t k = services s k) \<and>
    (res = Inr () \<longrightarrow> (\<forall>x \<in> set xs. services t (service_key x) = None))"
  using assms
proof (induction xs arbitrary: s)
  case Nil
  then show ?case by simp
next
  case (Cons y ys)
  obtain d u where d: "run_state (Delete_Service C y) s = (d, u)" by fastforce
  note D = delete_service_effect [OF d]
  show ?case
  proof (cases d)
    case (Inl e)
    with Cons.prems d have "t = u" "res = Inl e" by simp_all
    with D show ?thesis by auto
  next
    case (Inr z)
    with Cons.prems d have "run_state (foreach_go (Delete_Service C) ys) u = (res, t)" by simp
    note IH = Cons.IH [OF this]
    have "user_step\<^sup>*\<^sup>* (routes s) (routes t)" using D IH by (auto intro: rtranclp_trans)
    moreover have "services t k = None \<or> services t k = services s k" for k using D IH by (auto split: if_splits)
    moreover have "services t (service_key y) = None" using D IH Inr by (metis (full_types) old.unit.exhaust)
    ultimately show ?thesis using IH by auto
  qed
qed

lemma delete_all_disowns:
  assumes "run_state (foreach_go (Delete_Service C) ys) s = (Inr (), t)"
    and "\<forall>k x. services s k = Some x \<longrightarrow> NN_Namespace k = ns \<longrightarrow> uid \<in> set (indexServiceByOwner x) \<longrightarrow> k \<in> service_key ` set ys"
  shows "disowned (services t) ns uid"
  unfolding disowned_def
proof (intro allI impI notI)
  fix k x
  assume x: "services t k = Some x" "NN_Namespace k = ns" "uid \<in> set (indexServiceByOwner x)"
  note D = delete_all_effect [OF assms(1)]
  from D have "services t k = None \<or> services t k = services s k" by blast
  with x(1) have "services s k = Some x" by auto
  with x assms(2) have "k \<in> service_key ` set ys" by blast
  with D have "services t k = None" by auto
  with x show False by simp
qed

abbreviation clean :: "'s \<Rightarrow> bool" where
  "clean s \<equiv> no_orphans (routes s) (services s)"

text \<open>Every Service the UID owns is among those listed.\<close>

definition listed :: "string \<Rightarrow> string \<Rightarrow> Service list \<Rightarrow> 's \<Rightarrow> bool" where
  "listed ns uid ys s \<longleftrightarrow> clean s \<and> (\<forall>k x. services s k = Some x \<longrightarrow> NN_Namespace k = ns \<longrightarrow>
     uid \<in> set (indexServiceByOwner x) \<longrightarrow> k \<in> service_key ` set ys)"

lemma list_owned:
  "triple clean (List_Services C \<lparr>LO_InNamespace = ns, LO_MatchingField = (serviceOwnerKey, uid)\<rparr>) (listed ns uid) clean"
proof (rule tripleI)
  fix u ys v
  assume "clean u" and l: "run_state (List_Services C \<lparr>LO_InNamespace = ns, LO_MatchingField = (serviceOwnerKey, uid)\<rparr>) u = (Inr ys, v)"
  with calmD [OF calm_calls(3) l] list_services_complete [OF l] show "listed ns uid ys v"
    unfolding listed_def by (auto intro: no_orphans_shrink)
qed (auto dest!: calmD [OF calm_calls(3)] intro: no_orphans_shrink)

lemma delete_listed:
  "triple (listed ns uid ys) (foreach_go (Delete_Service C) ys) (\<lambda>_ s. clean s \<and> disowned (services s) ns uid) clean"
proof -
  have clean: "clean v" if "listed ns uid ys u" and "run_state (foreach_go (Delete_Service C) ys) u = (res, v)" for u res v
    by (rule no_orphans_shrink [of "routes u" "services u"]) (use that(1) delete_all_effect [OF that(2)] in \<open>auto simp: listed_def\<close>)
  moreover have "disowned (services v) ns uid"
    if "listed ns uid ys u" and "run_state (foreach_go (Delete_Service C) ys) u = (Inr z, v)" for u z v
    using that delete_all_disowns unfolding listed_def by simp
  ultimately show ?thesis by (intro tripleI) blast+
qed

lemma calm_disowned: "calm m \<Longrightarrow> triple (\<lambda>s. clean s \<and> disowned (services s) ns uid) m
    (\<lambda>_ s. clean s \<and> disowned (services s) ns uid) clean"
  by (rule tripleI) (auto dest!: calmD intro: no_orphans_shrink)

lemma finalize_no_orphans:
  assumes "RR_Client r = C" and "route_key route = Req_NamespacedName req"
  shows "triple clean (finalizeRouteForDeletion L r req route rl) (\<lambda>_. clean) clean"
proof -
  let ?Q = "\<lambda>s. clean s \<and> disowned (services s) (NN_Namespace (Req_NamespacedName req)) (OM_UID (R_ObjectMeta route))"
  have children: "triple ?Q (if b then deleteVirtualServiceFor r req route else reconcileVirtualServices L r req rl')
      (\<lambda>_. ?Q) clean" for b rl'
    using calm_disowned [OF calm_deleteVirtualServiceFor [OF assms(1)]]
      calm_disowned [OF calm_reconcileVirtualServices [OF assms(1)]] by simp
  let ?new = "RemoveFinalizer C route finalizerName"
  obtain fs where "?new = route\<lparr>R_ObjectMeta := (R_ObjectMeta route)\<lparr>OM_Finalizers := fs\<rparr>\<rparr>"
    using removes_finalizer by blast
  then have "route_key ?new = Req_NamespacedName req" "OM_UID (R_ObjectMeta ?new) = OM_UID (R_ObjectMeta route)"
    using assms(2) by (simp_all add: meta_key_def)
  then have update: "triple ?Q (Update_Route C ?new) (\<lambda>_. clean) clean"
    using update_no_orphans [of ?new] by (intro tripleI) auto
  show ?thesis
    unfolding finalizeRouteForDeletion_def deleteServiceList_def assms(1) Let_def
    by (intro triple_if_ok [OF list_owned] triple_if_ok [OF delete_listed] triple_if_ok [OF children]
        triple_if_ok [OF update] triple_return)
qed

text \<open>What holds after a route was read: if it has the finalizer, its UID is guarded.\<close>

abbreviation as_read :: "Route \<Rightarrow> 's \<Rightarrow> bool" where
  "as_read route s \<equiv> clean s \<and> (finalizerName \<in> set (OM_Finalizers (R_ObjectMeta route)) \<longrightarrow>
     guarded (routes s) (OM_Namespace (R_ObjectMeta route)) (OM_UID (R_ObjectMeta route)))"

lemma get_route_as_read:
  assumes "run_state (Get_Route C k) s = (Inr route, t)" and "clean s"
  shows "as_read route t"
proof -
  from get_route_reads [OF assms(1)] have key: "route_key route = k" and sv: "services t = services s"
    and users: "user_step\<^sup>*\<^sup>* (routes s) (routes t)" by auto
  from get_route_reads [OF assms(1)] obtain u where u: "u k = Some route" "(since_read k)\<^sup>*\<^sup>* u (routes t)" by blast
  have "guarded (routes t) (OM_Namespace (R_ObjectMeta route)) (OM_UID (R_ObjectMeta route))"
    if "finalizerName \<in> set (OM_Finalizers (R_ObjectMeta route))"
  proof -
    have "NN_Namespace k = OM_Namespace (R_ObjectMeta route)" using key by auto
    with since_read_keeps [OF u(2,1) that] show ?thesis unfolding guarded_def by blast
  qed
  moreover have "clean t" using assms(2) sv users by (auto intro: no_orphans_shrink)
  ultimately show ?thesis by blast
qed

lemma ensureFinalizer_safe:
  assumes "RR_Client r = C"
  shows "triple
    (as_read route)
    (ensureFinalizer r route)
    (\<lambda>route'. safe (OM_Namespace (R_ObjectMeta route')) (OM_UID (R_ObjectMeta route')))
    clean"
proof -
  obtain fs where added: "AddFinalizer C route finalizerName = route\<lparr>R_ObjectMeta := (R_ObjectMeta route)\<lparr>OM_Finalizers := fs\<rparr>\<rparr>"
    "finalizerName \<in> set fs" using adds_finalizer by blast
  let ?new = "AddFinalizer C route finalizerName"
  from added have fin: "finalizerName \<in> set (OM_Finalizers (R_ObjectMeta ?new))" by simp
  have "safe (OM_Namespace (R_ObjectMeta x)) (OM_UID (R_ObjectMeta x)) t"
    if "run_state (Update_Route C ?new) s = (Inr x, t)" and "no_orphans (routes s) (services s)" for s x t
  proof -
    from update_route_effect [OF that(1)] have w: "route_written (routes s) ?new x (routes t)" by simp
    then have "R_ObjectMeta x = R_ObjectMeta ?new" unfolding route_written_def by blast
    with written_guards [OF w fin] update_no_orphans [OF that] fin show ?thesis by simp
  qed
  with update_no_orphans [of ?new] fin show ?thesis
    unfolding ensureFinalizer_def assms hasFinalizer_iff
    by (cases "finalizerName \<in> set (OM_Finalizers (R_ObjectMeta route))") (auto intro!: tripleI triple_return)
qed

lemma present_no_orphans:
  assumes "RR_Client r = C"
  shows "triple (as_read route) (if_ok (ensureFinalizer r route) (\<lambda>route. if_ok (reconcileServices L r req route) (\<lambda>_.
    if_ok (reconcileVirtualServices L r req rl) (\<lambda>_. go_return res)))) (\<lambda>_. clean) clean"
proof -
  have vss: "triple (safe ns uid) (reconcileVirtualServices L r req rl) (\<lambda>_. clean) clean" for ns uid
    by (rule triple_weaken [OF calm_safe [OF calm_reconcileVirtualServices [OF assms]]]) auto
  have svcs: "triple (safe (OM_Namespace (R_ObjectMeta x)) (OM_UID (R_ObjectMeta x))) (reconcileServices L r req x)
      (\<lambda>_. safe (OM_Namespace (R_ObjectMeta x)) (OM_UID (R_ObjectMeta x))) clean" for x
    by (rule triple_weaken [OF reconcileServices_safe [OF assms refl refl]]) auto
  show ?thesis
    by (rule triple_if_ok [OF ensureFinalizer_safe [OF assms]], rule triple_if_ok [OF svcs],
        rule triple_if_ok [OF vss], rule triple_return)
qed

lemma deleted_no_orphans:
  assumes "RR_Client r = C" and "route_key route = Req_NamespacedName req"
  shows "triple (as_read route) (if_ok (if b then finalizeRouteForDeletion L r req route rl else go_return ())
    (\<lambda>_. go_return res)) (\<lambda>_. clean) clean"
proof -
  have "triple (as_read route) (finalizeRouteForDeletion L r req route rl) (\<lambda>_. clean) clean"
    by (rule triple_weaken [OF finalize_no_orphans [OF assms]]) auto
  then show ?thesis by (intro triple_if_ok [of _ _ "\<lambda>_. clean"]) (auto intro: triple_return)
qed

lemma Reconcile_no_orphans:
  assumes "run_state (Reconcile L r req) s = (outcome, t)" and "RR_Client r = C" and inv: "clean s"
  shows "clean t"
proof -
  define k where "k = Req_NamespacedName req"
  obtain got s1 where g: "run_state (Get_Route C k) s = (got, s1)" by fastforce
  show ?thesis
  proof (cases got)
    case (Inl e)
    from get_route_reads [OF g] inv have "clean s1" by (auto intro: no_orphans_shrink)
    with Inl g assms(1,2) show ?thesis by (simp add: Reconcile_def k_def)
  next
    case (Inr route)
    with get_route_reads [OF g] have key: "route_key route = Req_NamespacedName req" by (simp add: k_def)
    have s1: "as_read route s1" using g [unfolded Inr] inv by (rule get_route_as_read)
    have list: "triple (as_read route) (List_Routes C opts) (\<lambda>_. as_read route) clean" for opts
      by (rule tripleI) (auto dest!: calmD [OF calm_calls(2)] intro: no_orphans_shrink users_guarded)
    have "triple (as_read route) (if_ok (List_Routes C opts) (\<lambda>items.
        let rl = \<lparr>RL_Items = items\<rparr> in
        if OM_DeletionTimestamp (R_ObjectMeta route) = None
        then if_ok (ensureFinalizer r route) (\<lambda>route. if_ok (reconcileServices L r req route) (\<lambda>_.
               if_ok (reconcileVirtualServices L r req rl) (\<lambda>_. go_return \<lparr>Res_RequeueAfter = Some (RR_ResyncInterval r)\<rparr>)))
        else if_ok (if hasFinalizer (R_ObjectMeta route) finalizerName then finalizeRouteForDeletion L r req route rl
               else go_return ()) (\<lambda>_. go_return empty_Result))) (\<lambda>_. clean) clean" for opts
      by (rule triple_if_ok [OF list])
        (simp add: Let_def present_no_orphans [OF assms(2)] deleted_no_orphans [OF assms(2) key])
    from tripleD [OF this s1] g assms(1,2) Inr show ?thesis
      by (fastforce simp: Reconcile_def k_def split: sum.splits)
  qed
qed

end

section \<open>The undisturbed API is a shared one\<close>

text \<open>Without company every call takes no user step: the laws of \<open>kube_api\<close> give those of \<open>shared_api\<close>.\<close>

context kube_api
begin

lemma undisturbed_get_route:
  assumes "run_state (Get_Route C k) s = (res, t)"
  shows "services t = services s \<and> user_step\<^sup>*\<^sup>* (routes s) (routes t) \<and>
    (\<forall>r. res = Inr r \<longrightarrow> route_key r = k \<and>
       (\<exists>u. u k = Some r \<and> (since_read k)\<^sup>*\<^sup>* u (routes t)))"
proof -
  have "routes t = routes s \<and> services t = services s" using assms get_route_ok get_route_fails by (cases res) blast+
  moreover have "routes s k = Some r \<and> route_key r = k" if "res = Inr r" for r
    using assms that get_route_ok route_store_key by blast
  ultimately show ?thesis by auto
qed

lemma undisturbed_list_services:
  assumes "run_state (List_Services C \<lparr>LO_InNamespace = ns, LO_MatchingField = (serviceOwnerKey, uid)\<rparr>) s = (Inr ys, t)"
    and "services s k = Some x" and "NN_Namespace k = ns" and "uid \<in> set (indexServiceByOwner x)"
  shows "k \<in> service_key ` set ys"
proof -
  from list_services_ok [OF assms(1)] assms(2-4) have "x \<in> set ys" by blast
  with svc.store_key [OF assms(2)] show ?thesis by auto
qed

lemma undisturbed_create_service:
  assumes "run_state (CreateOrUpdate_Service C obj f) s = (op, t)"
  shows "user_step\<^sup>*\<^sup>* (routes s) (routes t) \<and>
    (services t = services s \<or>
     (\<exists>x x'. f (case services s (service_key obj) of None \<Rightarrow> obj | Some y \<Rightarrow> y) = Inr x \<and>
             service_managed x' = service_managed x \<and> services t = (services s)(service_key obj \<mapsto> x')))"
  using svc.create_or_update_others [OF assms] svc.create_or_update_effect [OF assms] by (auto split: option.splits)

lemma undisturbed_delete_service:
  assumes "run_state (Delete_Service C y) s = (done, t)"
  shows "user_step\<^sup>*\<^sup>* (routes s) (routes t) \<and>
    (services t = services s \<or> services t = (services s)(service_key y := None)) \<and>
    (done = Inr () \<longrightarrow> services t (service_key y) = None)"
proof -
  have "routes t = routes s" using svc.delete_others [OF assms] by simp
  moreover have "services t (service_key y) = None" if "done = Inr ()"
    using svc.delete_key [OF assms [unfolded that]] by simp
  ultimately show ?thesis using svc.delete_effect [OF assms] by simp
qed

lemma undisturbed_get_vs:
  "run_state (Get_VirtualService C k) s = (got, t) \<Longrightarrow> services t = services s \<and> user_step\<^sup>*\<^sup>* (routes s) (routes t)"
  using get_vs_ok get_vs_fails by (cases got) (metis rtranclp.rtrancl_refl)+

lemma undisturbed_update_route:
  assumes "run_state (Update_Route C r) s = (upd, t)"
  shows "services t = services s \<and>
    (case upd of
       Inr r' \<Rightarrow> route_written (routes s) r r' (routes t)
     | Inl _ \<Rightarrow> user_step\<^sup>*\<^sup>* (routes s) (routes t) \<or> (\<exists>r'. route_written (routes s) r r' (routes t)))"
proof -
  have "route_written (routes s) r r' (routes t)" if "upd = Inr r'" for r'
    using update_route_ok [OF assms [unfolded that]] update_route_stored [OF assms [unfolded that]]
    unfolding route_written_def by (intro exI [of _ "routes s"]) auto
  moreover have "services t = services s" using assms update_route_ok update_route_fails by (cases upd) blast+
  moreover have "routes t = routes s \<or> (\<exists>r'. route_written (routes s) r r' (routes t))" if "upd = Inl e" for e
    using update_route_fails [OF assms [unfolded that]] unfolding route_written_def
    by (elim conjE disjE exE) (simp, metis rtranclp.rtrancl_refl)
  ultimately show ?thesis by (auto split: sum.splits)
qed

end

sublocale kube_api \<subseteq> shared: shared_api C routes services
proof (unfold_locales, goal_cases)
  case 1
  then show ?case by (rule undisturbed_get_route)
next
  case 4
  then show ?case by (rule undisturbed_list_services)
next
  case 5
  then show ?case by (rule undisturbed_create_service)
next
  case 6
  then show ?case by (rule undisturbed_delete_service)
next
  case 7
  then show ?case by (rule undisturbed_get_vs)
next
  case 10
  then show ?case by (rule undisturbed_update_route)
qed (use list_routes_frame list_services_frame vs.create_or_update_others vs.delete_others add_finalizer remove_finalizer in
      \<open>(metis Pair_inject rtranclp.rtrancl_refl)+\<close>)

end
