(* ===== verification/InMemoryApi.thy ===== *)
theory InMemoryApi
  imports ReconcileLive SharedApi
begin

text \<open>
  An API server in memory: three lists of objects, of which the first under a key counts. It serves
  every call on an existing object, answers NotFound otherwise, deletes a route when an update takes
  the last finalizer of a deleted one, and looks fields up through the reconciler's own index
  functions. It interprets \<open>live_kube_api\<close>, so the laws the reconciler relies on can hold together,
  and it is the cluster the witnesses run on.
\<close>

section \<open>Lists of objects\<close>

definition obj_get :: "('r \<Rightarrow> NamespacedName) \<Rightarrow> 'r list \<Rightarrow> NamespacedName \<Rightarrow> 'r option" where
  "obj_get key xs k = find (\<lambda>x. key x = k) xs"

definition obj_del :: "('r \<Rightarrow> NamespacedName) \<Rightarrow> NamespacedName \<Rightarrow> 'r list \<Rightarrow> 'r list" where
  "obj_del key k xs = filter (\<lambda>x. key x \<noteq> k) xs"

definition obj_put :: "('r \<Rightarrow> NamespacedName) \<Rightarrow> 'r \<Rightarrow> 'r list \<Rightarrow> 'r list" where
  "obj_put key x xs = x # obj_del key (key x) xs"

fun obj_all :: "('r \<Rightarrow> NamespacedName) \<Rightarrow> 'r list \<Rightarrow> 'r list" where
  "obj_all key [] = []"
| "obj_all key (x # xs) = x # filter (\<lambda>y. key y \<noteq> key x) (obj_all key xs)"

lemma obj_get_simps [simp]:
  "obj_get key [] k = None"
  "obj_get key (x # xs) k = (if key x = k then Some x else obj_get key xs k)"
  by (simp_all add: obj_get_def)

lemma obj_get_key: "obj_get key xs k = Some x \<Longrightarrow> key x = k"
  by (induction xs) (auto split: if_splits)

lemma obj_get_del: "obj_get key (obj_del key k xs) = (obj_get key xs)(k := None)"
proof
  fix k'
  show "obj_get key (obj_del key k xs) k' = ((obj_get key xs)(k := None)) k'"
    by (induction xs) (auto simp: obj_del_def)
qed

lemma obj_get_put: "obj_get key (obj_put key x xs) = (obj_get key xs)(key x \<mapsto> x)"
  by (rule ext) (simp add: obj_put_def obj_get_del)

lemma set_obj_all: "set (obj_all key xs) = {x. \<exists>k. obj_get key xs k = Some x}"
proof (induction xs)
  case Nil
  then show ?case by simp
next
  case (Cons x xs)
  have "y \<in> set (obj_all key (x # xs)) \<longleftrightarrow> (\<exists>k. obj_get key (x # xs) k = Some y)" for y
    using Cons.IH obj_get_key [of key xs _ y] by (auto split: if_splits intro!: exI [of _ "key y"])
  then show ?case by blast
qed

lemma obj_get_ex:
  "(\<exists>k. obj_get key xs k = Some x) \<longleftrightarrow> obj_get key xs (key x) = Some x"
  "(\<exists>k. obj_get key xs k = Some x \<and> P k) \<longleftrightarrow> obj_get key xs (key x) = Some x \<and> P (key x)"
  by (metis obj_get_key)+

lemma distinct_obj_all: "distinct (map key (obj_all key xs))"
  by (induction xs) (auto simp: distinct_map inj_on_def)

section \<open>The cluster\<close>

record Cluster =
  CL_Routes :: "Route list"
  CL_Services :: "Service list"
  CL_VirtualServices :: "VirtualService list"

abbreviation mem_routes :: "Cluster \<Rightarrow> NamespacedName \<Rightarrow> Route option" where
  "mem_routes c \<equiv> obj_get route_key (CL_Routes c)"

abbreviation mem_services :: "Cluster \<Rightarrow> NamespacedName \<Rightarrow> Service option" where
  "mem_services c \<equiv> obj_get service_key (CL_Services c)"

abbreviation mem_vss :: "Cluster \<Rightarrow> NamespacedName \<Rightarrow> VirtualService option" where
  "mem_vss c \<equiv> obj_get vs_key (CL_VirtualServices c)"

text \<open>The operations of one kind of object, over its list in the cluster.\<close>

definition mem_get :: "('s \<Rightarrow> NamespacedName \<Rightarrow> 'r option) \<Rightarrow> NamespacedName \<Rightarrow> ('s, 'r) go_action" where
  "mem_get get k = State (\<lambda>c. (case get c k of None \<Rightarrow> Inl (Err NotFoundError) | Some x \<Rightarrow> Inr x, c))"

definition mem_create_or_update ::
    "('r \<Rightarrow> NamespacedName) \<Rightarrow> (Cluster \<Rightarrow> 'r list) \<Rightarrow> (('r list \<Rightarrow> 'r list) \<Rightarrow> Cluster \<Rightarrow> Cluster) \<Rightarrow>
     'r \<Rightarrow> ('r \<Rightarrow> 'r go_result) \<Rightarrow> (Cluster, OperationResult) go_action" where
  "mem_create_or_update key objs upd obj f = State (\<lambda>c.
     case f (case obj_get key (objs c) (key obj) of None \<Rightarrow> obj | Some y \<Rightarrow> y) of
       Inl e \<Rightarrow> (Inl e, c)
     | Inr x \<Rightarrow>
         if key x = key obj
         then (Inr (if obj_get key (objs c) (key obj) = None then OperationResultCreated else OperationResultUpdated),
               upd (obj_put key x) c)
         else (Inl (Err (ErrorString ''MutateFn cannot mutate object name and/or object namespace'')), c))"

definition mem_delete ::
    "('r \<Rightarrow> NamespacedName) \<Rightarrow> (Cluster \<Rightarrow> 'r list) \<Rightarrow> (('r list \<Rightarrow> 'r list) \<Rightarrow> Cluster \<Rightarrow> Cluster) \<Rightarrow>
     'r \<Rightarrow> (Cluster, unit) go_action" where
  "mem_delete key objs upd x = State (\<lambda>c.
     if obj_get key (objs c) (key x) = None then (Inl (Err NotFoundError), c)
     else (Inr (), upd (obj_del key (key x)) c))"

definition mem_update_route :: "Route \<Rightarrow> (Cluster, Route) go_action" where
  "mem_update_route r = State (\<lambda>c.
     case mem_routes c (route_key r) of
       None \<Rightarrow> (Inl (Err NotFoundError), c)
     | Some q \<Rightarrow>
         if \<not> based_on q r then (Inl (Err (ApiError ''Conflict'')), c)
         else (Inr r, CL_Routes_update
                (if OM_DeletionTimestamp (R_ObjectMeta r) \<noteq> None \<and> OM_Finalizers (R_ObjectMeta r) = []
                 then obj_del route_key (route_key r) else obj_put route_key r) c))"

definition mem_list_routes :: "ListOptions \<Rightarrow> (Cluster, Route list) go_action" where
  "mem_list_routes opts = State (\<lambda>c. (Inr (filter
     (\<lambda>r. OM_Namespace (R_ObjectMeta r) = LO_InNamespace opts \<and>
          snd (LO_MatchingField opts) \<in> set (if fst (LO_MatchingField opts) = fqdnFieldKey then indexRouteByFQDN r else []))
     (obj_all route_key (CL_Routes c))), c))"

definition mem_list_services :: "ListOptions \<Rightarrow> (Cluster, Service list) go_action" where
  "mem_list_services opts = State (\<lambda>c. (Inr (filter
     (\<lambda>x. OM_Namespace (S_ObjectMeta x) = LO_InNamespace opts \<and>
          snd (LO_MatchingField opts) \<in> set (if fst (LO_MatchingField opts) = serviceOwnerKey then indexServiceByOwner x else []))
     (obj_all service_key (CL_Services c))), c))"

definition with_finalizers :: "Route \<Rightarrow> string list \<Rightarrow> Route" where
  "with_finalizers r fs = r\<lparr>R_ObjectMeta := (R_ObjectMeta r)\<lparr>OM_Finalizers := fs\<rparr>\<rparr>"

definition mem_client :: "Cluster Client" where
  "mem_client = \<lparr>
     Get_Route = mem_get mem_routes,
     List_Routes = mem_list_routes,
     Update_Route = mem_update_route,
     List_Services = mem_list_services,
     Delete_Service = mem_delete service_key CL_Services CL_Services_update,
     CreateOrUpdate_Service = mem_create_or_update service_key CL_Services CL_Services_update,
     Get_VirtualService = mem_get mem_vss,
     Delete_VirtualService = mem_delete vs_key CL_VirtualServices CL_VirtualServices_update,
     CreateOrUpdate_VirtualService = mem_create_or_update vs_key CL_VirtualServices CL_VirtualServices_update,
     AddFinalizer = (\<lambda>r f. with_finalizers r (OM_Finalizers (R_ObjectMeta r) @
       (if f \<in> set (OM_Finalizers (R_ObjectMeta r)) then [] else [f]))),
     RemoveFinalizer = (\<lambda>r f. with_finalizers r (filter (\<lambda>g. g \<noteq> f) (OM_Finalizers (R_ObjectMeta r))))\<rparr>"

section \<open>The laws hold\<close>

lemma based_on_uid: "based_on q r \<Longrightarrow> OM_UID (R_ObjectMeta q) = OM_UID (R_ObjectMeta r)"
  unfolding based_on_def by (metis ObjectMeta.select_convs(3) ObjectMeta.surjective ObjectMeta.update_convs(7))

lemma mem_create_or_update_live:
  assumes "\<forall>x. \<exists>x'. f x = Inr x' \<and> key x' = key x"
  shows "\<exists>res t. run_state (mem_create_or_update key objs upd obj f) c = (Inr res, t)"
proof -
  let ?y = "case obj_get key (objs c) (key obj) of None \<Rightarrow> obj | Some y \<Rightarrow> y"
  from assms obtain x where "f ?y = Inr x" and "key x = key ?y" by blast
  moreover have "key ?y = key obj" by (auto split: option.splits dest: obj_get_key)
  ultimately show ?thesis by (simp add: mem_create_or_update_def)
qed

lemma mem_child_api:
  assumes "managed_resource meta managed mutate"
    and "\<And>d. meta_key (meta (key_only d)) = meta_key (meta d)"
    and "\<And>g c. objs (upd g c) = g (objs c)" and "\<And>g c. others (upd g c) = others c"
  shows "live_child_api meta managed mutate (\<lambda>c. obj_get (\<lambda>x. meta_key (meta x)) (objs c)) others
    (mem_create_or_update (\<lambda>x. meta_key (meta x)) objs upd) (mem_delete (\<lambda>x. meta_key (meta x)) objs upd) key_only"
proof -
  have "child_api meta managed mutate (\<lambda>c. obj_get (\<lambda>x. meta_key (meta x)) (objs c)) others
    (mem_create_or_update (\<lambda>x. meta_key (meta x)) objs upd) (mem_delete (\<lambda>x. meta_key (meta x)) objs upd) key_only"
    unfolding child_api_def child_api_axioms_def
    using assms
    by (auto simp: mem_create_or_update_def mem_delete_def obj_get_put obj_get_del map_upd_triv dest: obj_get_key
        split: sum.splits if_splits option.splits)
  moreover have "\<exists>t. run_state (mem_delete (\<lambda>x. meta_key (meta x)) objs upd x) c = (Inr (), t)"
    if "obj_get (\<lambda>x. meta_key (meta x)) (objs c) (meta_key (meta x)) \<noteq> None" for x c
    using that by (simp add: mem_delete_def)
  ultimately show ?thesis
    unfolding live_child_api_def live_child_api_axioms_def
    using mem_create_or_update_live [where key = "\<lambda>x. meta_key (meta x)"] by blast
qed

lemmas mem_services_api =
  mem_child_api [OF service_resource.managed_resource_axioms, of key_only_Service CL_Services CL_Services_update
    "\<lambda>s. (mem_routes s, mem_vss s)"]

lemmas mem_vss_api =
  mem_child_api [OF vs_resource.managed_resource_axioms, of key_only_VirtualService CL_VirtualServices
    CL_VirtualServices_update "\<lambda>s. (mem_routes s, mem_services s)"]

interpretation mem: live_kube_api mem_client mem_routes mem_services mem_vss
proof -
  have svc: "live_child_api S_ObjectMeta service_managed ServiceBuilder_BuildMutateFunction mem_services
      (\<lambda>s. (mem_routes s, mem_vss s)) (CreateOrUpdate_Service mem_client) (Delete_Service mem_client) key_only_Service"
    using mem_services_api by (simp add: mem_client_def)
  have vs: "live_child_api VS_ObjectMeta vs_managed VirtualServiceBuilder_BuildMutateFunction mem_vss
      (\<lambda>s. (mem_routes s, mem_services s)) (CreateOrUpdate_VirtualService mem_client)
      (Delete_VirtualService mem_client) key_only_VirtualService"
    using mem_vss_api by (simp add: mem_client_def)
  have "kube_api_axioms mem_client mem_routes mem_services mem_vss"
  proof
    fix s ns fqdn rs t
    assume "run_state (List_Routes mem_client \<lparr>LO_InNamespace = ns, LO_MatchingField = (fqdnFieldKey, fqdn)\<rparr>) s = (Inr rs, t)"
    then show "distinct (map route_key rs) \<and>
       set rs = {r. \<exists>k. mem_routes s k = Some r \<and> NN_Namespace k = ns \<and> fqdn \<in> set (indexRouteByFQDN r)}"
      by (auto simp: mem_client_def mem_list_routes_def set_obj_all obj_get_ex distinct_obj_all distinct_map_filter)
  next
    fix s ns uid xs t
    assume "run_state (List_Services mem_client \<lparr>LO_InNamespace = ns, LO_MatchingField = (serviceOwnerKey, uid)\<rparr>) s = (Inr xs, t)"
    then show "distinct (map service_key xs) \<and>
       set xs = {x. \<exists>k. mem_services s k = Some x \<and> NN_Namespace k = ns \<and> uid \<in> set (indexServiceByOwner x)}"
      by (auto simp: mem_client_def mem_list_services_def set_obj_all obj_get_ex distinct_obj_all distinct_map_filter)
  next
    fix r :: Route and f
    let ?fs = "OM_Finalizers (R_ObjectMeta r) @ (if f \<in> set (OM_Finalizers (R_ObjectMeta r)) then [] else [f])"
    have "AddFinalizer mem_client r f = r\<lparr>R_ObjectMeta := (R_ObjectMeta r)\<lparr>OM_Finalizers := ?fs\<rparr>\<rparr>"
      by (simp add: mem_client_def with_finalizers_def)
    then show "\<exists>fs. AddFinalizer mem_client r f = r\<lparr>R_ObjectMeta := (R_ObjectMeta r)\<lparr>OM_Finalizers := fs\<rparr>\<rparr> \<and>
      set fs = insert f (set (OM_Finalizers (R_ObjectMeta r)))"
      by (intro exI [of _ ?fs]) auto
  qed (auto simp: mem_client_def mem_get_def mem_update_route_def mem_list_routes_def mem_list_services_def with_finalizers_def obj_get_put obj_get_del
      fun_eq_iff dest: obj_get_key based_on_uid split: option.splits if_splits)
  moreover have "live_kube_api_axioms mem_client mem_routes mem_vss"
    by standard (auto simp: mem_client_def mem_get_def mem_update_route_def mem_list_routes_def mem_list_services_def
        split: option.splits)
  ultimately show "live_kube_api mem_client mem_routes mem_services mem_vss"
    using svc vs by (simp add: live_kube_api_def kube_api_def live_child_api_def)
qed

end
