(* ===== verification/SampleCluster.thy ===== *)
theory SampleCluster
  imports InMemoryApi SampleData
begin

text \<open>
  The clusters in memory the controller's witnesses run on: two routes on one FQDN, the first of them
  new, finalized or being deleted, and a Service left over from a destination the first one no
  longer has.
\<close>

definition sample_key :: NamespacedName where
  "sample_key = \<lparr>NN_Namespace = ''workload-namespace'', NN_Name = ''route-guid-0''\<rparr>"

definition sample_req :: Request where
  "sample_req = \<lparr>Req_NamespacedName = sample_key\<rparr>"

definition sample_reconciler :: "Cluster RouteReconciler" where
  "sample_reconciler = \<lparr>RR_Client = mem_client, RR_IstioGateway = ''istio-ingress'', RR_ResyncInterval = 30000000000\<rparr>"

definition stale_service :: Service where
  "stale_service = zero_Service\<lparr>S_ObjectMeta := zero_ObjectMeta\<lparr>
     OM_Name := ''s-gone'', OM_Namespace := ''workload-namespace'',
     OM_OwnerReferences := [\<lparr>OR_APIVersion = ''networking.cloudfoundry.org/v1alpha1'', OR_Kind = ''Route'',
       OR_Name = ''route-guid-0'', OR_UID = ''route-guid-0-uid''\<rparr>]\<rparr>\<rparr>"

definition route0_finalized :: Route where
  "route0_finalized = with_finalizers route0 [finalizerName]"

definition route0_deleted :: Route where
  "route0_deleted = route0\<lparr>R_ObjectMeta := (R_ObjectMeta route0)\<lparr>
     OM_Finalizers := [finalizerName], OM_DeletionTimestamp := Some 1600000000\<rparr>\<rparr>"

definition sample_cluster :: "Route list \<Rightarrow> Cluster" where
  "sample_cluster rs = \<lparr>CL_Routes = rs, CL_Services = [stale_service], CL_VirtualServices = []\<rparr>"

lemma sample_reconciler_sel [simp]:
  "RR_Client sample_reconciler = mem_client" "Req_NamespacedName sample_req = sample_key"
  "RR_ResyncInterval sample_reconciler = 30000000000" "RR_IstioGateway sample_reconciler = ''istio-ingress''"
  by (simp_all add: sample_reconciler_def sample_req_def)

lemma sample_route_keys [simp]:
  "route_key route0 = sample_key" "route_key route1 = sample_key\<lparr>NN_Name := ''route-guid-1''\<rparr>"
  "route_key route0_finalized = sample_key" "route_key route0_deleted = sample_key"
  by (simp_all add: sample_defs sample_key_def meta_key_def route0_finalized_def route0_deleted_def with_finalizers_def)

lemma FQDN_cong: "R_Spec r = R_Spec r' \<Longrightarrow> FQDN r = FQDN r'"
  by (simp add: FQDN_def)

lemma sample_route_specs [simp]:
  "R_Spec route0_finalized = R_Spec route0" "R_Spec route0_deleted = R_Spec route0"
  "FQDN route0_finalized = sample_fqdn" "FQDN route0_deleted = sample_fqdn"
proof -
  show "R_Spec route0_finalized = R_Spec route0" "R_Spec route0_deleted = R_Spec route0"
    by (simp_all add: route0_finalized_def route0_deleted_def with_finalizers_def)
  then show "FQDN route0_finalized = sample_fqdn" "FQDN route0_deleted = sample_fqdn"
    using FQDN_cong sample_FQDNs(1) by metis+
qed

lemma sample_marks [simp]:
  "OM_DeletionTimestamp (R_ObjectMeta route0) = None" "OM_Finalizers (R_ObjectMeta route0) = []"
  "OM_DeletionTimestamp (R_ObjectMeta route0_finalized) = None"
  "OM_Finalizers (R_ObjectMeta route0_finalized) = [finalizerName]"
  "OM_DeletionTimestamp (R_ObjectMeta route0_deleted) = Some 1600000000"
  "OM_Finalizers (R_ObjectMeta route0_deleted) = [finalizerName]"
  by (simp_all add: sample_defs route0_finalized_def route0_deleted_def with_finalizers_def)

lemma sample_deployable [simp]: "deployable route0" "deployable route0_finalized"
  by (simp_all add: deployable_def) (simp_all add: sample_defs)

lemma sample_lookup [simp]:
  "mem_routes (sample_cluster (r # rs)) k = (if route_key r = k then Some r else obj_get route_key rs k)"
  by (simp add: sample_cluster_def)

lemma sample_routable:
  "routable {route0, route1}" "routable {route0_finalized, route1}" "routable {route1}"
  using sample_valid by (simp_all add: routable_def) (simp_all add: sample_defs)

lemma routes_sharing_mem:
  "routes_sharing (obj_get route_key rs) ns f =
     {x \<in> set (obj_all route_key rs). OM_Namespace (R_ObjectMeta x) = ns \<and> FQDN x = f}"
  by (auto simp: routes_sharing_def set_obj_all obj_get_ex)

lemma sample_sharing:
  "routes_sharing (mem_routes (sample_cluster [route0, route1])) (NN_Namespace sample_key) sample_fqdn = {route0, route1}"
  "routes_sharing (mem_routes (sample_cluster [route0_finalized, route1])) (NN_Namespace sample_key) sample_fqdn
     = {route0_finalized, route1}"
  "routes_sharing (mem_routes (sample_cluster [route0_deleted, route1])) (NN_Namespace sample_key) sample_fqdn
     = {route0_deleted, route1}"
  "routes_sharing (mem_routes (sample_cluster [route0_deleted])) (NN_Namespace sample_key) sample_fqdn = {route0_deleted}"
proof -
  have ns: "OM_Namespace (R_ObjectMeta x) = NN_Namespace (route_key x)" for x :: Route by simp
  have names: "sample_key\<lparr>NN_Name := ''route-guid-1''\<rparr> \<noteq> sample_key" by (simp add: sample_key_def)
  show "routes_sharing (mem_routes (sample_cluster [route0, route1])) (NN_Namespace sample_key) sample_fqdn = {route0, route1}"
    "routes_sharing (mem_routes (sample_cluster [route0_finalized, route1])) (NN_Namespace sample_key) sample_fqdn
     = {route0_finalized, route1}"
    "routes_sharing (mem_routes (sample_cluster [route0_deleted, route1])) (NN_Namespace sample_key) sample_fqdn
     = {route0_deleted, route1}"
    "routes_sharing (mem_routes (sample_cluster [route0_deleted])) (NN_Namespace sample_key) sample_fqdn = {route0_deleted}"
    using names by (auto simp: routes_sharing_mem ns sample_cluster_def simp del: meta_key_sel)
qed

end
