(* ===== verification/ControllerProperties.thy ===== *)
theory ControllerProperties
  imports SampleCluster
begin

text \<open>
  The properties of the reconciler. Those under \<open>kube_api C rv sv vv\<close> speak about any API client
  that keeps the documented laws, with \<open>rv\<close>, \<open>sv\<close> and \<open>vv\<close> its views of routes, Services and
  VirtualServices; those without it speak about every client. The witnesses run the reconciler on
  the cluster in memory.
\<close>

section \<open>Runs on the sample clusters\<close>

lemmas mem_api = mem.kube_api_axioms

lemma sample_run:
  obtains res t where "run_state (Reconcile go_lib sample_reconciler sample_req) (sample_cluster [route0, route1]) = (Inr res, t)"
  using mem.Reconcile_present_live [of sample_reconciler sample_key sample_req "sample_cluster [route0, route1]" route0 go_lib]
    golib.ext_lib_axioms sample_routable(1) by (auto simp: sample_sharing)

lemma sample_run_finalized:
  obtains res t where
    "run_state (Reconcile go_lib sample_reconciler sample_req) (sample_cluster [route0_finalized, route1]) = (Inr res, t)"
  using mem.Reconcile_present_live [of sample_reconciler sample_key sample_req "sample_cluster [route0_finalized, route1]"
      route0_finalized go_lib]
    golib.ext_lib_axioms sample_routable(2) by (auto simp: sample_sharing)

lemma sample_run_deleted:
  obtains res t where
    "run_state (Reconcile go_lib sample_reconciler sample_req) (sample_cluster [route0_deleted, route1]) = (Inr res, t)"
  using mem.Reconcile_deleted_live [of sample_reconciler sample_key sample_req "sample_cluster [route0_deleted, route1]"
      route0_deleted go_lib]
    golib.ext_lib_axioms routable_mono [OF _ sample_routable(3), of "{route0_deleted, route1} - {route0_deleted}"]
  by (auto simp: sample_sharing)

lemma sample_guids: "distinct (map RD_Guid (RS_Destinations (R_Spec route0)))"
  using sample_deployable(1) by (simp add: deployable_def)

section \<open>Reconciling a route\<close>

text \<open>
  C5. After a successful reconcile of a route that is not being deleted, the Services in its namespace
  that it owns are exactly those of its destinations. Each has the labels, annotations, owner,
  selector and ports of its destination, or, when several destinations share a GUID and so a Service,
  of the last of them. Services it neither owned nor asks for are untouched.
\<close>

theorem reconcile_services:
  assumes "kube_api C rv sv vv" and "RR_Client r = C"
    and "run_state (Reconcile L r req) s = (Inr res, t)" and "k = Req_NamespacedName req"
    and "rv s k = Some route" and "OM_DeletionTimestamp (R_ObjectMeta route) = None"
  shows "\<exists>route' ds. rv t k = Some route' \<and> R_Spec route' = R_Spec route \<and> ServiceBuilder_Build L route' = Inr ds \<and>
    services_applied (sv t) ds \<and>
    (distinct (map RD_Guid (RS_Destinations (R_Spec route))) \<longrightarrow> services_in_place (sv t) ds) \<and>
    owned_services (sv t) (NN_Namespace k) (OM_UID (R_ObjectMeta route)) = service_key ` set ds \<and>
    (\<forall>k'. k' \<notin> service_key ` set ds \<and>
          k' \<notin> owned_services (sv s) (NN_Namespace k) (OM_UID (R_ObjectMeta route)) \<longrightarrow> sv t k' = sv s k')"
proof -
  obtain route' fs ds where
    P: "R_ObjectMeta route' = (R_ObjectMeta route)\<lparr>OM_Finalizers := fs\<rparr>" "R_Spec route' = R_Spec route"
      "rv t = (rv s)(k \<mapsto> route')" "ServiceBuilder_Build L route' = Inr ds" "services_applied (sv t) ds"
      "\<forall>k'. k' \<notin> service_key ` set ds \<longrightarrow> sv t k' =
        (if k' \<in> owned_services (sv s) (NN_Namespace k) (OM_UID (R_ObjectMeta route)) then None else sv s k')"
    by (rule kube_api.Reconcile_present_ok [OF assms(1,3,2,4-6)])
  have "owned_services (sv t) (NN_Namespace k) (OM_UID (R_ObjectMeta route)) = service_key ` set ds"
    by (rule owned_after [OF P(4-6)])
      (use kube_api.route_store_key [OF assms(1,5)] in \<open>auto simp: P(1)\<close>)
  moreover have "distinct (map RD_Guid (RS_Destinations (R_Spec route))) \<longrightarrow> services_in_place (sv t) ds"
    using applied_in_place [OF P(5,4)] P(2) by simp
  ultimately show ?thesis using P by auto
qed

theorem reconcile_services_witness:
  "\<exists>res t ds. run_state (Reconcile go_lib sample_reconciler sample_req) (sample_cluster [route0, route1]) = (Inr res, t) \<and>
     services_in_place (mem_services t) ds \<and>
     owned_services (mem_services t) (NN_Namespace sample_key) (OM_UID (R_ObjectMeta route0)) = service_key ` set ds"
proof -
  obtain res t where run: "run_state (Reconcile go_lib sample_reconciler sample_req) (sample_cluster [route0, route1]) = (Inr res, t)"
    by (rule sample_run)
  from reconcile_services [OF mem_api _ run, of sample_key route0] run sample_guids show ?thesis by auto
qed

text \<open>
  C8. After a successful reconcile of a route that is not being deleted, the VirtualService of its
  FQDN, under the FQDN's hash in the route's namespace, carries the labels, annotations, owners and
  spec the builder makes of exactly the routes of that namespace with that FQDN; no other
  VirtualService changes.
\<close>

theorem reconcile_virtual_service:
  assumes "kube_api C rv sv vv" and "RR_Client r = C"
    and "run_state (Reconcile L r req) s = (Inr res, t)" and "k = Req_NamespacedName req"
    and "rv s k = Some route" and "OM_DeletionTimestamp (R_ObjectMeta route) = None"
  shows "\<exists>items v x. set items = routes_sharing (rv s) (NN_Namespace k) (FQDN route) \<and>
    distinct (map route_key items) \<and>
    VirtualServiceBuilder_Build L \<lparr>IstioGateways = [RR_IstioGateway r]\<rparr> \<lparr>RL_Items = items\<rparr> = Inr [v] \<and>
    vv t = (vv s)(vs_key_of (NN_Namespace k) (FQDN route) \<mapsto> x) \<and> vs_managed x = vs_managed v"
  by (rule kube_api.Reconcile_present_ok [OF assms(1,3,2,4-6)]) blast

theorem reconcile_virtual_service_witness:
  "\<exists>res t x. run_state (Reconcile go_lib sample_reconciler sample_req) (sample_cluster [route0, route1]) = (Inr res, t) \<and>
     mem_vss t = [vs_key_of (NN_Namespace sample_key) sample_fqdn \<mapsto> x]"
proof -
  obtain res t where run: "run_state (Reconcile go_lib sample_reconciler sample_req) (sample_cluster [route0, route1]) = (Inr res, t)"
    by (rule sample_run)
  have "mem_vss (sample_cluster [route0, route1]) = Map.empty" by (simp add: sample_cluster_def fun_eq_iff)
  with reconcile_virtual_service [OF mem_api _ run, of sample_key route0] run sample_guids show ?thesis by auto
qed

text \<open>
  C16. A successful reconcile of a route that is not being deleted leaves it with the controller's
  finalizer beside the finalizers it had and with its spec unchanged, changes no other route, and
  asks to be run again after the resync interval.
\<close>

theorem reconcile_protects_route:
  assumes "kube_api C rv sv vv" and "RR_Client r = C"
    and "run_state (Reconcile L r req) s = (Inr res, t)" and "k = Req_NamespacedName req"
    and "rv s k = Some route" and "OM_DeletionTimestamp (R_ObjectMeta route) = None"
  shows "res = \<lparr>Res_RequeueAfter = Some (RR_ResyncInterval r)\<rparr> \<and>
    (\<exists>route'. rv t = (rv s)(k \<mapsto> route') \<and> R_Spec route' = R_Spec route \<and>
       set (OM_Finalizers (R_ObjectMeta route')) = insert finalizerName (set (OM_Finalizers (R_ObjectMeta route))))"
proof -
  obtain route' fs where "res = \<lparr>Res_RequeueAfter = Some (RR_ResyncInterval r)\<rparr>"
    and "R_ObjectMeta route' = (R_ObjectMeta route)\<lparr>OM_Finalizers := fs\<rparr>"
    and "set fs = insert finalizerName (set (OM_Finalizers (R_ObjectMeta route)))"
    and "R_Spec route' = R_Spec route" and "rv t = (rv s)(k \<mapsto> route')"
    by (rule kube_api.Reconcile_present_ok [OF assms(1,3,2,4-6)])
  then show ?thesis by (intro conjI exI [of _ route']) simp_all
qed

theorem reconcile_protects_route_witness:
  "\<exists>t route'. run_state (Reconcile go_lib sample_reconciler sample_req) (sample_cluster [route0, route1])
       = (Inr \<lparr>Res_RequeueAfter = Some 30000000000\<rparr>, t) \<and>
     mem_routes t sample_key = Some route' \<and> set (OM_Finalizers (R_ObjectMeta route')) = {finalizerName}"
proof -
  obtain res t where run: "run_state (Reconcile go_lib sample_reconciler sample_req) (sample_cluster [route0, route1]) = (Inr res, t)"
    by (rule sample_run)
  from reconcile_protects_route [OF mem_api _ run, of sample_key route0] run sample_guids show ?thesis by auto
qed

text \<open>
  C12. A reconcile of a route that is not being deleted ends without error when the API serves every
  call on an existing object, the route's destinations have ports and distinct GUIDs, and the routes
  of its FQDN agree on being internal and have valid weights.
\<close>

theorem reconcile_succeeds:
  assumes "live_kube_api C rv sv vv" and "RR_Client r = C" and "k = Req_NamespacedName req"
    and "rv s k = Some route" and "OM_DeletionTimestamp (R_ObjectMeta route) = None" and "deployable route"
    and "ext_lib L" and "routable (routes_sharing (rv s) (NN_Namespace k) (FQDN route))"
  shows "\<exists>res t. run_state (Reconcile L r req) s = (Inr res, t)"
  by (rule live_kube_api.Reconcile_present_live [OF assms])

theorem reconcile_succeeds_witness:
  "\<exists>res t. run_state (Reconcile go_lib sample_reconciler sample_req) (sample_cluster [route0, route1]) = (Inr res, t)"
  using reconcile_succeeds [OF mem.live_kube_api_axioms, of sample_reconciler sample_key sample_req
      "sample_cluster [route0, route1]" route0 go_lib]
    golib.ext_lib_axioms sample_routable(1) by (simp add: sample_sharing)

text \<open>
  C11. A successful reconcile of a route that is not being deleted, carries the finalizer and whose
  destinations have distinct GUIDs reaches the steady state: the finalizer set, exactly the desired
  Services, and the VirtualService its FQDN's routes ask for.
\<close>

theorem reconcile_reaches_steady:
  assumes "kube_api C rv sv vv" and "RR_Client r = C"
    and "run_state (Reconcile L r req) s = (Inr res, t)" and "k = Req_NamespacedName req"
    and "rv s k = Some route" and "OM_DeletionTimestamp (R_ObjectMeta route) = None"
    and "distinct (map RD_Guid (RS_Destinations (R_Spec route)))"
    and "finalizerName \<in> set (OM_Finalizers (R_ObjectMeta route))"
  shows "steady L (RR_IstioGateway r) (rv t) (sv t) (vv t) k"
  by (rule kube_api.Reconcile_reaches_steady [OF assms(1,3,2,4-8)])

theorem reconcile_reaches_steady_witness:
  "\<exists>res t. run_state (Reconcile go_lib sample_reconciler sample_req) (sample_cluster [route0_finalized, route1]) = (Inr res, t) \<and>
     steady go_lib ''istio-ingress'' (mem_routes t) (mem_services t) (mem_vss t) sample_key"
proof -
  obtain res t where run:
    "run_state (Reconcile go_lib sample_reconciler sample_req) (sample_cluster [route0_finalized, route1]) = (Inr res, t)"
    by (rule sample_run_finalized)
  from reconcile_reaches_steady [OF mem_api _ run, of sample_key route0_finalized] run sample_guids show ?thesis by auto
qed

text \<open>
  C10. The steady state is stable: while the routes of the FQDN have distinct URLs, a successful
  reconcile there changes no route, no Service and no VirtualService, in whatever order the API lists
  the routes, so the periodic resync does not churn.
\<close>

theorem steady_is_stable:
  assumes "kube_api C rv sv vv" and "RR_Client r = C" and "ext_lib L"
    and "run_state (Reconcile L r req) s = (Inr res, t)" and "k = Req_NamespacedName req"
    and "steady L (RR_IstioGateway r) (rv s) (sv s) (vv s) k"
    and "\<And>route. rv s k = Some route \<Longrightarrow> inj_on (RS_Url \<circ> R_Spec) (routes_sharing (rv s) (NN_Namespace k) (FQDN route))"
  shows "rv t = rv s \<and> sv t = sv s \<and> vv t = vv s"
  by (rule kube_api.steady_noop [OF assms(1,4,2,5,6,3,7)])

theorem steady_is_stable_witness:
  "\<exists>res t res' t'. run_state (Reconcile go_lib sample_reconciler sample_req) (sample_cluster [route0_finalized, route1]) = (Inr res, t) \<and>
     run_state (Reconcile go_lib sample_reconciler sample_req) t = (Inr res', t') \<and>
     mem_routes t' = mem_routes t \<and> mem_services t' = mem_services t \<and> mem_vss t' = mem_vss t"
proof -
  let ?c = "sample_cluster [route0_finalized, route1]"
  obtain res t where run: "run_state (Reconcile go_lib sample_reconciler sample_req) ?c = (Inr res, t)"
    by (rule sample_run_finalized)
  have steady: "steady go_lib ''istio-ingress'' (mem_routes t) (mem_services t) (mem_vss t) sample_key"
    using mem.Reconcile_reaches_steady [OF run, of sample_key route0_finalized] sample_guids by simp
  have "mem_routes t = mem_routes ?c"
  proof (rule mem.Reconcile_present_ok [OF run, of sample_key route0_finalized])
    fix route' assume "mem_routes t = (mem_routes ?c)(sample_key \<mapsto> route')"
      and "finalizerName \<in> set (OM_Finalizers (R_ObjectMeta route0_finalized)) \<longrightarrow> route' = route0_finalized"
    then show ?thesis by (simp add: map_upd_triv)
  qed simp_all
  then have rv: "mem_routes t sample_key = Some route0_finalized"
    and sh: "routes_sharing (mem_routes t) (NN_Namespace sample_key) sample_fqdn = {route0_finalized, route1}"
    by (simp_all add: sample_sharing)
  then obtain res' t' where run': "run_state (Reconcile go_lib sample_reconciler sample_req) t = (Inr res', t')"
    using mem.Reconcile_present_live [of sample_reconciler sample_key sample_req t route0_finalized go_lib]
      golib.ext_lib_axioms sample_routable(2) by auto
  have "inj_on (RS_Url \<circ> R_Spec) {route0_finalized, route1}"
    by (auto simp: inj_on_def) (simp_all add: sample_defs)
  with steady_is_stable [OF mem_api _ golib.ext_lib_axioms run', of sample_key] steady rv sh run run'
  show ?thesis by auto
qed

section \<open>Deleting a route\<close>

text \<open>
  C6. A successful reconcile of a route that is being deleted and carries the finalizer leaves no
  Service in its namespace that it owns and no other Service changed; the route has lost the
  controller's finalizer and is gone when that was its last one; no other route changes.
\<close>

theorem deletion_cleans_up:
  assumes "kube_api C rv sv vv" and "RR_Client r = C"
    and "run_state (Reconcile L r req) s = (Inr res, t)" and "k = Req_NamespacedName req"
    and "rv s k = Some route" and "OM_DeletionTimestamp (R_ObjectMeta route) \<noteq> None"
    and "finalizerName \<in> set (OM_Finalizers (R_ObjectMeta route))"
  shows "owned_services (sv t) (NN_Namespace k) (OM_UID (R_ObjectMeta route)) = {} \<and>
    (\<forall>k'. k' \<notin> owned_services (sv s) (NN_Namespace k) (OM_UID (R_ObjectMeta route)) \<longrightarrow> sv t k' = sv s k') \<and>
    route_finalized route (rv t k) \<and> (\<forall>k'. k' \<noteq> k \<longrightarrow> rv t k' = rv s k') \<and> res = empty_Result"
proof -
  note D = kube_api.Reconcile_deleted_ok [OF assms(1,3,2,4-7)]
  have F: "sv t = (\<lambda>k'. if k' \<in> owned_services (sv s) (NN_Namespace k) (OM_UID (R_ObjectMeta route)) then None else sv s k')"
    by (rule kube_api.cleaned_upE [OF assms(1) D(1)])
  have "owned_services (sv t) (NN_Namespace k) (OM_UID (R_ObjectMeta route)) = {}"
    unfolding F by (auto simp: owned_services_def split: if_splits)
  with F D(2-4) show ?thesis by simp
qed

theorem deletion_cleans_up_witness:
  "\<exists>t. run_state (Reconcile go_lib sample_reconciler sample_req) (sample_cluster [route0_deleted, route1]) = (Inr empty_Result, t) \<and>
     owned_services (mem_services t) (NN_Namespace sample_key) (OM_UID (R_ObjectMeta route0_deleted)) = {} \<and>
     mem_routes t sample_key = None"
proof -
  obtain res t where run:
    "run_state (Reconcile go_lib sample_reconciler sample_req) (sample_cluster [route0_deleted, route1]) = (Inr res, t)"
    by (rule sample_run_deleted)
  from deletion_cleans_up [OF mem_api _ run, of sample_key route0_deleted] run show ?thesis
    by (auto simp: route_finalized_def split: option.splits)
qed




text \<open>
  C13. A reconcile of a route that is being deleted ends without error when the API serves every call
  on an existing object and the other routes of its FQDN can be built.
\<close>

theorem deletion_succeeds:
  assumes "live_kube_api C rv sv vv" and "RR_Client r = C" and "k = Req_NamespacedName req"
    and "rv s k = Some route" and "OM_DeletionTimestamp (R_ObjectMeta route) \<noteq> None"
    and "ext_lib L" and "routable (routes_sharing (rv s) (NN_Namespace k) (FQDN route) - {route})"
  shows "\<exists>res t. run_state (Reconcile L r req) s = (Inr res, t)"
  by (rule live_kube_api.Reconcile_deleted_live [OF assms])

theorem deletion_succeeds_witness:
  "\<exists>res t. run_state (Reconcile go_lib sample_reconciler sample_req) (sample_cluster [route0_deleted]) = (Inr res, t)"
  using deletion_succeeds [OF mem.live_kube_api_axioms, of sample_reconciler sample_key sample_req
      "sample_cluster [route0_deleted]" route0_deleted go_lib]
    golib.ext_lib_axioms by (simp add: sample_sharing routable_def)

text \<open>
  C14. A reconcile of a deleted route that ends in an error is safe to retry: either it has changed no
  route, so the finalizer is still there and the deletion is tried again; or the removal of the
  finalizer took effect although the API reported an error, and by then the route's Services are gone
  and the VirtualService of its FQDN is rebuilt from the remaining routes, or gone when there are none
  (provided reading it fails with NotFound only). The finalizer is never removed before the clean-up.
\<close>

theorem deletion_retry_safe:
  assumes "kube_api C rv sv vv" and "RR_Client r = C" and "run_state (Reconcile L r req) s = (Inl e, t)"
    and "k = Req_NamespacedName req"
    and "rv s k = Some route" and "OM_DeletionTimestamp (R_ObjectMeta route) \<noteq> None"
  shows "rv t = rv s \<or>
    route_finalized route (rv t k) \<and> (\<forall>k'. k' \<noteq> k \<longrightarrow> rv t k' = rv s k') \<and>
    owned_services (sv t) (NN_Namespace k) (OM_UID (R_ObjectMeta route)) = {} \<and>
    (if routes_sharing (rv s) (NN_Namespace k) (FQDN route) - {route} = {}
     then (\<forall>u e u'. run_state (Get_VirtualService C (vs_key_of (NN_Namespace k) (FQDN route))) u = (Inl e, u') \<longrightarrow>
             e = Err NotFoundError) \<longrightarrow> vv t (vs_key_of (NN_Namespace k) (FQDN route)) = None
     else \<exists>rest v x. set rest = routes_sharing (rv s) (NN_Namespace k) (FQDN route) - {route} \<and>
       distinct (map route_key rest) \<and>
       VirtualServiceBuilder_Build L \<lparr>IstioGateways = [RR_IstioGateway r]\<rparr> \<lparr>RL_Items = rest\<rparr> = Inr [v] \<and>
       vv t (vs_key_of (NN_Namespace k) (FQDN route)) = Some x \<and> vs_managed x = vs_managed v)"
proof (rule disjE [OF kube_api.Reconcile_deleted_fails [OF assms(1,3,2,4-6)]])
  assume D: "kube_api.cleaned_up C rv sv vv L (RR_IstioGateway r) k route s t \<and> route_finalized route (rv t k) \<and>
    (\<forall>k'. k' \<noteq> k \<longrightarrow> rv t k' = rv s k')"
  let ?K = "vs_key_of (NN_Namespace k) (FQDN route)"
  obtain rest s2 where F: "set rest = routes_sharing (rv s) (NN_Namespace k) (FQDN route) - {route}" "distinct (map route_key rest)"
      "sv t = (\<lambda>k'. if k' \<in> owned_services (sv s) (NN_Namespace k) (OM_UID (R_ObjectMeta route)) then None else sv s k')"
      "rest = [] \<longrightarrow> vv t ?K = None \<or>
         (\<exists>e u. run_state (Get_VirtualService C ?K) s2 = (Inl (Err e), u) \<and> e \<noteq> NotFoundError)"
      "rest \<noteq> [] \<longrightarrow> (\<exists>v x.
         VirtualServiceBuilder_Build L \<lparr>IstioGateways = [RR_IstioGateway r]\<rparr> \<lparr>RL_Items = rest\<rparr> = Inr [v] \<and>
         vv t ?K = Some x \<and> vs_managed x = vs_managed v)"
    by (rule kube_api.cleaned_upE [OF assms(1) conjunct1 [OF D]])
  have "owned_services (sv t) (NN_Namespace k) (OM_UID (R_ObjectMeta route)) = {}"
    unfolding F(3) by (auto simp: owned_services_def split: if_splits)
  moreover have last: "routes_sharing (rv s) (NN_Namespace k) (FQDN route) - {route} = {} \<longleftrightarrow> rest = []"
    using F(1) by (metis set_empty)
  have "vv t ?K = None"
    if "rest = []" and "\<forall>u e u'. run_state (Get_VirtualService C ?K) u = (Inl e, u') \<longrightarrow> e = Err NotFoundError"
    using F(4) that by blast
  moreover have "\<exists>rest v x. set rest = routes_sharing (rv s) (NN_Namespace k) (FQDN route) - {route} \<and>
      distinct (map route_key rest) \<and>
      VirtualServiceBuilder_Build L \<lparr>IstioGateways = [RR_IstioGateway r]\<rparr> \<lparr>RL_Items = rest\<rparr> = Inr [v] \<and>
      vv t ?K = Some x \<and> vs_managed x = vs_managed v" if "rest \<noteq> []"
    using F(1,2,5) that by blast
  ultimately show ?thesis unfolding last using D by (cases "rest = []") (simp_all only: if_True if_False simp_thms, blast+)
qed simp

text \<open>The instance: the remaining route of the FQDN states a weight of 30 only, so it cannot be built.\<close>

definition route1_unbalanced :: Route where
  "route1_unbalanced = sample_route ''route-guid-1'' ''/path0/deeper'' [sample_dest ''dest-3'' (Some 30)]"

lemma unbalanced_key [simp]: "route_key route1_unbalanced = sample_key\<lparr>NN_Name := ''route-guid-1''\<rparr>"
  "FQDN route1_unbalanced = sample_fqdn"
  by (simp_all add: route1_unbalanced_def) (simp add: sample_route_def sample_meta_def zero_ObjectMeta_def meta_key_def sample_key_def)

lemma unbalanced_invalid: "RS_Destinations (R_Spec route1_unbalanced) \<noteq> []"
  "\<not> valid_weights (RS_Destinations (R_Spec route1_unbalanced))"
  by (simp_all add: route1_unbalanced_def sample_route_def sample_dest_def valid_weights_def weights_of_def
      IstioExpectedWeight_def)

lemma sample_sharing_unbalanced:
  assumes "route_key r = sample_key" and "FQDN r = sample_fqdn"
  shows "routes_sharing (mem_routes (sample_cluster [r, route1_unbalanced])) (NN_Namespace sample_key) sample_fqdn
    = {r, route1_unbalanced}"
proof -
  have ns: "OM_Namespace (R_ObjectMeta x) = NN_Namespace (route_key x)" for x :: Route by simp
  have "sample_key\<lparr>NN_Name := ''route-guid-1''\<rparr> \<noteq> sample_key" by (simp add: sample_key_def)
  with assms show ?thesis by (auto simp: routes_sharing_mem ns sample_cluster_def simp del: meta_key_sel)
qed

lemma unbalanced_Build:
  "route1_unbalanced \<in> set items \<Longrightarrow> \<not> is_ok (VirtualServiceBuilder_Build go_lib b \<lparr>RL_Items = items\<rparr>)"
  using unbalanced_invalid unfolding golib.Build_ok_iff by auto

lemma unbalanced_rest:
  assumes "set rest = routes_sharing (mem_routes (sample_cluster [route0_deleted, route1_unbalanced]))
    (NN_Namespace sample_key) sample_fqdn - {route0_deleted}"
  shows "rest \<noteq> []" and "VirtualServiceBuilder_Build go_lib b \<lparr>RL_Items = rest\<rparr> \<noteq> Inr vs"
proof -
  have "route1_unbalanced \<noteq> route0_deleted"
    by (auto simp: sample_key_def dest!: arg_cong [where f = route_key])
  then have mem: "route1_unbalanced \<in> set rest" using assms by (simp add: sample_sharing_unbalanced)
  then show "rest \<noteq> []" by auto
  from unbalanced_Build [OF mem, of b] show "VirtualServiceBuilder_Build go_lib b \<lparr>RL_Items = rest\<rparr> \<noteq> Inr vs" by auto
qed

theorem deletion_retry_safe_witness:
  "\<exists>e t. run_state (Reconcile go_lib sample_reconciler sample_req) (sample_cluster [route0_deleted, route1_unbalanced]) = (Inl e, t) \<and>
     mem_routes t sample_key = Some route0_deleted"
proof -
  let ?c = "sample_cluster [route0_deleted, route1_unbalanced]"
  let ?others = "routes_sharing (mem_routes ?c) (NN_Namespace sample_key) sample_fqdn - {route0_deleted}"
  obtain res t where run: "run_state (Reconcile go_lib sample_reconciler sample_req) ?c = (res, t)" by fastforce
  have "res \<noteq> Inr x" for x
  proof
    assume "res = Inr x"
    with run have "mem.cleaned_up go_lib ''istio-ingress'' sample_key route0_deleted ?c t"
      using mem.Reconcile_deleted_ok(1) [of go_lib sample_reconciler sample_req ?c x t sample_key route0_deleted] by simp
    then show False
      by (rule mem.cleaned_upE) (use unbalanced_rest in auto)
  qed
  then obtain e where e: "res = Inl e" by (cases res) blast+
  have "?others \<noteq> {}" using unbalanced_rest(1) [of "[]"] by auto
  with deletion_retry_safe [OF mem_api _ run [unfolded e], of sample_key route0_deleted]
  have "mem_routes t = mem_routes ?c \<or> (\<exists>rest v. set rest = ?others \<and>
      VirtualServiceBuilder_Build go_lib \<lparr>IstioGateways = [''istio-ingress'']\<rparr> \<lparr>RL_Items = rest\<rparr> = Inr [v])"
    by auto
  then have "mem_routes t = mem_routes ?c" using unbalanced_rest(2) by blast
  with run e show ?thesis by simp
qed

section \<open>Errors\<close>

text \<open>
  C15. When the routes sharing the FQDN of a route that is not being deleted, in its namespace, cannot
  be built (they disagree on being internal, or one has invalid weights), reconciling that route ends
  in an error and changes no VirtualService: traffic keeps flowing by the last accepted state.
\<close>

theorem unbuildable_keeps_virtual_services:
  assumes "kube_api C rv sv vv" and "RR_Client r = C" and "ext_lib L"
    and "run_state (Reconcile L r req) s = (res, t)" and "k = Req_NamespacedName req"
    and "rv s k = Some route" and "OM_DeletionTimestamp (R_ObjectMeta route) = None"
    and "\<not> routable (routes_sharing (rv s) (NN_Namespace k) (FQDN route))"
  shows "\<not> is_ok res \<and> vv t = vv s"
proof -
  have bad: "\<not> is_ok (VirtualServiceBuilder_Build L \<lparr>IstioGateways = [RR_IstioGateway r]\<rparr> \<lparr>RL_Items = items\<rparr>)"
    if items: "set items = routes_sharing (rv s) (NN_Namespace k) (FQDN route)" for items
  proof
    assume "is_ok (VirtualServiceBuilder_Build L \<lparr>IstioGateways = [RR_IstioGateway r]\<rparr> \<lparr>RL_Items = items\<rparr>)"
    moreover have "\<forall>x \<in> set items. FQDN x = FQDN route"
      using items kube_api.routes_sharing_namespace [OF assms(1)] by blast
    ultimately have "routable (set items)" by (rule Build_routable [OF assms(3)])
    with assms(8) items show False by simp
  qed
  note hyps = assms(1,4,2,5,6,7)
  show ?thesis
    using kube_api.Reconcile_unbuildable_fails [OF hyps bad] kube_api.Reconcile_unbuildable_vss [OF hyps bad] by blast
qed

theorem unbuildable_keeps_virtual_services_witness:
  "\<exists>e t. run_state (Reconcile go_lib sample_reconciler sample_req) (sample_cluster [route0, route1_unbalanced]) = (Inl e, t) \<and>
     mem_vss t = Map.empty"
proof -
  let ?c = "sample_cluster [route0, route1_unbalanced]"
  obtain res t where run: "run_state (Reconcile go_lib sample_reconciler sample_req) ?c = (res, t)" by fastforce
  have "\<not> routable (routes_sharing (mem_routes ?c) (NN_Namespace sample_key) sample_fqdn)"
    using unbalanced_invalid by (simp add: sample_sharing_unbalanced routable_def)
  with unbuildable_keeps_virtual_services [OF mem_api _ golib.ext_lib_axioms run, of sample_key route0]
  have "\<not> is_ok res \<and> mem_vss t = mem_vss ?c" by simp
  moreover have "mem_vss ?c = Map.empty" by (simp add: sample_cluster_def fun_eq_iff)
  ultimately show ?thesis using run by (cases res) auto
qed

text \<open>
  For every client: when the route cannot be read, nothing else is called; a missing route is a
  success with no requeue, any other error is returned.
\<close>

lemma reconcile_get_fails:
  assumes "run_state (Get_Route (RR_Client r) (Req_NamespacedName req)) s = (Inl e, t)"
  shows "run_state (Reconcile L r req) s = (if e = Err NotFoundError then Inr empty_Result else Inl e, t)"
  using assms by (simp add: Reconcile_def IgnoreNotFound_def IsNotFound_def)

text \<open>
  C30. For every client: when no other route shares the FQDN, the error of reading the VirtualService
  is dropped whatever it is, and the finalizer is removed all the same. A transient failure of that
  read leaves the VirtualService behind with nobody to delete it.
\<close>

theorem finalizer_removed_despite_read_error:
  assumes "run_state (List_Services (RR_Client r) \<lparr>LO_InNamespace = NN_Namespace (Req_NamespacedName req),
      LO_MatchingField = (serviceOwnerKey, OM_UID (R_ObjectMeta route))\<rparr>) s = (Inr xs, s1)"
    and "run_state (deleteServiceList r xs) s1 = (Inr (), s2)"
    and "removeRouteFromRouteList route routes = []"
    and "run_state (Get_VirtualService (RR_Client r) (vs_key_of (NN_Namespace (Req_NamespacedName req)) (FQDN route))) s2
           = (Inl (Err e), s3)"
    and "run_state (Update_Route (RR_Client r) (RemoveFinalizer (RR_Client r) route finalizerName)) s3 = (Inr x, t)"
  shows "run_state (finalizeRouteForDeletion L r req route routes) s = (Inr (), t)"
  using assms
  by (simp add: finalizeRouteForDeletion_def deleteVirtualServiceFor_def Let_def vs_key_of_def)

text \<open>The instance: a client whose reads of VirtualServices time out, and a VirtualService to delete.\<close>

definition flaky_reconciler :: "Cluster RouteReconciler" where
  "flaky_reconciler = sample_reconciler\<lparr>RR_Client :=
     mem_client\<lparr>Get_VirtualService := \<lambda>k. go_fail (Err (ApiError ''timeout''))\<rparr>\<rparr>"

definition orphan :: VirtualService where
  "orphan = zero_VirtualService\<lparr>VS_ObjectMeta := zero_ObjectMeta\<lparr>
     OM_Name := VirtualServiceName sample_fqdn, OM_Namespace := ''workload-namespace''\<rparr>\<rparr>"

lemma orphan_key: "vs_key orphan = vs_key_of (NN_Namespace sample_key) sample_fqdn"
  by (simp add: orphan_def meta_key_def vs_key_of_def sample_key_def)

theorem finalizer_removed_despite_read_error_witness:
  "\<exists>t. run_state (finalizeRouteForDeletion go_lib flaky_reconciler sample_req route0_deleted \<lparr>RL_Items = [route0_deleted]\<rparr>)
         ((sample_cluster [route0_deleted])\<lparr>CL_VirtualServices := [orphan]\<rparr>) = (Inr (), t) \<and>
     mem_routes t sample_key = None \<and>
     mem_vss t (vs_key_of (NN_Namespace sample_key) sample_fqdn) = Some orphan"
proof -
  let ?c = "(sample_cluster [route0_deleted])\<lparr>CL_VirtualServices := [orphan]\<rparr>"
  let ?c' = "?c\<lparr>CL_Services := []\<rparr>"
  let ?opts = "\<lparr>LO_InNamespace = NN_Namespace sample_key, LO_MatchingField = (serviceOwnerKey, OM_UID (R_ObjectMeta route0_deleted))\<rparr>"
  have sel [simp]: "Req_NamespacedName sample_req = sample_key"
    "RR_Client flaky_reconciler = mem_client\<lparr>Get_VirtualService := \<lambda>k. go_fail (Err (ApiError ''timeout''))\<rparr>"
    by (simp_all add: flaky_reconciler_def)
  have 1: "run_state (List_Services (RR_Client flaky_reconciler) ?opts) ?c = (Inr [stale_service], ?c)"
    by (simp add: mem_client_def mem_list_services_def sample_cluster_def stale_service_def indexServiceByOwner_def
        route0_deleted_def sample_key_def zero_Service_def sample_defs)
  have 2: "run_state (deleteServiceList flaky_reconciler [stale_service]) ?c = (Inr (), ?c')"
    by (simp add: deleteServiceList_def mem_client_def mem_delete_def sample_cluster_def obj_del_def if_ok_def)
  have 3: "removeRouteFromRouteList route0_deleted \<lparr>RL_Items = [route0_deleted]\<rparr> = []"
    by (simp add: removeRouteFromRouteList_def)
  have 4: "run_state (Get_VirtualService (RR_Client flaky_reconciler)
      (vs_key_of (NN_Namespace sample_key) (FQDN route0_deleted))) ?c' = (Inl (Err (ApiError ''timeout'')), ?c')"
    by simp
  have key: "route_key (with_finalizers route0_deleted []) = sample_key"
    using sample_route_keys(4) by (simp add: with_finalizers_def meta_key_def)
  have 5: "run_state (Update_Route (RR_Client flaky_reconciler)
        (RemoveFinalizer (RR_Client flaky_reconciler) route0_deleted finalizerName)) ?c'
      = (Inr (with_finalizers route0_deleted []), ?c'\<lparr>CL_Routes := []\<rparr>)"
    using key by (simp add: mem_client_def mem_update_route_def sample_cluster_def obj_del_def)
      (simp add: with_finalizers_def based_on_def)
  have "run_state (finalizeRouteForDeletion go_lib flaky_reconciler sample_req route0_deleted \<lparr>RL_Items = [route0_deleted]\<rparr>) ?c
      = (Inr (), ?c'\<lparr>CL_Routes := []\<rparr>)"
    by (rule finalizer_removed_despite_read_error [OF _ 2 3 _ 5]) (use 1 4 in simp_all)
  then show ?thesis by (simp add: orphan_key)
qed

end
