(* ===== verification/Float64.thy ===== *)
theory Float64
  imports Prelude Complex_Main
begin

text \<open>
  Go's \<^verbatim>\<open>float64\<close> as far as the program computes with it: conversion from integers, products and
  quotients, comparison. A finite value is a fraction; infinities and NaN arise from division by
  zero. The sign of zero is left out: the program never divides by a computed zero, and no
  comparison sees it.
\<close>

section \<open>Rounding\<close>

text \<open>
  A positive rational \<open>p / q\<close> rounded to 53 bits, ties to even, again as a pair. The exponents in
  \<open>[-160..160]\<close> cover every value here: operands are at most \<open>2 ^ 63\<close> and scales at most \<open>10 ^ 19\<close>, so
  neither overflow nor subnormal numbers occur.
\<close>

definition scaled :: "int \<Rightarrow> int \<Rightarrow> int \<Rightarrow> int \<times> int" where
  "scaled p q e = (if 0 \<le> e then (p, q * 2 ^ nat e) else (p * 2 ^ nat (- e), q))"

definition round_half_even :: "int \<Rightarrow> int \<Rightarrow> int" where
  "round_half_even p q =
     (let d = p div q; r = p mod q
      in if 2 * r < q \<or> (2 * r = q \<and> even d) then d else d + 1)"

definition float64 :: "int \<times> int \<Rightarrow> int \<times> int" where
  "float64 x =
     (case x of (p, q) \<Rightarrow>
        (case find (\<lambda>e. case scaled p q e of (p', q') \<Rightarrow> 2 ^ 52 * q' \<le> p' \<and> p' < 2 ^ 53 * q') [-160..160] of
           None \<Rightarrow> (0, 1)
         | Some e \<Rightarrow>
             (case scaled p q e of (p', q') \<Rightarrow>
                let m = round_half_even p' q'
                in if 0 \<le> e then (m * 2 ^ nat e, 1) else (m, 2 ^ nat (- e)))))"

definition float_mult :: "int \<times> int \<Rightarrow> int \<times> int \<Rightarrow> int \<times> int" where
  "float_mult x y = float64 (fst x * fst y, snd x * snd y)"

section \<open>Values\<close>

datatype go_float = NaN | Infinite bool | Finite int int

definition round64 :: "int \<Rightarrow> int \<Rightarrow> go_float" where
  "round64 p q =
     (if p = 0 then Finite 0 1
      else if 0 < p then (case float64 (p, q) of (a, b) \<Rightarrow> Finite a b)
      else (case float64 (- p, q) of (a, b) \<Rightarrow> Finite (- a) b))"

definition float_of_int :: "go_int \<Rightarrow> go_float" where
  "float_of_int x = round64 (sint x) 1"

text \<open>In \<open>Infinite neg\<close> the flag is the sign.\<close>

fun float_div :: "go_float \<Rightarrow> go_float \<Rightarrow> go_float" where
  "float_div (Finite p q) (Finite p' q') =
     (if p' = 0 then if p = 0 then NaN else Infinite (p < 0)
      else if 0 < p' then round64 (p * q') (q * p')
      else round64 (- p * q') (q * - p'))"
| "float_div (Infinite neg) (Finite p q) = Infinite (neg \<noteq> (p < 0))"
| "float_div (Finite p q) (Infinite neg) = Finite 0 1"
| "float_div _ _ = NaN"

fun float_times :: "go_float \<Rightarrow> go_float \<Rightarrow> go_float" where
  "float_times (Finite p q) (Finite p' q') = round64 (p * p') (q * q')"
| "float_times (Infinite neg) (Finite p q) = (if p = 0 then NaN else Infinite (neg \<noteq> (p < 0)))"
| "float_times (Finite p q) (Infinite neg) = (if p = 0 then NaN else Infinite (neg \<noteq> (p < 0)))"
| "float_times (Infinite neg) (Infinite neg') = Infinite (neg \<noteq> neg')"
| "float_times _ _ = NaN"

fun float_less :: "go_float \<Rightarrow> go_float \<Rightarrow> bool" where
  "float_less (Finite p q) (Finite p' q') \<longleftrightarrow> p * q' < p' * q"
| "float_less (Infinite neg) (Finite p q) \<longleftrightarrow> neg"
| "float_less (Finite p q) (Infinite neg) \<longleftrightarrow> \<not> neg"
| "float_less (Infinite neg) (Infinite neg') \<longleftrightarrow> neg \<and> \<not> neg'"
| "float_less _ _ \<longleftrightarrow> False"

text \<open>
  Conversion to \<^verbatim>\<open>int\<close> truncates. For infinities, NaN and values beyond 64 bits Go leaves the result to
  the implementation: there is no value.
\<close>

definition int_of_float :: "int \<Rightarrow> go_int option" where
  "int_of_float x = (if - (2 ^ 63) \<le> x \<and> x < 2 ^ 63 then Some (word_of_int x) else None)"

fun int_Trunc :: "go_float \<Rightarrow> go_int option" where
  "int_Trunc (Finite p q) = int_of_float (if 0 \<le> p then p div q else - (- p div q))"
| "int_Trunc _ = None"

section \<open>Lemmas\<close>

text \<open>The real number a finite value stands for.\<close>

abbreviation ratio :: "int \<times> int \<Rightarrow> real" where
  "ratio x \<equiv> real_of_int (fst x) / real_of_int (snd x)"

lemma ratio_scaled:
  assumes "0 < q" and "scaled p q e = (p', q')"
  shows "0 < q'" and "ratio (p', q') = ratio (p, q) * 2 powi (- e)"
proof -
  show "0 < q'" using assms by (auto simp: scaled_def split: if_splits)
  show "ratio (p', q') = ratio (p, q) * 2 powi (- e)"
  proof (cases "0 \<le> e")
    case True
    with assms(2) have "p' = p" "q' = q * 2 ^ nat e" by (simp_all add: scaled_def)
    moreover have "(2 :: real) powi (- e) = 1 / 2 ^ nat e" using True by (simp add: power_int_def power_one_over)
    ultimately show ?thesis by simp
  next
    case False
    with assms(2) have "p' = p * 2 ^ nat (- e)" "q' = q" by (auto simp: scaled_def)
    moreover have "(2 :: real) powi (- e) = 2 ^ nat (- e)" using False by (simp add: power_int_def)
    ultimately show ?thesis by simp
  qed
qed

lemma scaled_bounds:
  assumes "0 < q" and "scaled p q e = (p', q')"
  shows "2 ^ 52 * q' \<le> p' \<and> p' < 2 ^ 53 * q' \<longleftrightarrow>
    2 ^ 52 \<le> ratio (p, q) * 2 powi (- e) \<and> ratio (p, q) * 2 powi (- e) < 2 ^ 53"
proof -
  note S = ratio_scaled [OF assms]
  have "2 ^ 52 * q' \<le> p' \<longleftrightarrow> 2 ^ 52 \<le> ratio (p', q')"
  proof -
    have "2 ^ 52 * q' \<le> p' \<longleftrightarrow> real_of_int (2 ^ 52 * q') \<le> real_of_int p'" by (rule of_int_le_iff [symmetric])
    with S(1) show ?thesis by (simp add: pos_le_divide_eq)
  qed
  moreover have "p' < 2 ^ 53 * q' \<longleftrightarrow> ratio (p', q') < 2 ^ 53"
  proof -
    have "p' < 2 ^ 53 * q' \<longleftrightarrow> real_of_int p' < real_of_int (2 ^ 53 * q')" by (rule of_int_less_iff [symmetric])
    with S(1) show ?thesis by (simp add: pos_divide_less_eq)
  qed
  ultimately show ?thesis unfolding S(2) by blast
qed

text \<open>A ratio of operands of at most 64 bits has its exponent within the bounds of the search.\<close>

lemma exponent_exists:
  fixes x :: real
  assumes "1 / 2 ^ 64 \<le> x" and "x \<le> 2 ^ 64"
  shows "\<exists>e \<in> {-160..160}. 2 ^ 52 \<le> x * 2 powi (- e) \<and> x * 2 powi (- e) < 2 ^ 53"
proof -
  let ?e = "\<lambda>n. int n - 160"
  let ?y = "\<lambda>n. x * 2 powi (- ?e n)"
  have halve: "?y (Suc n) = ?y n / 2" for n
  proof -
    have "(2 :: real) powi (- ?e n) = 2 powi (- ?e (Suc n) + 1)" by simp
    also have "\<dots> = 2 powi (- ?e (Suc n)) * 2" by (subst power_int_add_1) simp_all
    finally show ?thesis by simp
  qed
  from assms(1) have "1 / 2 ^ 64 * 2 ^ 160 \<le> x * 2 ^ 160" by (rule mult_right_mono) simp
  then have low: "2 ^ 53 \<le> ?y 0" by simp
  from assms(2) have high: "?y 320 < 2 ^ 53" by (simp add: power_int_def power_one_over)
  define n where "n = (LEAST n. ?y n < 2 ^ 53)"
  have n: "?y n < 2 ^ 53" "n \<le> 320"
    unfolding n_def using LeastI [of "\<lambda>n. ?y n < 2 ^ 53", OF high] Least_le [of "\<lambda>n. ?y n < 2 ^ 53", OF high] by blast+
  with low have "n \<noteq> 0" by (metis not_le)
  then obtain m where m: "n = Suc m" by (cases n) auto
  then have "\<not> ?y m < 2 ^ 53" unfolding n_def by (metis lessI not_less_Least)
  then have "2 ^ 53 \<le> ?y m" by (simp only: not_less)
  then have "2 ^ 53 / 2 \<le> ?y m / 2" by (rule divide_right_mono) simp
  then have "2 ^ 52 \<le> ?y n" unfolding m halve by simp
  with n show ?thesis by (intro bexI [of _ "?e n"]) auto
qed

lemma round_half_even_error:
  assumes "0 < q"
  shows "\<bar>real_of_int (round_half_even p q) - ratio (p, q)\<bar> \<le> 1 / 2"
proof -
  have eq: "ratio (p, q) = real_of_int (p div q) + real_of_int (p mod q) / real_of_int q"
  proof -
    have "real_of_int p = real_of_int (p div q * q + p mod q)" by simp
    then have "real_of_int p = real_of_int (p div q) * real_of_int q + real_of_int (p mod q)"
      by (simp only: of_int_add of_int_mult)
    with assms show ?thesis by (simp add: add_divide_distrib)
  qed
  have r: "0 \<le> p mod q" "p mod q < q" using assms by simp_all
  show ?thesis
  proof (cases "round_half_even p q = p div q")
    case True
    then have "2 * (p mod q) \<le> q" using r by (auto simp: round_half_even_def Let_def split: if_splits)
    then have "real_of_int (2 * (p mod q)) \<le> real_of_int q" by (simp only: of_int_le_iff)
    with assms have "real_of_int (p mod q) / real_of_int q \<le> 1 / 2" by (simp add: divide_le_eq)
    with r assms True eq show ?thesis by simp
  next
    case False
    then have up: "round_half_even p q = p div q + 1" and "q \<le> 2 * (p mod q)"
      by (auto simp: round_half_even_def Let_def split: if_splits)
    then have "real_of_int q \<le> real_of_int (2 * (p mod q))" by (simp only: of_int_le_iff)
    with assms have "1 / 2 \<le> real_of_int (p mod q) / real_of_int q" by (simp add: le_divide_eq)
    moreover have "real_of_int (p mod q) / real_of_int q \<le> 1" using r(2) assms by (simp add: divide_le_eq less_imp_le)
    ultimately show ?thesis using up eq by simp
  qed
qed

text \<open>
  What rounding does: the result is a multiple \<open>m\<close> of a power of two with 53 significant bits, and
  \<open>m\<close> is within one half of the exact value at that scale.
\<close>

lemma float64_spec:
  assumes "0 < q" and "1 / 2 ^ 64 \<le> ratio (p, q)" and "ratio (p, q) \<le> 2 ^ 64"
  obtains e m where "ratio (float64 (p, q)) = real_of_int m * 2 powi e" and "0 < snd (float64 (p, q))"
    and "2 ^ 52 \<le> ratio (p, q) * 2 powi (- e)" and "ratio (p, q) * 2 powi (- e) < 2 ^ 53"
    and "\<bar>real_of_int m - ratio (p, q) * 2 powi (- e)\<bar> \<le> 1 / 2"
proof -
  define P where "P = (\<lambda>e. case scaled p q e of (p', q') \<Rightarrow> 2 ^ 52 * q' \<le> p' \<and> p' < 2 ^ 53 * q')"
  have P: "P e \<longleftrightarrow> 2 ^ 52 \<le> ratio (p, q) * 2 powi (- e) \<and> ratio (p, q) * 2 powi (- e) < 2 ^ 53" for e
    using scaled_bounds [OF assms(1)] unfolding P_def by (cases "scaled p q e") simp
  from exponent_exists [OF assms(2,3)] obtain e0 where "e0 \<in> {-160..160}" "P e0" unfolding P by blast
  then have "find P [-160..160] \<noteq> None" unfolding find_None_iff set_upto by blast
  then obtain e where e: "find P [-160..160] = Some e" by blast
  then have in_range: "P e" unfolding find_Some_iff by blast
  obtain p' q' where s: "scaled p q e = (p', q')" by fastforce
  note S = ratio_scaled [OF assms(1) s]
  let ?m = "round_half_even p' q'"
  have f: "float64 (p, q) = (if 0 \<le> e then (?m * 2 ^ nat e, 1) else (?m, 2 ^ nat (- e)))"
    unfolding float64_def P_def [symmetric] prod.case e option.case s Let_def ..
  have "ratio (float64 (p, q)) = real_of_int ?m * 2 powi e"
    by (cases "0 \<le> e") (simp_all add: f power_int_def power_one_over)
  moreover have "0 < snd (float64 (p, q))" by (simp add: f)
  moreover have "\<bar>real_of_int ?m - ratio (p, q) * 2 powi (- e)\<bar> \<le> 1 / 2"
    using round_half_even_error [OF S(1), of p'] unfolding S(2) .
  ultimately show ?thesis using that in_range unfolding P by blast
qed

text \<open>Rounding is exact on integers below \<open>2 ^ 53\<close>.\<close>

lemma close_integers: "\<bar>real_of_int m - real_of_int n\<bar> \<le> 1 / 2 \<Longrightarrow> m = n"
  by linarith

lemma float64_exact:
  assumes "0 < q" and "ratio (p, q) = real_of_int n" and "0 < n" and "n < 2 ^ 53"
  shows "ratio (float64 (p, q)) = real_of_int n" and "0 < snd (float64 (p, q))"
proof -
  have n: "1 \<le> real_of_int n" "real_of_int n < 2 ^ 53"
    using assms(3) by simp (metis assms(4) of_int_less_numeral_power_cancel_iff)
  then have range: "1 / 2 ^ 64 \<le> ratio (p, q)" "ratio (p, q) \<le> 2 ^ 64" unfolding assms(2) by simp_all
  obtain e m where f: "ratio (float64 (p, q)) = real_of_int m * 2 powi e" "0 < snd (float64 (p, q))"
      "2 ^ 52 \<le> real_of_int n * 2 powi (- e)" "\<bar>real_of_int m - real_of_int n * 2 powi (- e)\<bar> \<le> 1 / 2"
    by (rule float64_spec [OF assms(1) range, unfolded assms(2)])
  have "e \<le> 0"
  proof (rule ccontr)
    assume "\<not> e \<le> 0"
    then have "(2 :: real) powi (- e) \<le> 2 powi (- 1)" by (intro power_int_increasing) simp_all
    then have "real_of_int n * 2 powi (- e) \<le> real_of_int n * (1 / 2)" using n by (intro mult_left_mono) auto
    with f(3) n(2) show False by simp
  qed
  then have int: "real_of_int n * 2 powi (- e) = real_of_int (n * 2 ^ nat (- e))" by (simp add: power_int_def)
  with f(4) have "m = n * 2 ^ nat (- e)" by (simp only: close_integers)
  then have "real_of_int m = real_of_int n * 2 powi (- e)" by (simp only: int)
  with f(1) show "ratio (float64 (p, q)) = real_of_int n" by (simp add: power_int_minus)
  show "0 < snd (float64 (p, q))" by (rule f(2))
qed

text \<open>A proper fraction of integers below \<open>2 ^ 53\<close> does not round up to one.\<close>

lemma proper_fraction_bounds:
  assumes "0 < a" and "a < b" and "b < 2 ^ 53"
  shows "1 / 2 ^ 53 \<le> real_of_int a / real_of_int b" and "real_of_int a / real_of_int b \<le> 1 - 1 / 2 ^ 53"
proof -
  let ?x = "real_of_int a / real_of_int b"
  have b: "1 \<le> real_of_int b" "real_of_int b < 2 ^ 53"
    using assms(1,2) by simp (metis assms(3) of_int_less_numeral_power_cancel_iff)
  have gap: "1 / 2 ^ 53 \<le> 1 / real_of_int b" using b by (intro divide_left_mono) auto
  have "1 / real_of_int b \<le> ?x" using assms(1) b by (intro divide_right_mono) auto
  then show "1 / 2 ^ 53 \<le> ?x" using gap by linarith
  have "real_of_int a + 1 \<le> real_of_int b" using assms(2) by linarith
  then have "?x + 1 / real_of_int b \<le> 1" using b by (simp add: add_divide_distrib [symmetric])
  then show "?x \<le> 1 - 1 / 2 ^ 53" using gap by linarith
qed

lemma float64_fraction:
  assumes "0 < q" and "ratio (p, q) = real_of_int a / real_of_int b" and "0 < a" and "a < b" and "b < 2 ^ 53"
  shows "0 < ratio (float64 (p, q))" and "ratio (float64 (p, q)) < 1" and "0 < snd (float64 (p, q))"
    and "\<bar>ratio (float64 (p, q)) - real_of_int a / real_of_int b\<bar> \<le> 1 / 2 ^ 53"
proof -
  let ?x = "real_of_int a / real_of_int b"
  note low = proper_fraction_bounds(1) [OF assms(3-5)] and high = proper_fraction_bounds(2) [OF assms(3-5)]
  have "(1 :: real) / 2 ^ 64 \<le> 1 / 2 ^ 53" "1 - 1 / 2 ^ 53 \<le> (2 :: real) ^ 64" by simp_all
  with low high have range: "1 / 2 ^ 64 \<le> ratio (p, q)" "ratio (p, q) \<le> 2 ^ 64"
    unfolding assms(2) by linarith+
  obtain e m where f: "ratio (float64 (p, q)) = real_of_int m * 2 powi e" "0 < snd (float64 (p, q))"
      "2 ^ 52 \<le> ?x * 2 powi (- e)" "?x * 2 powi (- e) < 2 ^ 53" "\<bar>real_of_int m - ?x * 2 powi (- e)\<bar> \<le> 1 / 2"
    by (rule float64_spec [OF assms(1) range, unfolded assms(2)])
  have "e \<le> - 53"
  proof (rule ccontr)
    assume "\<not> e \<le> - 53"
    then have "(2 :: real) powi (- e) \<le> 2 powi 52" by (intro power_int_increasing) simp_all
    moreover have "0 \<le> ?x" using assms(3,4) by simp
    ultimately have "?x * 2 powi (- e) \<le> ?x * 2 powi 52" by (rule mult_left_mono)
    also have "\<dots> \<le> (1 - 1 / 2 ^ 53) * 2 powi 52" using high by (rule mult_right_mono) simp
    also have "\<dots> < 2 ^ 52" by simp
    finally show False using f(3) by linarith
  qed
  then have step: "(2 :: real) powi e \<le> 2 powi (- 53)" by (intro power_int_increasing) simp_all
  have pos: "0 < (2 :: real) powi e" by simp
  have inv: "?x * 2 powi (- e) * 2 powi e = ?x" by (simp add: power_int_minus)
  have "real_of_int m * 2 powi e - ?x = (real_of_int m - ?x * 2 powi (- e)) * 2 powi e"
    by (simp only: left_diff_distrib inv)
  then have "\<bar>real_of_int m * 2 powi e - ?x\<bar> = \<bar>real_of_int m - ?x * 2 powi (- e)\<bar> * 2 powi e"
    by (simp add: abs_mult)
  also have "\<dots> \<le> 1 / 2 * 2 powi (- 53)" using f(5) step pos by (intro mult_mono) auto
  finally have err: "\<bar>real_of_int m * 2 powi e - ?x\<bar> \<le> 1 / 2 * (1 / 2 ^ 53)" by (simp add: power_int_def power_one_over)
  have near: "0 < y \<and> y < 1 \<and> \<bar>y - x\<bar> \<le> d"
    if "d \<le> x" "x \<le> 1 - d" "\<bar>y - x\<bar> \<le> 1 / 2 * d" "0 < d" for x y d :: real
    using that by linarith
  from near [OF low high err] f(1) have "0 < ratio (float64 (p, q)) \<and> ratio (float64 (p, q)) < 1 \<and>
      \<bar>ratio (float64 (p, q)) - ?x\<bar> \<le> 1 / 2 ^ 53" by simp
  then show "0 < ratio (float64 (p, q))" and "ratio (float64 (p, q)) < 1"
    and "\<bar>ratio (float64 (p, q)) - ?x\<bar> \<le> 1 / 2 ^ 53" by blast+
  show "0 < snd (float64 (p, q))" by (rule f(2))
qed

text \<open>The real number of a finite value, and the ratio of two exact integers.\<close>

fun float_real :: "go_float \<Rightarrow> real option" where
  "float_real (Finite p q) = Some (ratio (p, q))"
| "float_real _ = None"

lemma round64_pos: "0 < p \<Longrightarrow> round64 p q = Finite (fst (float64 (p, q))) (snd (float64 (p, q)))"
  by (simp add: round64_def split: prod.split)

lemma float_of_int_exact:
  assumes "0 \<le> sint x" and "sint x < 2 ^ 53"
  obtains a b where "float_of_int x = Finite a b" and "0 < b" and "a = sint x * b"
proof (cases "sint x = 0")
  case True
  then show ?thesis using that [of 0 1] by (simp add: float_of_int_def round64_def)
next
  case False
  with assms have pos: "0 < sint x" by simp
  obtain a b where ab: "float64 (sint x, 1) = (a, b)" by fastforce
  from float64_exact [of 1 "sint x" "sint x"] pos assms(2) ab have "ratio (a, b) = real_of_int (sint x)" "0 < b" by auto
  then have "real_of_int a = real_of_int (sint x * b)" by (simp add: divide_eq_eq)
  then have "a = sint x * b" by (simp only: of_int_eq_iff)
  with that [of a b] \<open>0 < b\<close> ab pos show ?thesis by (simp add: float_of_int_def round64_def)
qed

lemma float_div_counts:
  fixes x y :: go_int
  assumes "0 \<le> i" and "i \<le> j" and "j < 2 ^ 53" and ints: "sint x = i" "sint y = j"
  defines "r \<equiv> float_div (float_of_int x) (float_of_int y)"
  shows "j = 0 \<Longrightarrow> r = NaN"
    and "0 < j \<Longrightarrow> \<exists>p q. r = Finite p q \<and> 0 < q \<and>
      \<bar>ratio (p, q) - real_of_int (i) / real_of_int (j)\<bar> \<le> 1 / 2 ^ 53 \<and>
      0 \<le> ratio (p, q) \<and> ratio (p, q) \<le> 1 \<and> (ratio (p, q) = 1 \<longleftrightarrow> i = j) \<and>
      (ratio (p, q) = 0 \<longleftrightarrow> i = 0)"
proof -
  obtain a b where a: "float_of_int x = Finite a b" "0 < b" "a = i * b"
    by (rule float_of_int_exact [of x, unfolded ints]) (use assms in simp_all)
  obtain c d where c: "float_of_int y = Finite c d" "0 < d" "c = j * d"
    by (rule float_of_int_exact [of y, unfolded ints]) (use assms in simp_all)
  show "j = 0 \<Longrightarrow> r = NaN" using assms(1,2) a c by (simp add: r_def)
  assume y: "0 < j"
  then have "0 < c" using c by simp
  then have r: "r = round64 (a * d) (b * c)" using a(1) c(1) by (simp add: r_def)
  have den: "0 < b * c" using a(2) \<open>0 < c\<close> by simp
  have quo: "ratio (a * d, b * c) = real_of_int (i) / real_of_int (j)"
    using a(2,3) c(2,3) y by (simp add: divide_eq_eq)
  consider "i = 0" | "0 < i" "i < j" | "0 < i" "i = j" using assms(1,2) by linarith
  then show "\<exists>p q. r = Finite p q \<and> 0 < q \<and>
      \<bar>ratio (p, q) - real_of_int (i) / real_of_int (j)\<bar> \<le> 1 / 2 ^ 53 \<and>
      0 \<le> ratio (p, q) \<and> ratio (p, q) \<le> 1 \<and> (ratio (p, q) = 1 \<longleftrightarrow> i = j) \<and>
      (ratio (p, q) = 0 \<longleftrightarrow> i = 0)"
  proof cases
    case 1
    with r a(3) y show ?thesis by (simp add: round64_def)
  next
    case 2
    then have "0 < a * d" using a(2,3) c(2) by simp
    then have "r = Finite (fst (float64 (a * d, b * c))) (snd (float64 (a * d, b * c)))"
      unfolding r by (rule round64_pos)
    moreover note float64_fraction [OF den quo 2 assms(3)]
    ultimately show ?thesis using 2 by (auto simp del: fst_conv snd_conv)
  next
    case 3
    then have "0 < a * d" using a(2,3) c(2) by simp
    then have "r = Finite (fst (float64 (a * d, b * c))) (snd (float64 (a * d, b * c)))"
      unfolding r by (rule round64_pos)
    moreover have "ratio (float64 (a * d, b * c)) = real_of_int 1" "0 < snd (float64 (a * d, b * c))"
      using float64_exact [OF den, of "a * d" 1] quo 3 by simp_all
    ultimately show ?thesis using 3 by auto
  qed
qed

end
