(* ===== verification/Config.thy ===== *)
theory Config
  imports Float64
begin

text \<open>
  \<^verbatim>\<open>routecontroller/cfg/config.go\<close>: the controller's configuration from environment variables. The
  resync interval is \<^verbatim>\<open>time.ParseDuration\<close> of the variable with an \<^verbatim>\<open>s\<close> appended; the function is
  Go 1.15's, the version the image is built with, over 64-bit integers with its overflow checks, and
  with the one floating-point expression, the fraction of a unit, evaluated in binary64. Its error
  texts are dropped, because \<^verbatim>\<open>Load\<close> replaces them.
\<close>

section \<open>time.ParseDuration\<close>

definition maxInt64 :: go_int where
  "maxInt64 = 2 ^ 63 - 1"

definition isDigit :: "char \<Rightarrow> bool" where
  "isDigit c \<longleftrightarrow> CHR ''0'' \<le> c \<and> c \<le> CHR ''9''"

definition digit :: "char \<Rightarrow> go_int" where
  "digit c = word_of_nat (of_char c) - word_of_nat (of_char (CHR ''0''))"

fun leadingInt :: "go_int \<Rightarrow> string \<Rightarrow> (go_int \<times> string) option" where
  "leadingInt x [] = Some (x, [])"
| "leadingInt x (c # cs) =
     (if \<not> isDigit c then Some (x, c # cs)
      else if sint x > sint (go_quot maxInt64 10) then None
      else let x' = x * 10 + digit c
           in if sint x' < 0 then None else leadingInt x' cs)"

text \<open>After an overflow the remaining digits are skipped.\<close>

fun leadingFraction :: "go_int \<Rightarrow> int \<Rightarrow> bool \<Rightarrow> string \<Rightarrow> go_int \<times> int \<times> string" where
  "leadingFraction x scale overflow [] = (x, scale, [])"
| "leadingFraction x scale overflow (c # cs) =
     (if \<not> isDigit c then (x, scale, c # cs)
      else if overflow then leadingFraction x scale True cs
      else if sint x > sint (go_quot maxInt64 10) then leadingFraction x scale True cs
      else let y = x * 10 + digit c
           in if sint y < 0 then leadingFraction x scale True cs
              else leadingFraction y (scale * 10) False cs)"

definition unitMap :: "string \<rightharpoonup> go_int" where
  "unitMap = map_of [
     (''ns'', 1),
     (''us'', 1000),
     ([CHR 0xC2, CHR 0xB5, CHR ''s''], 1000),
     ([CHR 0xCE, CHR 0xBC, CHR ''s''], 1000),
     (''ms'', 1000000),
     (''s'', 1000000000),
     (''m'', 60000000000),
     (''h'', 3600000000000)]"

text \<open>\<^verbatim>\<open>int64(float64(f) * (float64(unit) / scale))\<close>\<close>

definition fraction_of :: "go_int \<Rightarrow> go_int \<Rightarrow> int \<Rightarrow> go_int" where
  "fraction_of f unit scale =
     (case float_mult (float64 (sint f, 1)) (float64 (sint unit, scale)) of (p, q) \<Rightarrow> word_of_int (p div q))"

text \<open>One round of the loop: the component's value in nanoseconds and what is left of the string.\<close>

definition unit_char :: "char \<Rightarrow> bool" where
  "unit_char c \<longleftrightarrow> \<not> (c = CHR ''.'' \<or> isDigit c)"

definition consume_fraction :: "string \<Rightarrow> go_int \<times> int \<times> string \<times> bool" where
  "consume_fraction s =
     (case s of
        [] \<Rightarrow> (0, 1, [], False)
      | c # cs \<Rightarrow>
          if c = CHR ''.''
          then (case leadingFraction 0 1 False cs of (f, scale, s') \<Rightarrow> (f, scale, s', length cs \<noteq> length s'))
          else (0, 1, s, False))"

definition duration_part :: "string \<Rightarrow> (go_int \<times> string) option" where
  "duration_part s =
     (if \<not> (hd s = CHR ''.'' \<or> isDigit (hd s)) then None
      else (case leadingInt 0 s of
        None \<Rightarrow> None
      | Some (v, s1) \<Rightarrow>
          (case consume_fraction s1 of (f, scale, s2, post) \<Rightarrow>
             if length s = length s1 \<and> \<not> post then None
             else let u = takeWhile unit_char s2; s3 = dropWhile unit_char s2
                  in if u = [] then None
                     else (case unitMap u of
                       None \<Rightarrow> None
                     | Some unit \<Rightarrow>
                         if sint v > sint (go_quot maxInt64 unit) then None
                         else let v = v * unit
                              in if sint f > 0
                                 then let v = v + fraction_of f unit scale
                                      in if sint v < 0 then None else Some (v, s3)
                                 else Some (v, s3)))))"

lemma leadingInt_length: "leadingInt x s = Some (v, s') \<Longrightarrow> length s' \<le> length s"
  by (induction x s rule: leadingInt.induct) (auto simp: Let_def split: if_splits)

lemma leadingFraction_length: "leadingFraction x k b s = (f, k', s') \<Longrightarrow> length s' \<le> length s"
  by (induction x k b s rule: leadingFraction.induct) (auto simp: Let_def split: if_splits)

lemma consume_fraction_length: "consume_fraction s = (f, k, s', b) \<Longrightarrow> length s' \<le> length s"
  by (auto simp: consume_fraction_def split: list.splits if_splits prod.splits dest: leadingFraction_length)

lemma duration_part_length:
  assumes "duration_part s = Some (v, s')"
  shows "length s' < length s"
proof -
  from assms obtain v1 s1 f k s2 b where "leadingInt 0 s = Some (v1, s1)" and "consume_fraction s1 = (f, k, s2, b)"
    and u: "takeWhile unit_char s2 \<noteq> []" and s': "s' = dropWhile unit_char s2"
    by (auto simp: duration_part_def Let_def split: if_splits option.splits prod.splits)
  then have "length s2 \<le> length s" using leadingInt_length consume_fraction_length le_trans by blast
  moreover have "length (takeWhile unit_char s2) + length s' = length s2"
    unfolding s' by (metis length_append takeWhile_dropWhile_id)
  moreover have "0 < length (takeWhile unit_char s2)" using u by simp
  ultimately show ?thesis by linarith
qed

function ParseDuration_loop :: "go_int \<Rightarrow> string \<Rightarrow> go_int option" where
  "ParseDuration_loop d s =
     (if s = [] then Some d
      else (case duration_part s of
        None \<Rightarrow> None
      | Some (v, s') \<Rightarrow> if sint (d + v) < 0 then None else ParseDuration_loop (d + v) s'))"
  by pat_completeness auto

termination
  by (relation "measure (\<lambda>(d, s). length s)") (auto dest: duration_part_length)

declare ParseDuration_loop.simps [simp del]

definition ParseDuration :: "string \<Rightarrow> go_int option" where
  "ParseDuration s =
     (let neg = (s \<noteq> [] \<and> hd s = CHR ''-'');
          s = (if s \<noteq> [] \<and> (hd s = CHR ''-'' \<or> hd s = CHR ''+'') then tl s else s)
      in if s = ''0'' then Some 0
         else if s = [] then None
         else map_option (\<lambda>d. if neg then - d else d) (ParseDuration_loop 0 s))"

section \<open>Load\<close>

record ConfigIstio =
  CI_Gateway :: string

record Config =
  C_ResyncInterval :: go_int
  C_Istio :: ConfigIstio
  C_LeaderElectionNamespace :: string

definition Load :: "(string \<rightharpoonup> string) \<Rightarrow> Config go_result" where
  "Load LookupEnv =
     (case LookupEnv ''ISTIO_GATEWAY_NAME'' of
        None \<Rightarrow> Inl (Err (ErrorString ''ISTIO_GATEWAY_NAME not configured''))
      | Some gateway \<Rightarrow>
          (case LookupEnv ''LEADER_ELECTION_NAMESPACE'' of
             None \<Rightarrow> Inl (Err (ErrorString ''LEADER_ELECTION_NAMESPACE not configured''))
           | Some namespace \<Rightarrow>
               (case LookupEnv ''RESYNC_INTERVAL'' of
                  Some resync_interval \<Rightarrow>
                    (case ParseDuration (resync_interval @ ''s'') of
                       None \<Rightarrow> Inl (Err (ErrorString ''could not parse the RESYNC_INTERVAL duration''))
                     | Some d \<Rightarrow> Inr \<lparr>C_ResyncInterval = d, C_Istio = \<lparr>CI_Gateway = gateway\<rparr>,
                         C_LeaderElectionNamespace = namespace\<rparr>)
                | None \<Rightarrow> Inr \<lparr>C_ResyncInterval = 30 * 1000000000, C_Istio = \<lparr>CI_Gateway = gateway\<rparr>,
                    C_LeaderElectionNamespace = namespace\<rparr>)))"

section \<open>Lemmas: whole numbers\<close>

definition digit_value :: "char \<Rightarrow> nat" where
  "digit_value c = of_char c - 48"

definition digits_value :: "nat \<Rightarrow> string \<Rightarrow> nat" where
  "digits_value n ds = foldl (\<lambda>a c. a * 10 + digit_value c) n ds"

lemma digits_value_simps [simp]:
  "digits_value n [] = n" "digits_value n (c # cs) = digits_value (n * 10 + digit_value c) cs"
  by (simp_all add: digits_value_def)

lemma digits_value_ge: "n \<le> digits_value n ds"
proof (induction ds arbitrary: n)
  case (Cons c ds)
  have "n \<le> n * 10 + digit_value c" by simp
  also have "\<dots> \<le> digits_value (n * 10 + digit_value c) ds" by (rule Cons.IH)
  finally show ?case by simp
qed simp

lemma isDigit_iff: "isDigit c \<longleftrightarrow> 48 \<le> (of_char c :: nat) \<and> (of_char c :: nat) \<le> 57"
  by (simp add: isDigit_def less_eq_char_def)

lemma digit_eq: "isDigit c \<Longrightarrow> digit c = word_of_nat (digit_value c)"
  by (simp add: digit_def digit_value_def isDigit_iff of_nat_diff)

lemma digit_value_le: "isDigit c \<Longrightarrow> digit_value c \<le> 9"
  by (auto simp: digit_value_def isDigit_iff)

lemma sint_word_of_nat_large:
  assumes "2 ^ 63 \<le> n" and "n < 2 ^ 64"
  shows "sint (word_of_nat n :: go_int) < 0"
proof -
  have "word_of_nat n = (word_of_int (int n - 2 ^ 64) :: go_int)"
    by (simp add: word_of_int_eq_iff take_bit_eq_mod)
  moreover have "sint (word_of_int (int n - 2 ^ 64) :: go_int) = int n - 2 ^ 64"
    using assms by (subst signed_of_int) (simp add: signed_take_bit_int_eq_self)
  ultimately have "sint (word_of_nat n :: go_int) = int n - 2 ^ 64" by (simp only:)
  with assms show ?thesis by simp
qed

lemma quot_max: "sint (go_quot maxInt64 10) = 922337203685477580" "sint (go_quot maxInt64 1000000000) = 9223372036"
  by code_simp+

text \<open>The digits of a whole number, followed by something that is not a digit.\<close>

lemma leadingInt_digits:
  assumes "list_all isDigit ds" and "rest = [] \<or> \<not> isDigit (hd rest)" and "n < 2 ^ 63"
  shows "leadingInt (word_of_nat n) (ds @ rest) =
    (if digits_value n ds < 2 ^ 63 then Some (word_of_nat (digits_value n ds), rest) else None)"
  using assms(1,3)
proof (induction ds arbitrary: n)
  case Nil
  with assms(2) show ?case by (cases rest) auto
next
  case (Cons c ds)
  define Y where "Y = n * 10 + digit_value c"
  from Cons.prems have c: "isDigit c" "digit_value c \<le> 9" by (simp_all add: digit_value_le)
  have y: "word_of_nat n * 10 + digit c = (word_of_nat Y :: go_int)" by (simp add: digit_eq c(1) Y_def)
  have ge: "Y \<le> digits_value Y ds" by (rule digits_value_ge)
  have step: "leadingInt (word_of_nat n) (c # ds @ rest) =
      (if 922337203685477580 < n \<or> sint (word_of_nat Y :: go_int) < 0 then None else leadingInt (word_of_nat Y) (ds @ rest))"
    using c(1) Cons.prems(2) by (simp add: quot_max y sint_word_of_nat_small Let_def)
  show ?case
  proof (cases "Y < 2 ^ 63")
    case True
    then have "n \<le> 922337203685477580" by (simp add: Y_def)
    moreover have "\<not> sint (word_of_nat Y :: go_int) < 0" using True by (simp add: sint_word_of_nat_small)
    ultimately show ?thesis using step Cons.IH [of Y] Cons.prems(1) True by (simp flip: Y_def)
  next
    case False
    have "922337203685477580 < n \<or> sint (word_of_nat Y :: go_int) < 0"
    proof (cases "922337203685477580 < n")
      case small: False
      then have "Y < 2 ^ 64" using c(2) by (simp add: Y_def)
      with False show ?thesis using sint_word_of_nat_large [of Y] by simp
    qed simp
    with step False ge show ?thesis by (simp flip: Y_def)
  qed
qed

lemma duration_part_seconds:
  assumes "list_all isDigit ds" and "ds \<noteq> []"
  shows "duration_part (ds @ ''s'') =
    (if digits_value 0 ds \<le> 9223372036 then Some (word_of_nat (digits_value 0 ds * 1000000000), []) else None)"
proof -
  have hd: "isDigit (hd (ds @ ''s''))" using assms by (cases ds) simp_all
  have s: "\<not> isDigit CHR ''s''" by (simp add: isDigit_def less_eq_char_def)
  have l: "leadingInt 0 (ds @ ''s'') =
      (if digits_value 0 ds < 2 ^ 63 then Some (word_of_nat (digits_value 0 ds), ''s'') else None)"
    using leadingInt_digits [OF assms(1), of "''s''" 0] s by simp
  have u: "takeWhile unit_char ''s'' = ''s''" "dropWhile unit_char ''s'' = []" "unitMap ''s'' = Some 1000000000"
    using s by (simp_all add: unit_char_def unitMap_def)
  show ?thesis
    using assms(2) hd l u by (auto simp: duration_part_def consume_fraction_def Let_def quot_max sint_word_of_nat_small)
qed

lemma ParseDuration_loop_seconds:
  assumes "list_all isDigit ds" and "ds \<noteq> []"
  shows "ParseDuration_loop 0 (ds @ ''s'') =
    (if digits_value 0 ds \<le> 9223372036 then Some (word_of_nat (digits_value 0 ds * 1000000000)) else None)"
proof (cases "digits_value 0 ds \<le> 9223372036")
  case True
  define N where "N = digits_value 0 ds * 1000000000"
  have "N < 2 ^ 63" using True by (simp add: N_def)
  then have "\<not> sint (word_of_nat N :: go_int) < 0" by (simp add: sint_word_of_nat_small)
  moreover have "duration_part (ds @ ''s'') = Some (word_of_nat N, [])"
    unfolding N_def using duration_part_seconds [OF assms] True by simp
  ultimately show ?thesis
    using True by (simp add: ParseDuration_loop.simps [of 0 "ds @ _"] ParseDuration_loop.simps [of _ "[]"] flip: N_def)
next
  case False
  with duration_part_seconds [OF assms] show ?thesis
    by (simp add: ParseDuration_loop.simps [of 0 "ds @ _"])
qed

lemma ParseDuration_seconds:
  assumes "list_all isDigit ds" and "ds \<noteq> []"
  shows "ParseDuration (ds @ ''s'') = ParseDuration_loop 0 (ds @ ''s'')"
    and "ParseDuration (''-'' @ ds @ ''s'') = map_option uminus (ParseDuration_loop 0 (ds @ ''s''))"
proof -
  have "hd (ds @ ''s'') \<noteq> CHR ''-''" "hd (ds @ ''s'') \<noteq> CHR ''+''"
    using assms by (cases ds; auto simp: isDigit_iff)+
  moreover have "ds @ ''s'' \<noteq> ''0''" using assms by (cases ds) auto
  ultimately show "ParseDuration (ds @ ''s'') = ParseDuration_loop 0 (ds @ ''s'')"
    and "ParseDuration (''-'' @ ds @ ''s'') = map_option uminus (ParseDuration_loop 0 (ds @ ''s''))"
    by (simp_all add: ParseDuration_def Let_def option.map_ident)
qed

section \<open>Properties\<close>

text \<open>
  C27. With the two required variables set and RESYNC_INTERVAL a string of decimal digits, the
  configuration loads exactly when the number is at most 9223372036, and the resync interval is then
  that many seconds, with no wrap-around; a larger number is refused.
\<close>

theorem resync_interval_seconds:
  assumes "env ''ISTIO_GATEWAY_NAME'' = Some gateway" and "env ''LEADER_ELECTION_NAMESPACE'' = Some namespace"
    and "env ''RESYNC_INTERVAL'' = Some ds" and "list_all isDigit ds" and "ds \<noteq> []"
  shows "if digits_value 0 ds \<le> 9223372036
    then \<exists>c. Load env = Inr c \<and> sint (C_ResyncInterval c) = int (digits_value 0 ds) * 1000000000 \<and>
           CI_Gateway (C_Istio c) = gateway \<and> C_LeaderElectionNamespace c = namespace
    else Load env = Inl (Err (ErrorString ''could not parse the RESYNC_INTERVAL duration''))"
proof (cases "digits_value 0 ds \<le> 9223372036")
  case True
  define N where "N = digits_value 0 ds * 1000000000"
  have "N < 2 ^ 63" using True by (simp add: N_def)
  then have "sint (word_of_nat N :: go_int) = int (digits_value 0 ds) * 1000000000"
    unfolding sint_word_of_nat_small [OF \<open>N < 2 ^ 63\<close>] by (simp add: N_def)
  moreover have "ParseDuration (ds @ ''s'') = Some (word_of_nat N)"
    using True by (simp only: ParseDuration_seconds [OF assms(4,5)] ParseDuration_loop_seconds [OF assms(4,5)] N_def if_True)
  ultimately show ?thesis using True assms(1-3) by (simp add: Load_def)
next
  case False
  then have "ParseDuration (ds @ ''s'') = None"
    by (simp only: ParseDuration_seconds [OF assms(4,5)] ParseDuration_loop_seconds [OF assms(4,5)] if_False)
  with False assms(1-3) show ?thesis by (simp add: Load_def)
qed

definition sample_env :: "string \<Rightarrow> string \<rightharpoonup> string" where
  "sample_env interval = [''ISTIO_GATEWAY_NAME'' \<mapsto> ''some-gateway'',
     ''LEADER_ELECTION_NAMESPACE'' \<mapsto> ''my-good-namespace'', ''RESYNC_INTERVAL'' \<mapsto> interval]"

theorem resync_interval_seconds_witness:
  "(\<exists>c. Load (sample_env ''15'') = Inr c \<and> sint (C_ResyncInterval c) = 15000000000) \<and>
   Load (sample_env ''9223372037'') = Inl (Err (ErrorString ''could not parse the RESYNC_INTERVAL duration''))"
proof -
  have v: "digits_value 0 ''15'' = 15" "digits_value 0 ''9223372037'' = 9223372037"
    by (simp_all add: digit_value_def)
  show ?thesis
    using resync_interval_seconds [of "sample_env ''15''" "''some-gateway''" "''my-good-namespace''" "''15''"]
      resync_interval_seconds [of "sample_env ''9223372037''" "''some-gateway''" "''my-good-namespace''" "''9223372037''"]
    unfolding v(1,2) by (auto simp: sample_env_def isDigit_iff)
qed

text \<open>
  A negative RESYNC_INTERVAL is accepted: a minus sign before the digits gives the negated
  interval.
\<close>

theorem negative_resync_accepted:
  assumes "env ''ISTIO_GATEWAY_NAME'' = Some gateway" and "env ''LEADER_ELECTION_NAMESPACE'' = Some namespace"
    and "env ''RESYNC_INTERVAL'' = Some (''-'' @ ds)" and "list_all isDigit ds" and "ds \<noteq> []"
    and "digits_value 0 ds \<le> 9223372036"
  shows "\<exists>c. Load env = Inr c \<and> sint (C_ResyncInterval c) = - int (digits_value 0 ds) * 1000000000"
proof -
  define N where "N = digits_value 0 ds * 1000000000"
  have N: "N < 2 ^ 63" using assms(6) by (simp add: N_def)
  have "sint (- word_of_nat N :: go_int) = sint (word_of_int (- int N) :: go_int)" by simp
  also have "\<dots> = - int N"
    using N by (subst signed_of_int) (simp add: signed_take_bit_int_eq_self)
  finally have "sint (- word_of_nat N :: go_int) = - int (digits_value 0 ds) * 1000000000" by (simp add: N_def)
  moreover have "ParseDuration (''-'' @ ds @ ''s'') = Some (- word_of_nat N)"
    unfolding ParseDuration_seconds(2) [OF assms(4,5)] ParseDuration_loop_seconds [OF assms(4,5)] N_def using assms(6) by simp
  ultimately show ?thesis using assms(1-3) by (simp add: Load_def)
qed

theorem negative_resync_accepted_witness:
  "\<exists>c. Load (sample_env ''-15'') = Inr c \<and> sint (C_ResyncInterval c) = - 15000000000"
  using negative_resync_accepted [of "sample_env ''-15''" "''some-gateway''" "''my-good-namespace''" "''15''"]
  by (simp add: sample_env_def digit_value_def isDigit_iff)

text \<open>
  C32. Load fails exactly when the gateway name or the leader election namespace is missing or the
  interval is set and does not parse; it never panics, and an interval that is not set at all is 30
  seconds.
\<close>

theorem load_errors:
  "(\<not> is_ok (Load env) \<longleftrightarrow> env ''ISTIO_GATEWAY_NAME'' = None \<or> env ''LEADER_ELECTION_NAMESPACE'' = None \<or>
      (\<exists>v. env ''RESYNC_INTERVAL'' = Some v \<and> ParseDuration (v @ ''s'') = None)) \<and>
   \<not> is_panic (Load env) \<and>
   (is_ok (Load env) \<and> env ''RESYNC_INTERVAL'' = None \<longrightarrow>
      (\<exists>c. Load env = Inr c \<and> sint (C_ResyncInterval c) = 30 * 10 ^ 9))"
  by (auto simp: Load_def split: option.splits)

theorem load_errors_witness:
  "\<exists>c. Load [''ISTIO_GATEWAY_NAME'' \<mapsto> ''g'', ''LEADER_ELECTION_NAMESPACE'' \<mapsto> ''n''] = Inr c \<and>
     sint (C_ResyncInterval c) = 30 * 10 ^ 9"
  using load_errors [of "[''ISTIO_GATEWAY_NAME'' \<mapsto> ''g'', ''LEADER_ELECTION_NAMESPACE'' \<mapsto> ''n'']"]
  by auto

end
