(* ===== verification/BusyApi.thy ===== *)
theory BusyApi
  imports SampleCluster
begin

text \<open>
  The API in memory in company: before every call of the controller the users' next batch of actions
  takes place. It interprets \<open>shared_api\<close>, so its laws can hold while routes change under a running
  reconcile.
\<close>

section \<open>Users' actions\<close>

datatype user_action =
  CreateRoute Route
| EditRoute NamespacedName RouteSpec "string list"
| DeleteRoute NamespacedName nat

text \<open>An edit sets the spec and the finalizers, but for this controller's.\<close>

definition edited :: "Route \<Rightarrow> RouteSpec \<Rightarrow> string list \<Rightarrow> Route" where
  "edited r spec fs =
     with_finalizers (r\<lparr>R_Spec := spec\<rparr>) (fs @ filter (\<lambda>f. f = finalizerName) (OM_Finalizers (R_ObjectMeta r)))"

fun user_act :: "user_action \<Rightarrow> Cluster \<Rightarrow> Cluster" where
  "user_act (CreateRoute r) c =
     (if mem_routes c (route_key r) = None then CL_Routes_update (obj_put route_key r) c else c)"
| "user_act (EditRoute k spec fs) c =
     (case mem_routes c k of
        None \<Rightarrow> c
      | Some r \<Rightarrow>
          let r' = edited r spec fs
          in CL_Routes_update
               (if OM_DeletionTimestamp (R_ObjectMeta r') \<noteq> None \<and> OM_Finalizers (R_ObjectMeta r') = []
                then obj_del route_key k else obj_put route_key r') c)"
| "user_act (DeleteRoute k now) c =
     (case mem_routes c k of
        None \<Rightarrow> c
      | Some r \<Rightarrow>
          CL_Routes_update
            (if OM_Finalizers (R_ObjectMeta r) = [] then obj_del route_key k
             else obj_put route_key (r\<lparr>R_ObjectMeta := (R_ObjectMeta r)\<lparr>OM_DeletionTimestamp := Some now\<rparr>\<rparr>)) c)"

lemma user_act_step:
  "mem_services (user_act a c) = mem_services c \<and> user_step\<^sup>*\<^sup>* (mem_routes c) (mem_routes (user_act a c))"
proof (cases a)
  case (CreateRoute r)
  then show ?thesis by (auto simp: obj_get_put intro!: r_into_rtranclp user_step.create)
next
  case (EditRoute k spec fs)
  show ?thesis
  proof (cases "mem_routes c k")
    case None
    with EditRoute show ?thesis by simp
  next
    case (Some r)
    let ?r' = "edited r spec fs"
    let ?after = "(mem_routes c)(k :=
        (if OM_DeletionTimestamp (R_ObjectMeta ?r') \<noteq> None \<and> OM_Finalizers (R_ObjectMeta ?r') = [] then None else Some ?r'))"
    from Some obj_get_key have key: "route_key ?r' = k" by (fastforce simp: edited_def with_finalizers_def meta_key_def)
    have "user_step (mem_routes c) ?after"
      by (rule user_step.edit [of "mem_routes c" k r ?r', OF Some key]) (simp_all add: edited_def with_finalizers_def)
    moreover have "mem_routes (user_act a c) = ?after"
      using EditRoute Some key by (simp add: Let_def obj_get_put obj_get_del)
    moreover have "mem_services (user_act a c) = mem_services c" using EditRoute Some by (simp add: Let_def)
    ultimately show ?thesis by (metis r_into_rtranclp)
  qed
next
  case (DeleteRoute k now)
  show ?thesis
  proof (cases "mem_routes c k")
    case None
    with DeleteRoute show ?thesis by simp
  next
    case (Some r)
    with obj_get_key have "route_key (r\<lparr>R_ObjectMeta := (R_ObjectMeta r)\<lparr>OM_DeletionTimestamp := Some now\<rparr>\<rparr>) = k"
      by (fastforce simp: meta_key_def)
    moreover note user_step.mark_deleted [of "mem_routes c" k r now] user_step.delete [of "mem_routes c" k r]
    ultimately show ?thesis using DeleteRoute Some by (auto simp: obj_get_put obj_get_del)
  qed
qed

lemma user_acts_steps:
  "mem_services (fold user_act as c) = mem_services c \<and> user_step\<^sup>*\<^sup>* (mem_routes c) (mem_routes (fold user_act as c))"
  by (induction as arbitrary: c) (auto simp: user_act_step intro: rtranclp_trans [OF conjunct2 [OF user_act_step]])

section \<open>The busy cluster\<close>

record Busy =
  B_Cluster :: Cluster
  B_Pending :: "user_action list list"

abbreviation busy_routes :: "Busy \<Rightarrow> NamespacedName \<Rightarrow> Route option" where
  "busy_routes b \<equiv> mem_routes (B_Cluster b)"

abbreviation busy_services :: "Busy \<Rightarrow> NamespacedName \<Rightarrow> Service option" where
  "busy_services b \<equiv> mem_services (B_Cluster b)"

fun next_batch :: "user_action list list \<Rightarrow> user_action list \<times> user_action list list" where
  "next_batch [] = ([], [])"
| "next_batch (as # rest) = (as, rest)"

definition interleave :: "(Cluster, 'a) go_action \<Rightarrow> (Busy, 'a) go_action" where
  "interleave m = State (\<lambda>b.
     let (as, rest) = next_batch (B_Pending b);
         (res, c) = run_state m (fold user_act as (B_Cluster b))
     in (res, \<lparr>B_Cluster = c, B_Pending = rest\<rparr>))"

definition busy_client :: "Busy Client" where
  "busy_client = \<lparr>
     Get_Route = (\<lambda>k. interleave (Get_Route mem_client k)),
     List_Routes = (\<lambda>opts. interleave (List_Routes mem_client opts)),
     Update_Route = (\<lambda>r. interleave (Update_Route mem_client r)),
     List_Services = (\<lambda>opts. interleave (List_Services mem_client opts)),
     Delete_Service = (\<lambda>x. interleave (Delete_Service mem_client x)),
     CreateOrUpdate_Service = (\<lambda>x f. interleave (CreateOrUpdate_Service mem_client x f)),
     Get_VirtualService = (\<lambda>k. interleave (Get_VirtualService mem_client k)),
     Delete_VirtualService = (\<lambda>v. interleave (Delete_VirtualService mem_client v)),
     CreateOrUpdate_VirtualService = (\<lambda>v f. interleave (CreateOrUpdate_VirtualService mem_client v f)),
     AddFinalizer = AddFinalizer mem_client,
     RemoveFinalizer = RemoveFinalizer mem_client\<rparr>"

lemma run_interleaveE:
  assumes "run_state (interleave m) b = (res, b')"
  obtains c where "mem_services c = busy_services b" and "user_step\<^sup>*\<^sup>* (busy_routes b) (mem_routes c)"
    and "run_state m c = (res, B_Cluster b')"
proof (rule that)
  let ?c = "fold user_act (fst (next_batch (B_Pending b))) (B_Cluster b)"
  show "mem_services ?c = busy_services b" "user_step\<^sup>*\<^sup>* (busy_routes b) (mem_routes ?c)"
    using user_acts_steps by blast+
  show "run_state m ?c = (res, B_Cluster b')"
    using assms by (auto simp: interleave_def Let_def split: prod.splits)
qed

lemma interleave_reads:
  assumes "run_state (interleave m) b = (res, b')"
    and "\<And>c t. run_state m c = (res, t) \<Longrightarrow> mem_services t = mem_services c \<and> user_step\<^sup>*\<^sup>* (mem_routes c) (mem_routes t)"
  shows "busy_services b' = busy_services b \<and> user_step\<^sup>*\<^sup>* (busy_routes b) (busy_routes b')"
  using assms(1) by (rule run_interleaveE) (auto dest!: assms(2) intro: rtranclp_trans)

lemma route_written_before:
  "user_step\<^sup>*\<^sup>* rv u \<Longrightarrow> route_written u r r' rv' \<Longrightarrow> route_written rv r r' rv'"
  unfolding route_written_def by (meson rtranclp_trans)

lemma busy_get_route:
  assumes "run_state (Get_Route busy_client k) s = (res, t)"
  shows "busy_services t = busy_services s \<and> user_step\<^sup>*\<^sup>* (busy_routes s) (busy_routes t) \<and>
    (\<forall>r. res = Inr r \<longrightarrow> route_key r = k \<and>
       (\<exists>u. u k = Some r \<and> (since_read k)\<^sup>*\<^sup>* u (busy_routes t)))"
proof -
  from assms obtain c where c: "mem_services c = busy_services s" "user_step\<^sup>*\<^sup>* (busy_routes s) (mem_routes c)"
    "run_state (Get_Route mem_client k) c = (res, B_Cluster t)" by (auto simp: busy_client_def elim: run_interleaveE)
  from mem.shared.get_route_reads [OF c(3)] c(1,2) show ?thesis by (auto intro: rtranclp_trans)
qed

lemma busy_list_services:
  assumes "run_state (List_Services busy_client \<lparr>LO_InNamespace = ns, LO_MatchingField = (serviceOwnerKey, uid)\<rparr>) s = (Inr ys, t)"
    and "busy_services s k = Some x" and "NN_Namespace k = ns" and "uid \<in> set (indexServiceByOwner x)"
  shows "k \<in> service_key ` set ys"
proof -
  from assms(1) obtain c where c: "mem_services c = busy_services s"
    "run_state (List_Services mem_client \<lparr>LO_InNamespace = ns, LO_MatchingField = (serviceOwnerKey, uid)\<rparr>) c = (Inr ys, B_Cluster t)"
    by (auto simp: busy_client_def elim: run_interleaveE)
  show ?thesis by (rule mem.shared.list_services_complete [OF c(2)]) (use assms(2-4) c(1) in simp_all)
qed

lemma busy_create_service:
  assumes "run_state (CreateOrUpdate_Service busy_client obj f) s = (op, t)"
  shows "user_step\<^sup>*\<^sup>* (busy_routes s) (busy_routes t) \<and>
    (busy_services t = busy_services s \<or>
     (\<exists>x x'. f (case busy_services s (service_key obj) of None \<Rightarrow> obj | Some y \<Rightarrow> y) = Inr x \<and>
             service_managed x' = service_managed x \<and> busy_services t = (busy_services s)(service_key obj \<mapsto> x')))"
proof -
  from assms obtain c where c: "mem_services c = busy_services s" "user_step\<^sup>*\<^sup>* (busy_routes s) (mem_routes c)"
    "run_state (CreateOrUpdate_Service mem_client obj f) c = (op, B_Cluster t)" by (auto simp: busy_client_def elim: run_interleaveE)
  from mem.shared.create_service_effect [OF c(3)] c(1,2) show ?thesis by (auto intro: rtranclp_trans)
qed

lemma busy_delete_service:
  assumes "run_state (Delete_Service busy_client y) s = (done, t)"
  shows "user_step\<^sup>*\<^sup>* (busy_routes s) (busy_routes t) \<and>
    (busy_services t = busy_services s \<or> busy_services t = (busy_services s)(service_key y := None)) \<and>
    (done = Inr () \<longrightarrow> busy_services t (service_key y) = None)"
proof -
  from assms obtain c where c: "mem_services c = busy_services s" "user_step\<^sup>*\<^sup>* (busy_routes s) (mem_routes c)"
    "run_state (Delete_Service mem_client y) c = (done, B_Cluster t)" by (auto simp: busy_client_def elim: run_interleaveE)
  from mem.shared.delete_service_effect [OF c(3)] c(1,2) show ?thesis by (auto intro: rtranclp_trans)
qed

lemma busy_update_route:
  assumes "run_state (Update_Route busy_client r) s = (upd, t)"
  shows "busy_services t = busy_services s \<and>
    (case upd of
       Inr r' \<Rightarrow> route_written (busy_routes s) r r' (busy_routes t)
     | Inl _ \<Rightarrow> user_step\<^sup>*\<^sup>* (busy_routes s) (busy_routes t) \<or> (\<exists>r'. route_written (busy_routes s) r r' (busy_routes t)))"
proof -
  from assms obtain c where c: "mem_services c = busy_services s" "user_step\<^sup>*\<^sup>* (busy_routes s) (mem_routes c)"
    "run_state (Update_Route mem_client r) c = (upd, B_Cluster t)" by (auto simp: busy_client_def elim: run_interleaveE)
  note W = route_written_before [OF c(2)]
  have "user_step\<^sup>*\<^sup>* (mem_routes c) rv \<Longrightarrow> user_step\<^sup>*\<^sup>* (busy_routes s) rv" for rv using c(2) by (rule rtranclp_trans)
  with mem.shared.update_route_effect [OF c(3)] c(1) W show ?thesis by (cases upd) (simp_all, blast+)
qed

interpretation busy: shared_api busy_client busy_routes busy_services
proof (unfold_locales, goal_cases)
  case 1
  then show ?case by (rule busy_get_route)
next
  case 4
  then show ?case by (rule busy_list_services)
next
  case 5
  then show ?case by (rule busy_create_service)
next
  case 6
  then show ?case by (rule busy_delete_service)
next
  case 10
  then show ?case by (rule busy_update_route)
qed (auto simp: busy_client_def mem.add_finalizer mem.remove_finalizer elim!: interleave_reads
      dest: mem.shared.list_routes_reads mem.shared.list_services_reads mem.shared.get_vs_reads
        mem.shared.create_vs_reads mem.shared.delete_vs_reads)

section \<open>Samples\<close>

text \<open>
  Company for one reconcile of the first route: the route is created just before it is read, and
  deleted right after the finalizer was stored, before its Services are made.
\<close>

definition busy_reconciler :: "Busy RouteReconciler" where
  "busy_reconciler = \<lparr>RR_Client = busy_client, RR_IstioGateway = ''istio-ingress'', RR_ResyncInterval = 30000000000\<rparr>"

definition busy_start :: Busy where
  "busy_start = \<lparr>B_Cluster = \<lparr>CL_Routes = [route1], CL_Services = [], CL_VirtualServices = []\<rparr>,
     B_Pending = [[CreateRoute route0], [], [], [DeleteRoute sample_key 1600000000]]\<rparr>"

definition busy_finalized :: Busy where
  "busy_finalized = \<lparr>B_Cluster = \<lparr>CL_Routes = [route0_finalized, route1], CL_Services = [], CL_VirtualServices = []\<rparr>,
     B_Pending = [[DeleteRoute sample_key 1600000000]]\<rparr>"

lemmas busy_defs = busy_reconciler_def busy_client_def interleave_def mem_client_def mem_get_def mem_list_routes_def
  mem_list_services_def obj_put_def obj_del_def with_finalizers_def mem_update_route_def based_on_def
  mem_create_or_update_def mem_delete_def

lemma busy_services_made:
  "\<exists>t. run_state (reconcileServices go_lib busy_reconciler sample_req route0_finalized) busy_finalized = (Inr (), t) \<and>
     busy_services t \<lparr>NN_Namespace = ''workload-namespace'', NN_Name = ''s-dest-0''\<rparr> \<noteq> None \<and>
     busy_routes t sample_key = Some route0_deleted \<and> B_Pending t = []"
  by (simp add: busy_finalized_def reconcileServices_def busy_defs ServiceBuilder_Build_def buildService_def reconcileService_def
      ServiceBuilder_BuildMutateFunction_def key_only_Service_def zero_Service_def findServicesForDeletion_eq deleteServiceList_def
      meta_key_def serviceName_def sample_defs route0_finalized_def route0_deleted_def sample_key_def indexServiceByOwner_def
      run_if_ok)

lemma busy_run:
  assumes "run_state (reconcileServices go_lib busy_reconciler sample_req route0_finalized) busy_finalized = (Inr (), t)"
  shows "\<exists>items. run_state (Reconcile go_lib busy_reconciler sample_req) busy_start =
     run_state (if_ok (reconcileVirtualServices go_lib busy_reconciler sample_req \<lparr>RL_Items = items\<rparr>)
       (\<lambda>_. go_return \<lparr>Res_RequeueAfter = Some 30000000000\<rparr>)) t"
proof -
  let ?s1 = "\<lparr>B_Cluster = \<lparr>CL_Routes = [route0, route1], CL_Services = [], CL_VirtualServices = []\<rparr>,
     B_Pending = [[], [], [DeleteRoute sample_key 1600000000]]\<rparr>"
  have names: "sample_key\<lparr>NN_Name := ''route-guid-1''\<rparr> \<noteq> sample_key" by (simp add: sample_key_def)
  have get: "run_state (Get_Route busy_client sample_key) busy_start = (Inr route0, ?s1)"
    using names by (simp add: busy_start_def busy_defs)
  have list: "\<exists>items. run_state (List_Routes busy_client opts) ?s1 = (Inr items, ?s1\<lparr>B_Pending := tl (B_Pending ?s1)\<rparr>)" for opts
    by (simp add: busy_defs)
  have ensure: "run_state (ensureFinalizer busy_reconciler route0) (?s1\<lparr>B_Pending := tl (B_Pending ?s1)\<rparr>) =
      (Inr route0_finalized, busy_finalized)"
    using names by (simp add: ensureFinalizer_def busy_defs route0_finalized_def busy_finalized_def meta_key_def)
      (simp add: sample_defs)
  have [simp]: "RR_Client busy_reconciler = busy_client" "RR_ResyncInterval busy_reconciler = 30000000000"
    by (simp_all add: busy_reconciler_def)
  from list obtain items where "run_state (List_Routes busy_client \<lparr>LO_InNamespace = NN_Namespace sample_key,
      LO_MatchingField = (fqdnFieldKey, FQDN route0)\<rparr>) ?s1 = (Inr items, ?s1\<lparr>B_Pending := tl (B_Pending ?s1)\<rparr>)" by blast
  with get ensure assms show ?thesis by (intro exI [of _ items]) (simp add: Reconcile_def)
qed

text \<open>The reconcile makes the Service of a route that is by then being deleted.\<close>

lemma busy_outcome:
  obtains outcome t where "run_state (Reconcile go_lib busy_reconciler sample_req) busy_start = (outcome, t)"
    and "busy_services t \<lparr>NN_Namespace = ''workload-namespace'', NN_Name = ''s-dest-0''\<rparr> \<noteq> None"
    and "guarded (busy_routes t) ''workload-namespace'' ''route-guid-0-uid''"
proof -
  from busy_services_made obtain s where
    s: "run_state (reconcileServices go_lib busy_reconciler sample_req route0_finalized) busy_finalized = (Inr (), s)"
    "busy_services s \<lparr>NN_Namespace = ''workload-namespace'', NN_Name = ''s-dest-0''\<rparr> \<noteq> None"
    "busy_routes s sample_key = Some route0_deleted" by blast
  from busy_run [OF s(1)] obtain items where run: "run_state (Reconcile go_lib busy_reconciler sample_req) busy_start =
     run_state (if_ok (reconcileVirtualServices go_lib busy_reconciler sample_req \<lparr>RL_Items = items\<rparr>)
       (\<lambda>_. go_return \<lparr>Res_RequeueAfter = Some 30000000000\<rparr>)) s" by blast
  obtain outcome t where t: "run_state (Reconcile go_lib busy_reconciler sample_req) busy_start = (outcome, t)" by fastforce
  have client: "RR_Client busy_reconciler = busy_client" by (simp add: busy_reconciler_def)
  have calm: "busy_services t = busy_services s" "user_step\<^sup>*\<^sup>* (busy_routes s) (busy_routes t)"
    using busy.calmD [OF busy.calm_if_ok [OF busy.calm_reconcileVirtualServices [OF client] busy.calm_return(1)] t [unfolded run]]
    by simp_all
  have "guarded (busy_routes s) ''workload-namespace'' ''route-guid-0-uid''"
    unfolding guarded_def using s(3)
    by (intro exI [of _ sample_key] exI [of _ route0_deleted]) (simp add: sample_key_def route0_deleted_def sample_defs)
  from users_guarded [OF calm(2) this] t s(2) calm(1) that show ?thesis by metis
qed

end
