(* ===== verification/ClusterSteps.thy ===== *)
theory ClusterSteps
  imports BusyApi
begin

text \<open>
  The controller among its users, as a step relation: reconciles of any route, in any order and with
  any outcome, and users creating, editing and deleting routes between and, as the API is a
  \<open>shared_api\<close>, during them. The invariant of all reachable states is the reason for the finalizer: a
  Service never outlives the last route that owns it.
\<close>

section \<open>Steps\<close>

inductive cluster_step ::
    "Lib \<Rightarrow> 's RouteReconciler \<Rightarrow> ('s \<Rightarrow> NamespacedName \<Rightarrow> Route option) \<Rightarrow> ('s \<Rightarrow> NamespacedName \<Rightarrow> Service option) \<Rightarrow>
     's \<Rightarrow> 's \<Rightarrow> bool"
  for L r rv sv where
  reconcile: "run_state (Reconcile L r req) s = (outcome, t) \<Longrightarrow> cluster_step L r rv sv s t"
| user: "user_step (rv s) (rv t) \<Longrightarrow> sv t = sv s \<Longrightarrow> cluster_step L r rv sv s t"

inductive reachable ::
    "Lib \<Rightarrow> 's RouteReconciler \<Rightarrow> ('s \<Rightarrow> NamespacedName \<Rightarrow> Route option) \<Rightarrow> ('s \<Rightarrow> NamespacedName \<Rightarrow> Service option) \<Rightarrow>
     's \<Rightarrow> 's \<Rightarrow> bool"
  for L r rv sv s0 where
  start: "reachable L r rv sv s0 s0"
| step: "reachable L r rv sv s0 s \<Longrightarrow> cluster_step L r rv sv s t \<Longrightarrow> reachable L r rv sv s0 t"

section \<open>Where the cache matters\<close>

text \<open>
  The invariant needs the lists of Services to show what the controller itself has made. With a cache
  that does not yet show the Service of a route, finalizing the route leaves that Service behind.
\<close>

definition lagging_reconciler :: "Cluster RouteReconciler" where
  "lagging_reconciler = sample_reconciler\<lparr>RR_Client := mem_client\<lparr>List_Services := \<lambda>opts. go_return []\<rparr>\<rparr>"

lemma lagging_list_orphans:
  "\<exists>t. run_state (finalizeRouteForDeletion go_lib lagging_reconciler sample_req route0_deleted \<lparr>RL_Items = [route0_deleted]\<rparr>)
         (sample_cluster [route0_deleted]) = (Inr (), t) \<and>
     mem_routes t = Map.empty \<and> mem_services t (service_key stale_service) = Some stale_service \<and>
     \<not> no_orphans (mem_routes t) (mem_services t)"
proof -
  let ?c = "sample_cluster [route0_deleted]"
  let ?t = "?c\<lparr>CL_Routes := []\<rparr>"
  have client: "RR_Client lagging_reconciler = mem_client\<lparr>List_Services := \<lambda>opts. go_return []\<rparr>"
    by (simp add: lagging_reconciler_def)
  have "route_key (with_finalizers route0_deleted []) = sample_key"
    using sample_route_keys(4) by (simp add: with_finalizers_def meta_key_def)
  then have update: "run_state (Update_Route mem_client (RemoveFinalizer mem_client route0_deleted finalizerName)) ?c =
      (Inr (with_finalizers route0_deleted []), ?t)"
    by (simp add: mem_client_def mem_update_route_def sample_cluster_def obj_del_def)
      (simp add: with_finalizers_def based_on_def)
  have "run_state (Get_VirtualService mem_client k) ?c = (Inl (Err NotFoundError), ?c)" for k
    by (simp add: mem_client_def mem_get_def sample_cluster_def)
  with update have run: "run_state (finalizeRouteForDeletion go_lib lagging_reconciler sample_req route0_deleted
      \<lparr>RL_Items = [route0_deleted]\<rparr>) ?c = (Inr (), ?t)"
    by (simp add: finalizeRouteForDeletion_def client deleteServiceList_def removeRouteFromRouteList_def
        deleteVirtualServiceFor_def)
  have kept: "mem_services ?t (service_key stale_service) = Some stale_service" by (simp add: sample_cluster_def)
  have "''route-guid-0-uid'' \<in> set (indexServiceByOwner stale_service)"
    by (simp add: stale_service_def indexServiceByOwner_def zero_Service_def sample_defs)
  moreover have "\<not> guarded (mem_routes ?t) ns uid" for ns uid by (simp add: guarded_def)
  ultimately have "\<not> no_orphans (mem_routes ?t) (mem_services ?t)"
    using kept unfolding no_orphans_def owner_guarded_def by blast
  with run kept show ?thesis by (intro exI [of _ ?t]) (simp add: fun_eq_iff)
qed

section \<open>Properties\<close>

text \<open>
  C3. No Service is ever orphaned, given that none is at the start: in every state reachable by
  reconciles of any routes with any outcome and by users who create, edit and delete routes, between
  the reconciles and between the calls of a running one, the owner of every Service is a stored route
  of its namespace that carries the controller's finalizer. Users may edit everything of a route but
  its identity, its deletion mark and this controller's finalizer, which they do not strip. Reads may
  lag behind the users but show the controller's own writes: of the route that is read, and of the
  Services it owns.
\<close>

theorem no_orphaned_services:
  assumes "shared_api C rv sv" and "RR_Client r = C"
    and "reachable L r rv sv s0 s" and "no_orphans (rv s0) (sv s0)"
  shows "no_orphans (rv s) (sv s)"
  using assms(3,4)
proof (induction rule: reachable.induct)
  case (step s t)
  then have inv: "no_orphans (rv s) (sv s)" by blast
  from step.hyps(2) show ?case
  proof (cases rule: cluster_step.cases)
    case (reconcile req outcome)
    then show ?thesis using shared_api.Reconcile_no_orphans [OF assms(1) _ assms(2) inv] by blast
  next
    case user
    then show ?thesis using no_orphans_mono [OF inv] user_step_guarded by metis
  qed
qed

theorem no_orphaned_services_witness:
  "\<exists>s. reachable go_lib busy_reconciler busy_routes busy_services busy_start s \<and>
     busy_services s \<lparr>NN_Namespace = ''workload-namespace'', NN_Name = ''s-dest-0''\<rparr> \<noteq> None \<and>
     no_orphans (busy_routes s) (busy_services s)"
proof -
  obtain outcome t where run: "run_state (Reconcile go_lib busy_reconciler sample_req) busy_start = (outcome, t)"
    and made: "busy_services t \<lparr>NN_Namespace = ''workload-namespace'', NN_Name = ''s-dest-0''\<rparr> \<noteq> None"
    by (rule busy_outcome)
  have reach: "reachable go_lib busy_reconciler busy_routes busy_services busy_start t"
    by (rule reachable.step [OF reachable.start cluster_step.reconcile [OF run]])
  have "no_orphans (busy_routes t) (busy_services t)"
    by (rule no_orphaned_services [OF busy.shared_api_axioms _ reach])
      (simp_all add: busy_reconciler_def busy_start_def no_orphans_def)
  with reach made show ?thesis by blast
qed

end
