(* ===== verification/Convergence.thy ===== *)
theory Convergence
  imports SampleCluster
begin

text \<open>
  Many reconciles together. A reconcile against a serving API is an abstract step on the three views
  of the cluster (\<open>reconcile_step\<close>), one of three kinds: the route is missing, present or being
  deleted. From then on everything is about these steps: on an orderly set of routes two rounds of
  requests, in any order and with repetitions, bring every route to its steady state and leave
  nothing of the deleted ones. The controller makes such rounds forever, since each reconcile asks to
  be run again after the resync interval.
\<close>

section \<open>Orderly routes\<close>

text \<open>
  What the platform guarantees of the stored routes: each can be deployed, those of one FQDN fit
  together, a route being deleted waits for this controller only, and within a namespace two routes
  share neither UID nor destination GUIDs, nor a VirtualService name without sharing the FQDN.
\<close>

definition orderly :: "(NamespacedName \<Rightarrow> Route option) \<Rightarrow> bool" where
  "orderly rv \<longleftrightarrow>
     (\<forall>k r. rv k = Some r \<longrightarrow> deployable r \<and>
        (OM_DeletionTimestamp (R_ObjectMeta r) \<noteq> None \<longrightarrow> set (OM_Finalizers (R_ObjectMeta r)) = {finalizerName})) \<and>
     (\<forall>ns f. routable (routes_sharing rv ns f)) \<and>
     (\<forall>k r k' r'. rv k = Some r \<and> rv k' = Some r' \<and> NN_Namespace k = NN_Namespace k' \<and> k \<noteq> k' \<longrightarrow>
        OM_UID (R_ObjectMeta r) \<noteq> OM_UID (R_ObjectMeta r') \<and>
        RD_Guid ` set (RS_Destinations (R_Spec r)) \<inter> RD_Guid ` set (RS_Destinations (R_Spec r')) = {} \<and>
        (VirtualServiceName (FQDN r) = VirtualServiceName (FQDN r') \<longrightarrow> FQDN r = FQDN r'))"

lemma orderly_apart:
  assumes "orderly rv" and "rv k = Some r" and "rv k' = Some r'" and "NN_Namespace k = NN_Namespace k'" and "k \<noteq> k'"
  shows "OM_UID (R_ObjectMeta r) \<noteq> OM_UID (R_ObjectMeta r')"
    and "RD_Guid ` set (RS_Destinations (R_Spec r)) \<inter> RD_Guid ` set (RS_Destinations (R_Spec r')) = {}"
    and "VirtualServiceName (FQDN r) = VirtualServiceName (FQDN r') \<Longrightarrow> FQDN r = FQDN r'"
  using assms unfolding orderly_def by blast+

text \<open>Reconciles only remove routes and add finalizers to routes that are not being deleted.\<close>

definition evolves :: "(NamespacedName \<Rightarrow> Route option) \<Rightarrow> (NamespacedName \<Rightarrow> Route option) \<Rightarrow> bool" where
  "evolves rv rv' \<longleftrightarrow>
     (\<forall>k r'. rv' k = Some r' \<longrightarrow> (\<exists>r. rv k = Some r \<and> R_Spec r' = R_Spec r \<and>
        OM_UID (R_ObjectMeta r') = OM_UID (R_ObjectMeta r) \<and>
        OM_DeletionTimestamp (R_ObjectMeta r') = OM_DeletionTimestamp (R_ObjectMeta r) \<and>
        (OM_DeletionTimestamp (R_ObjectMeta r) \<noteq> None \<longrightarrow> OM_Finalizers (R_ObjectMeta r') = OM_Finalizers (R_ObjectMeta r))))"

lemma evolves_refl: "evolves rv rv"
  by (simp add: evolves_def)

lemma evolves_trans: "evolves rv rv' \<Longrightarrow> evolves rv' rv'' \<Longrightarrow> evolves rv rv''"
  unfolding evolves_def by fastforce

lemma evolvesE:
  assumes "evolves rv rv'" and "rv' k = Some r'"
  obtains r where "rv k = Some r" and "R_Spec r' = R_Spec r" and "FQDN r' = FQDN r"
    and "OM_UID (R_ObjectMeta r') = OM_UID (R_ObjectMeta r)"
    and "OM_DeletionTimestamp (R_ObjectMeta r') = OM_DeletionTimestamp (R_ObjectMeta r)"
    and "OM_DeletionTimestamp (R_ObjectMeta r) \<noteq> None \<longrightarrow> OM_Finalizers (R_ObjectMeta r') = OM_Finalizers (R_ObjectMeta r)"
  using assms FQDN_cong unfolding evolves_def by blast

lemma routable_specs:
  assumes "R_Spec ` R' \<subseteq> R_Spec ` R" and "routable R"
  shows "routable R'"
proof -
  have "\<exists>q \<in> R. R_Spec x = R_Spec q" if "x \<in> R'" for x using assms(1) that by blast
  then obtain q where "\<And>x. x \<in> R' \<Longrightarrow> q x \<in> R \<and> R_Spec x = R_Spec (q x)" by metis
  with assms(2) show ?thesis unfolding routable_def by simp
qed

lemma orderly_evolves:
  assumes "orderly rv" and "evolves rv rv'"
  shows "orderly rv'"
  unfolding orderly_def
proof (intro conjI allI impI)
  fix k r'
  assume "rv' k = Some r'"
  with assms(2) obtain r where r: "rv k = Some r" "R_Spec r' = R_Spec r"
    "OM_DeletionTimestamp (R_ObjectMeta r') = OM_DeletionTimestamp (R_ObjectMeta r)"
    "OM_DeletionTimestamp (R_ObjectMeta r) \<noteq> None \<longrightarrow> OM_Finalizers (R_ObjectMeta r') = OM_Finalizers (R_ObjectMeta r)"
    by (rule evolvesE)
  from assms(1) r(1) have "deployable r" unfolding orderly_def by blast
  with r(2) show "deployable r'" using deployable_cong by blast
  show "set (OM_Finalizers (R_ObjectMeta r')) = {finalizerName}" if "OM_DeletionTimestamp (R_ObjectMeta r') \<noteq> None"
    using assms(1) r that unfolding orderly_def by simp
next
  fix ns f
  have "R_Spec ` routes_sharing rv' ns f \<subseteq> R_Spec ` routes_sharing rv ns f"
    using assms(2) by (fastforce simp: routes_sharing_def elim: evolvesE)
  with assms(1) show "routable (routes_sharing rv' ns f)" using routable_specs unfolding orderly_def by blast
next
  fix k r k' r'
  assume a: "rv' k = Some r \<and> rv' k' = Some r' \<and> NN_Namespace k = NN_Namespace k' \<and> k \<noteq> k'"
  from a assms(2) obtain q where q: "rv k = Some q" "R_Spec r = R_Spec q" "FQDN r = FQDN q"
    "OM_UID (R_ObjectMeta r) = OM_UID (R_ObjectMeta q)" by (metis evolvesE)
  from a assms(2) obtain q' where q': "rv k' = Some q'" "R_Spec r' = R_Spec q'" "FQDN r' = FQDN q'"
    "OM_UID (R_ObjectMeta r') = OM_UID (R_ObjectMeta q')" by (metis evolvesE)
  from orderly_apart [OF assms(1) q(1) q'(1)] a show "OM_UID (R_ObjectMeta r) \<noteq> OM_UID (R_ObjectMeta r')"
    and "RD_Guid ` set (RS_Destinations (R_Spec r)) \<inter> RD_Guid ` set (RS_Destinations (R_Spec r')) = {}"
    and "VirtualServiceName (FQDN r) = VirtualServiceName (FQDN r') \<Longrightarrow> FQDN r = FQDN r'"
    by (simp_all add: q q')
qed

section \<open>The abstract step\<close>

inductive reconcile_step ::
    "Lib \<Rightarrow> string \<Rightarrow> NamespacedName \<Rightarrow>
     (NamespacedName \<Rightarrow> Route option) \<Rightarrow> (NamespacedName \<Rightarrow> Service option) \<Rightarrow> (NamespacedName \<Rightarrow> VirtualService option) \<Rightarrow>
     (NamespacedName \<Rightarrow> Route option) \<Rightarrow> (NamespacedName \<Rightarrow> Service option) \<Rightarrow> (NamespacedName \<Rightarrow> VirtualService option) \<Rightarrow> bool"
  for L gateway k rv sv vv where
  missing: "rv k = None \<Longrightarrow> reconcile_step L gateway k rv sv vv rv sv vv"
| present: "rv k = Some route \<Longrightarrow> OM_DeletionTimestamp (R_ObjectMeta route) = None \<Longrightarrow>
    R_ObjectMeta route' = (R_ObjectMeta route)\<lparr>OM_Finalizers := fs\<rparr> \<Longrightarrow>
    set fs = insert finalizerName (set (OM_Finalizers (R_ObjectMeta route))) \<Longrightarrow> R_Spec route' = R_Spec route \<Longrightarrow>
    finalizerName \<in> set (OM_Finalizers (R_ObjectMeta route)) \<longrightarrow> route' = route \<Longrightarrow>
    ServiceBuilder_Build L route' = Inr ds \<Longrightarrow> services_in_place sv' ds \<Longrightarrow>
    \<forall>k'. k' \<notin> service_key ` set ds \<longrightarrow> sv' k' =
      (if k' \<in> owned_services sv (NN_Namespace k) (OM_UID (R_ObjectMeta route)) then None else sv k') \<Longrightarrow>
    set items = routes_sharing rv (NN_Namespace k) (FQDN route) \<Longrightarrow> distinct (map route_key items) \<Longrightarrow>
    VirtualServiceBuilder_Build L \<lparr>IstioGateways = [gateway]\<rparr> \<lparr>RL_Items = items\<rparr> = Inr [v] \<Longrightarrow>
    vs_managed x = vs_managed v \<Longrightarrow> OM_Namespace (R_ObjectMeta route) = NN_Namespace k \<Longrightarrow>
    reconcile_step L gateway k rv sv vv (rv(k \<mapsto> route')) sv' (vv(vs_key_of (NN_Namespace k) (FQDN route) \<mapsto> x))"
| deleted: "rv k = Some route \<Longrightarrow> OM_DeletionTimestamp (R_ObjectMeta route) \<noteq> None \<Longrightarrow>
    \<forall>k'. k' \<noteq> vs_key_of (NN_Namespace k) (FQDN route) \<longrightarrow> vv' k' = vv k' \<Longrightarrow>
    routes_sharing rv (NN_Namespace k) (FQDN route) = {route} \<longrightarrow> vv' (vs_key_of (NN_Namespace k) (FQDN route)) = None \<Longrightarrow>
    reconcile_step L gateway k rv sv vv (rv(k := None))
      (\<lambda>k'. if k' \<in> owned_services sv (NN_Namespace k) (OM_UID (R_ObjectMeta route)) then None else sv k') vv'"

definition reconciled :: "Lib \<Rightarrow> 's RouteReconciler \<Rightarrow> NamespacedName \<Rightarrow> 's \<Rightarrow> 's" where
  "reconciled L r k s = snd (run_state (Reconcile L r \<lparr>Req_NamespacedName = k\<rparr>) s)"

definition resync :: "Lib \<Rightarrow> 's RouteReconciler \<Rightarrow> NamespacedName list \<Rightarrow> 's \<Rightarrow> 's" where
  "resync L r ks s = fold (reconciled L r) ks s"

section \<open>Reconcile refines it\<close>

context live_kube_api
begin

lemma Reconcile_missing:
  assumes "RR_Client r = C" and "routes s k = None"
  obtains t where "run_state (Reconcile L r \<lparr>Req_NamespacedName = k\<rparr>) s = (Inr empty_Result, t)"
    and "routes t = routes s" and "services t = services s" and "vss t = vss s"
proof -
  obtain t where g: "run_state (Get_Route C k) s = (Inl (Err NotFoundError), t)"
    using get_route_live [of k s] assms(2) by auto
  show ?thesis
    by (rule that [of t]) (use g assms(1) get_route_fails [OF g] in \<open>simp_all add: Reconcile_def IgnoreNotFound_def IsNotFound_def\<close>)
qed

lemma orderlyD:
  assumes "orderly rv" and "rv k = Some route"
  shows "deployable route" and "routable (routes_sharing rv (NN_Namespace k) (FQDN route))"
    and "OM_DeletionTimestamp (R_ObjectMeta route) \<noteq> None \<Longrightarrow> set (OM_Finalizers (R_ObjectMeta route)) = {finalizerName}"
  using assms unfolding orderly_def by blast+

lemma reconciled_present:
  fixes k :: NamespacedName
  assumes "ext_lib L" and "RR_Client r = C" and ord: "orderly (routes s)"
    and Some: "routes s k = Some route" and True: "OM_DeletionTimestamp (R_ObjectMeta route) = None"
  defines "t \<equiv> reconciled L r k s"
  shows "reconcile_step L (RR_IstioGateway r) k (routes s) (services s) (vss s) (routes t) (services t) (vss t)"
proof -
  let ?req = "\<lparr>Req_NamespacedName = k\<rparr>"
  note ok = orderlyD [OF ord Some]
  have ns: "OM_Namespace (R_ObjectMeta route) = NN_Namespace k"
    using route_store_key [OF Some] by auto
  obtain res u where run: "run_state (Reconcile L r ?req) s = (Inr res, u)"
    using Reconcile_present_live [OF assms(2) _ Some True ok(1) assms(1) ok(2), of ?req] by auto
  then have t: "t = u" by (simp add: t_def reconciled_def)
  obtain route' fs ds items v x where
    P: "R_ObjectMeta route' = (R_ObjectMeta route)\<lparr>OM_Finalizers := fs\<rparr>"
      "set fs = insert finalizerName (set (OM_Finalizers (R_ObjectMeta route)))"
      "R_Spec route' = R_Spec route" "finalizerName \<in> set (OM_Finalizers (R_ObjectMeta route)) \<longrightarrow> route' = route"
      "ServiceBuilder_Build L route' = Inr ds" "services_applied (services u) ds"
      "\<forall>k'. k' \<notin> service_key ` set ds \<longrightarrow> services u k' =
        (if k' \<in> owned_services (services s) (NN_Namespace k) (OM_UID (R_ObjectMeta route)) then None else services s k')"
      "set items = routes_sharing (routes s) (NN_Namespace k) (FQDN route)" "distinct (map route_key items)"
      "VirtualServiceBuilder_Build L \<lparr>IstioGateways = [RR_IstioGateway r]\<rparr> \<lparr>RL_Items = items\<rparr> = Inr [v]"
      "vs_managed x = vs_managed v" "routes u = (routes s)(k \<mapsto> route')"
      "vss u = (vss s)(vs_key_of (NN_Namespace k) (FQDN route) \<mapsto> x)"
    by (rule Reconcile_present_ok [OF run assms(2) _ Some True]) simp_all
  have "services_in_place (services u) ds"
    using applied_in_place [OF P(6,5)] ok(1) P(3) by (simp add: deployable_def)
  then show ?thesis unfolding t P(12,13) by (rule reconcile_step.present [OF Some True P(1-5) _ P(7-11) ns])
qed

lemma reconciled_deleted:
  fixes k :: NamespacedName
  assumes "ext_lib L" and "RR_Client r = C" and ord: "orderly (routes s)"
    and Some: "routes s k = Some route" and False: "OM_DeletionTimestamp (R_ObjectMeta route) \<noteq> None"
  defines "t \<equiv> reconciled L r k s"
  shows "reconcile_step L (RR_IstioGateway r) k (routes s) (services s) (vss s) (routes t) (services t) (vss t)"
proof -
  let ?req = "\<lparr>Req_NamespacedName = k\<rparr>"
  note ok = orderlyD [OF ord Some]
  have "routable (routes_sharing (routes s) (NN_Namespace k) (FQDN route) - {route})"
    by (rule routable_mono [OF _ ok(2)]) blast
  then obtain res u where run: "run_state (Reconcile L r ?req) s = (Inr res, u)"
    using Reconcile_deleted_live [OF assms(2) _ Some False assms(1), of ?req] by auto
  then have t: "t = u" by (simp add: t_def reconciled_def)
  have fin: "finalizerName \<in> set (OM_Finalizers (R_ObjectMeta route))" using ok(3) [OF False] by simp
  note R = Reconcile_deleted_ok [OF run assms(2) _ Some False fin, simplified]
  obtain rest s2 where
    D: "set rest = routes_sharing (routes s) (NN_Namespace k) (FQDN route) - {route}"
      "services u = (\<lambda>k'. if k' \<in> owned_services (services s) (NN_Namespace k) (OM_UID (R_ObjectMeta route))
                            then None else services s k')"
      "\<forall>k'. k' \<noteq> vs_key_of (NN_Namespace k) (FQDN route) \<longrightarrow> vss u k' = vss s k'"
      "rest = [] \<longrightarrow> vss u (vs_key_of (NN_Namespace k) (FQDN route)) = None \<or>
         (\<exists>e w. run_state (Get_VirtualService C (vs_key_of (NN_Namespace k) (FQDN route))) s2 = (Inl (Err e), w) \<and>
                e \<noteq> NotFoundError)"
    by (rule cleaned_upE [OF R(1)])
  have gone: "routes u = (routes s)(k := None)"
    using R(2,3) ok(3) [OF False] by (auto simp: route_finalized_def fun_eq_iff split: option.splits)
  have "\<not> (\<exists>e w. run_state (Get_VirtualService C K) s2 = (Inl (Err e), w) \<and> e \<noteq> NotFoundError)" for K
    using get_vs_live [of K s2] by (auto split: option.splits)
  with D(4) have "rest = [] \<longrightarrow> vss u (vs_key_of (NN_Namespace k) (FQDN route)) = None" by blast
  with D(1) have "routes_sharing (routes s) (NN_Namespace k) (FQDN route) = {route} \<longrightarrow>
      vss u (vs_key_of (NN_Namespace k) (FQDN route)) = None" by (metis Diff_cancel set_empty)
  from reconcile_step.deleted [OF Some False D(3) this] show ?thesis unfolding t gone D(2) .
qed

lemma reconciled_refines:
  fixes k :: NamespacedName
  assumes "ext_lib L" and "RR_Client r = C" and "orderly (routes s)"
  defines "t \<equiv> reconciled L r k s"
  shows "reconcile_step L (RR_IstioGateway r) k (routes s) (services s) (vss s) (routes t) (services t) (vss t)"
proof (cases "routes s k")
  case None
  with assms(2) obtain u where "run_state (Reconcile L r \<lparr>Req_NamespacedName = k\<rparr>) s = (Inr empty_Result, u)"
    "routes u = routes s" "services u = services s" "vss u = vss s" by (rule Reconcile_missing)
  with None show ?thesis by (simp add: t_def reconciled_def reconcile_step.missing)
next
  case (Some route)
  then show ?thesis
    unfolding t_def using reconciled_present [OF assms(1-3) Some] reconciled_deleted [OF assms(1-3) Some] by blast
qed

end

section \<open>What every step keeps\<close>

text \<open>
  Relative to the routes a round started from: what is stored evolved from them, no route is lost that
  was not being deleted, a route that is gone owns no Service, and an FQDN that lost its last route has no VirtualService.
\<close>

definition tidy ::
    "(NamespacedName \<Rightarrow> Route option) \<Rightarrow> (NamespacedName \<Rightarrow> Route option) \<Rightarrow> (NamespacedName \<Rightarrow> Service option) \<Rightarrow>
     (NamespacedName \<Rightarrow> VirtualService option) \<Rightarrow> bool" where
  "tidy rv0 rv sv vv \<longleftrightarrow> evolves rv0 rv \<and>
     (\<forall>k route. rv0 k = Some route \<and> OM_DeletionTimestamp (R_ObjectMeta route) = None \<longrightarrow> rv k \<noteq> None) \<and>
     (\<forall>k route. rv0 k = Some route \<and> rv k = None \<longrightarrow>
        owned_services sv (NN_Namespace k) (OM_UID (R_ObjectMeta route)) = {}) \<and>
     (\<forall>ns f. routes_sharing rv0 ns f \<noteq> {} \<and> routes_sharing rv ns f = {} \<longrightarrow> vv (vs_key_of ns f) = None)"

lemma reconcile_step_evolves:
  assumes "reconcile_step L gateway k rv sv vv rv' sv' vv'"
  shows "evolves rv rv'"
  using assms
proof (cases rule: reconcile_step.cases)
  case (present route route' fs ds items v x)
  have "OM_UID (R_ObjectMeta route') = OM_UID (R_ObjectMeta route)"
    "OM_DeletionTimestamp (R_ObjectMeta route') = None" by (simp_all add: present)
  then show ?thesis unfolding evolves_def present(1) using present by auto
next
  case (deleted route)
  then show ?thesis by (simp add: evolves_def)
qed (simp add: evolves_refl)

text \<open>What a present step does to the Services of any other owner.\<close>

lemma present_owned_others:
  assumes "ServiceBuilder_Build L route' = Inr ds" and "services_in_place sv' ds"
    and "\<forall>k'. k' \<notin> service_key ` set ds \<longrightarrow> sv' k' = (if k' \<in> owned_services sv ns uid then None else sv k')"
    and "OM_UID (R_ObjectMeta route') = uid" and "OM_Namespace (R_ObjectMeta route') = ns"
    and "ns' \<noteq> ns \<or> uid' \<noteq> uid"
  shows "owned_services sv' ns' uid' = owned_services sv ns' uid' - service_key ` set ds"
    and "\<And>k'. k' \<in> owned_services sv ns' uid' - service_key ` set ds \<Longrightarrow> sv' k' = sv k'"
proof -
  have same: "sv' k' = sv k'" if "k' \<notin> service_key ` set ds" "k' \<notin> owned_services sv ns uid" for k'
    using assms(3) that by simp
  have new: "k' \<notin> owned_services sv' ns' uid'" if "k' \<in> service_key ` set ds" for k'
  proof -
    from in_place_owner [OF assms(1,2) that] obtain x where "sv' k' = Some x" "indexServiceByOwner x = [uid]"
      "NN_Namespace k' = ns" unfolding assms(4,5) .
    with assms(6) show ?thesis by (auto simp: owned_services_def)
  qed
  have disj: "k' \<notin> owned_services sv ns uid" if "k' \<in> owned_services sv ns' uid'" for k'
    using that assms(6) indexServiceByOwner_unique by (fastforce simp: owned_services_def)
  have lost: "k' \<notin> owned_services sv' ns' uid'" if "k' \<in> owned_services sv ns uid" "k' \<notin> service_key ` set ds" for k'
    using assms(3) that by (simp add: owned_services_def)
  show "owned_services sv' ns' uid' = owned_services sv ns' uid' - service_key ` set ds"
  proof (intro set_eqI iffI)
    fix k' assume o: "k' \<in> owned_services sv' ns' uid'"
    with new lost have "k' \<notin> service_key ` set ds" "k' \<notin> owned_services sv ns uid" by blast+
    with same o show "k' \<in> owned_services sv ns' uid' - service_key ` set ds" by (simp add: owned_services_def)
  next
    fix k' assume o: "k' \<in> owned_services sv ns' uid' - service_key ` set ds"
    with disj same have "sv' k' = sv k'" by blast
    with o show "k' \<in> owned_services sv' ns' uid'" by (simp add: owned_services_def)
  qed
  show "sv' k' = sv k'" if "k' \<in> owned_services sv ns' uid' - service_key ` set ds" for k'
    using that disj same by blast
qed

lemma routes_sharing_upd_other:
  assumes "rv k = Some route" and "ns \<noteq> NN_Namespace k \<or> f \<noteq> FQDN route"
    and "\<And>r. new = Some r \<Longrightarrow> FQDN r = FQDN route"
  shows "routes_sharing (rv(k := new)) ns f = routes_sharing rv ns f"
  using assms by (auto simp: routes_sharing_def) (metis option.inject)+

lemma orderly_vs_key:
  assumes "orderly rv" and "rv k = Some route" and "routes_sharing rv ns f \<noteq> {}"
    and "vs_key_of ns f = vs_key_of (NN_Namespace k) (FQDN route)"
  shows "ns = NN_Namespace k \<and> f = FQDN route"
proof -
  from assms(3) obtain m z where m: "rv m = Some z" "NN_Namespace m = ns" "FQDN z = f"
    by (auto simp: routes_sharing_def)
  show ?thesis
  proof (cases "m = k")
    case True
    with m assms(2) show ?thesis by simp
  next
    case False
    from assms(4) have "ns = NN_Namespace k" "VirtualServiceName f = VirtualServiceName (FQDN route)"
      by (simp_all add: vs_key_of_def)
    with orderly_apart(3) [OF assms(1) m(1) assms(2) _ False] m show ?thesis by simp
  qed
qed

lemma tidy_step_keeps:
  assumes tidy: "tidy rv0 rv sv vv" and step: "reconcile_step L gateway k rv sv vv rv' sv' vv'"
    and j: "rv0 j = Some q \<and> OM_DeletionTimestamp (R_ObjectMeta q) = None"
  shows "rv' j \<noteq> None"
proof -
  have ev: "evolves rv0 rv" using tidy by (simp add: tidy_def)
  from tidy j have "rv j \<noteq> None" unfolding tidy_def by blast
  with step show ?thesis
  proof (cases rule: reconcile_step.cases)
    case (deleted route)
    with ev j have "j \<noteq> k" by (auto elim!: evolvesE)
    with \<open>rv j \<noteq> None\<close> show ?thesis by (simp add: deleted(1))
  qed simp_all
qed

lemma tidy_step_services:
  assumes ord: "orderly rv0" and tidy: "tidy rv0 rv sv vv" and step: "reconcile_step L gateway k rv sv vv rv' sv' vv'"
    and j: "rv0 j = Some q \<and> rv' j = None"
  shows "owned_services sv' (NN_Namespace j) (OM_UID (R_ObjectMeta q)) = {}"
proof -
  have ev: "evolves rv0 rv" using tidy by (simp add: tidy_def)
  show ?thesis
    using step
  proof (cases rule: reconcile_step.cases)
    case missing
    with j tidy show ?thesis by (simp add: tidy_def)
  next
    case (present route route' fs ds items v x)
    with j have jk: "j \<noteq> k" "rv j = None" by (auto split: if_splits)
    from ev present(3) obtain r where r: "rv0 k = Some r" "OM_UID (R_ObjectMeta route) = OM_UID (R_ObjectMeta r)"
      by (rule evolvesE)
    have "NN_Namespace j \<noteq> NN_Namespace k \<or> OM_UID (R_ObjectMeta q) \<noteq> OM_UID (R_ObjectMeta route)"
      using orderly_apart(1) [OF ord _ r(1), of j q] j jk(1) r(2) by auto
    from present_owned_others(1) [OF present(9-11) _ _ this] have
      "owned_services sv' (NN_Namespace j) (OM_UID (R_ObjectMeta q)) \<subseteq>
         owned_services sv (NN_Namespace j) (OM_UID (R_ObjectMeta q))"
      by (simp add: present)
    with tidy j jk(2) show ?thesis unfolding tidy_def by blast
  next
    case (deleted route)
    from ev deleted(3) obtain r where r: "rv0 k = Some r" "OM_UID (R_ObjectMeta route) = OM_UID (R_ObjectMeta r)"
      by (rule evolvesE)
    show ?thesis
    proof (cases "j = k")
      case True
      with j r show ?thesis by (auto simp: deleted(2) owned_services_def)
    next
      case False
      with j have "rv j = None" by (simp add: deleted(1))
      with tidy j have "owned_services sv (NN_Namespace j) (OM_UID (R_ObjectMeta q)) = {}" unfolding tidy_def by blast
      then show ?thesis by (auto simp: deleted(2) owned_services_def split: if_splits)
    qed
  qed
qed

lemma tidy_other_virtual_service:
  assumes ord: "orderly rv0" and tidy: "tidy rv0 rv sv vv"
    and nsf: "routes_sharing rv0 ns f \<noteq> {} \<and> routes_sharing (rv(k := new)) ns f = {}"
    and route: "rv k = Some route" and ne: "ns \<noteq> NN_Namespace k \<or> f \<noteq> FQDN route"
    and new: "\<And>r. new = Some r \<Longrightarrow> FQDN r = FQDN route"
  shows "vv (vs_key_of ns f) = None \<and> vs_key_of ns f \<noteq> vs_key_of (NN_Namespace k) (FQDN route)"
proof
  have "routes_sharing rv ns f = {}" using nsf routes_sharing_upd_other [of rv k, OF route ne new] by simp
  with tidy nsf show "vv (vs_key_of ns f) = None" unfolding tidy_def by blast
  have "evolves rv0 rv" using tidy by (simp add: tidy_def)
  from this route obtain r where r: "rv0 k = Some r" "FQDN route = FQDN r" by (rule evolvesE)
  show "vs_key_of ns f \<noteq> vs_key_of (NN_Namespace k) (FQDN route)"
    using orderly_vs_key [OF ord r(1), of ns f] nsf ne r(2) by auto
qed

lemma tidy_step_virtual_services:
  assumes ord: "orderly rv0" and tidy: "tidy rv0 rv sv vv" and step: "reconcile_step L gateway k rv sv vv rv' sv' vv'"
    and nsf: "routes_sharing rv0 ns f \<noteq> {} \<and> routes_sharing rv' ns f = {}"
  shows "vv' (vs_key_of ns f) = None"
proof -
  have other: "vv (vs_key_of ns f) = None \<and> vs_key_of ns f \<noteq> vs_key_of (NN_Namespace k) (FQDN route)"
    if "rv k = Some route" and "ns \<noteq> NN_Namespace k \<or> f \<noteq> FQDN route"
      and "rv' = rv(k := new)" and "\<And>r. new = Some r \<Longrightarrow> FQDN r = FQDN route" for route new
    using tidy_other_virtual_service [OF ord tidy nsf [unfolded that(3)] that(1,2,4)] .
  show ?thesis
    using step
  proof (cases rule: reconcile_step.cases)
    case missing
    with nsf tidy show ?thesis by (simp add: tidy_def)
  next
    case (present route route' fs ds items v x)
    have fq: "FQDN route' = FQDN route" using present(7) by (rule FQDN_cong)
    then have "route' \<in> routes_sharing rv' (NN_Namespace k) (FQDN route)"
      by (auto simp: routes_sharing_def present(1))
    with nsf have "ns \<noteq> NN_Namespace k \<or> f \<noteq> FQDN route" by blast
    from other [OF present(3) this present(1)] fq show ?thesis by (simp add: present(2))
  next
    case (deleted route)
    show ?thesis
    proof (cases "ns = NN_Namespace k \<and> f = FQDN route")
      case True
      have "routes_sharing rv (NN_Namespace k) (FQDN route) = {route}"
      proof -
        have "x = route" if "rv m = Some x" "NN_Namespace m = NN_Namespace k" "FQDN x = FQDN route" for m x
          using nsf True that deleted(3) unfolding routes_sharing_def deleted(1) by (cases "m = k") auto
        with deleted(3) show ?thesis by (auto simp: routes_sharing_def)
      qed
      with deleted(6) True show ?thesis by simp
    next
      case False
      with other [OF deleted(3) _ deleted(1)] deleted(5) show ?thesis by simp
    qed
  qed
qed

lemma tidy_step:
  assumes "orderly rv0" and "tidy rv0 rv sv vv" and "reconcile_step L gateway k rv sv vv rv' sv' vv'"
  shows "tidy rv0 rv' sv' vv'"
proof -
  have "evolves rv0 rv" using assms(2) by (simp add: tidy_def)
  then have "evolves rv0 rv'" by (rule evolves_trans [OF _ reconcile_step_evolves [OF assms(3)]])
  then show ?thesis
    unfolding tidy_def
    using tidy_step_keeps [OF assms(2,3)] tidy_step_services [OF assms] tidy_step_virtual_services [OF assms] by blast
qed

section \<open>The first round\<close>

text \<open>After its reconcile a route is gone or protected by the finalizer, and it stays so.\<close>

definition ready :: "(NamespacedName \<Rightarrow> Route option) \<Rightarrow> NamespacedName \<Rightarrow> bool" where
  "ready rv k \<longleftrightarrow> (\<forall>r. rv k = Some r \<longrightarrow>
     OM_DeletionTimestamp (R_ObjectMeta r) = None \<and> finalizerName \<in> set (OM_Finalizers (R_ObjectMeta r)))"

lemma ready_step:
  assumes "reconcile_step L gateway k rv sv vv rv' sv' vv'"
  shows "ready rv' k" and "ready rv j \<Longrightarrow> ready rv' j"
proof -
  show k: "ready rv' k"
    using assms
  proof (cases rule: reconcile_step.cases)
    case (present route route' fs ds items v x)
    then show ?thesis by (simp add: ready_def)
  qed (simp_all add: ready_def)
  have "j \<noteq> k \<Longrightarrow> rv' j = rv j" using assms by (cases rule: reconcile_step.cases) simp_all
  with k show "ready rv j \<Longrightarrow> ready rv' j" by (cases "j = k") (simp_all add: ready_def)
qed

section \<open>The second round\<close>

lemma service_keys_disjoint:
  assumes "orderly rv" and "rv k = Some route" and "rv j = Some q" and "j \<noteq> k" and "NN_Namespace j = NN_Namespace k"
    and "ServiceBuilder_Build L route' = Inr ds" and "R_Spec route' = R_Spec route" and "ServiceBuilder_Build L q = Inr dq"
  shows "NN_Name ` service_key ` set ds \<inter> NN_Name ` service_key ` set dq = {}"
proof -
  have "NN_Name ` service_key ` set xs = serviceName ` set (RS_Destinations (R_Spec r))"
    if "ServiceBuilder_Build L r = Inr xs" for r xs
    using arg_cong [OF ServiceBuilder_Build_keys [OF that], of "\<lambda>ks. NN_Name ` set ks"] by (simp add: image_image)
  moreover have "RD_Guid ` set (RS_Destinations (R_Spec route)) \<inter> RD_Guid ` set (RS_Destinations (R_Spec q)) = {}"
    using orderly_apart(2) [OF assms(1,3,2) assms(5,4)] by blast
  ultimately show ?thesis using assms(6-8) by (auto simp: serviceName_def)
qed

lemma steady_other:
  assumes ord: "orderly rv" and st: "steady L gateway rv sv vv j" and "rv k = Some route" and "j \<noteq> k"
    and build: "ServiceBuilder_Build L route' = Inr ds" "services_in_place sv' ds"
      "\<forall>k'. k' \<notin> service_key ` set ds \<longrightarrow> sv' k' =
        (if k' \<in> owned_services sv (NN_Namespace k) (OM_UID (R_ObjectMeta route)) then None else sv k')"
    and route': "R_Spec route' = R_Spec route" "OM_UID (R_ObjectMeta route') = OM_UID (R_ObjectMeta route)"
      "OM_Namespace (R_ObjectMeta route') = NN_Namespace k"
    and vs: "set items = routes_sharing rv (NN_Namespace k) (FQDN route)" "distinct (map route_key items)"
      "VirtualServiceBuilder_Build L \<lparr>IstioGateways = [gateway]\<rparr> \<lparr>RL_Items = items\<rparr> = Inr [v]" "vs_managed x = vs_managed v"
  shows "steady L gateway rv sv' (vv(vs_key_of (NN_Namespace k) (FQDN route) \<mapsto> x)) j"
proof -
  from st obtain q dq iq vq xq where
    q: "rv j = Some q" "OM_DeletionTimestamp (R_ObjectMeta q) = None" "finalizerName \<in> set (OM_Finalizers (R_ObjectMeta q))"
    and dq: "ServiceBuilder_Build L q = Inr dq" "services_in_place sv dq"
      "owned_services sv (NN_Namespace j) (OM_UID (R_ObjectMeta q)) = service_key ` set dq"
    and vq: "set iq = routes_sharing rv (NN_Namespace j) (FQDN q)" "distinct (map route_key iq)"
      "VirtualServiceBuilder_Build L \<lparr>IstioGateways = [gateway]\<rparr> \<lparr>RL_Items = iq\<rparr> = Inr [vq]"
      "vv (vs_key_of (NN_Namespace j) (FQDN q)) = Some xq" "vs_managed xq = vs_managed vq"
    unfolding steady_def by blast
  have "NN_Namespace j \<noteq> NN_Namespace k \<or> OM_UID (R_ObjectMeta q) \<noteq> OM_UID (R_ObjectMeta route)"
    using orderly_apart(1) [OF ord q(1) assms(3) _ assms(4)] by blast
  note others = present_owned_others [OF build route'(2,3) this]
  have disj: "service_key ` set dq \<inter> service_key ` set ds = {}"
  proof (rule ccontr)
    assume "service_key ` set dq \<inter> service_key ` set ds \<noteq> {}"
    then obtain k' where k': "k' \<in> service_key ` set dq" "k' \<in> service_key ` set ds" by blast
    have "NN_Namespace k' = NN_Namespace j" using k'(1) unfolding dq(3) [symmetric] by (auto simp: owned_services_def)
    moreover have "NN_Namespace k' = NN_Namespace k" using in_place_owner [OF build(1,2) k'(2)] route'(3) by metis
    ultimately show False
      using service_keys_disjoint [OF ord assms(3) q(1) assms(4) _ build(1) route'(1) dq(1)] k' by auto
  qed
  with others(1) dq(3) have owned: "owned_services sv' (NN_Namespace j) (OM_UID (R_ObjectMeta q)) = service_key ` set dq"
    by blast
  have "sv' k' = sv k'" if "k' \<in> service_key ` set dq" for k'
    using others(2) that disj dq(3) by blast
  with dq(2) have place: "services_in_place sv' dq" by (simp add: services_in_place_def)
  show ?thesis
  proof (cases "vs_key_of (NN_Namespace j) (FQDN q) = vs_key_of (NN_Namespace k) (FQDN route)")
    case True
    have "routes_sharing rv (NN_Namespace j) (FQDN q) \<noteq> {}" using q(1) by (auto simp: routes_sharing_def)
    with orderly_vs_key [OF ord assms(3) _ True] have "NN_Namespace j = NN_Namespace k" "FQDN q = FQDN route" by auto
    then show ?thesis unfolding steady_def using q dq(1) owned place vs by auto
  next
    case False
    then show ?thesis unfolding steady_def using q dq(1) owned place vq by auto
  qed
qed

lemma ready_step_same:
  assumes all: "\<forall>j. ready rv j" and step: "reconcile_step L gateway k rv sv vv rv' sv' vv'"
  shows "rv' = rv"
  using step
proof (cases rule: reconcile_step.cases)
  case (present route route' fs ds items v x)
  from all present(3) have "finalizerName \<in> set (OM_Finalizers (R_ObjectMeta route))" by (simp add: ready_def)
  with present(8) have "route' = route" by blast
  with present(1,3) show ?thesis by (simp add: map_upd_triv)
next
  case (deleted route)
  with all show ?thesis by (auto simp: ready_def)
qed

lemma steady_reached:
  assumes all: "\<forall>j. ready rv j" and step: "reconcile_step L gateway k rv sv vv rv' sv' vv'"
    and that: "rv k \<noteq> None"
  shows "steady L gateway rv' sv' vv' k"
  using step
proof (cases rule: reconcile_step.cases)
  case missing
  with that show ?thesis by simp
next
  case (present route route' fs ds items v x)
  from all present(3) have fin: "finalizerName \<in> set (OM_Finalizers (R_ObjectMeta route))" by (simp add: ready_def)
  with present(8) have eq: "route' = route" by blast
  have "owned_services sv' (NN_Namespace k) (OM_UID (R_ObjectMeta route)) = service_key ` set ds"
    by (rule owned_after [OF present(9) in_place_applied [OF present(10)] present(11)]) (simp_all add: eq present(16))
  then show ?thesis
    unfolding steady_def ready_step_same [OF all step]
    by (intro exI [of _ route] exI [of _ ds] exI [of _ items] exI [of _ v] exI [of _ x] conjI)
      (use present(3,4,9,10,12-15) fin eq in \<open>simp_all add: present(2)\<close>)
next
  case (deleted route)
  with all show ?thesis by (auto simp: ready_def)
qed

lemma steady_kept:
  assumes ord: "orderly rv" and all: "\<forall>j. ready rv j" and step: "reconcile_step L gateway k rv sv vv rv' sv' vv'"
    and st: "steady L gateway rv sv vv j"
  shows "steady L gateway rv' sv' vv' j"
proof -
  from st have "rv j \<noteq> None" by (auto simp: steady_def)
  show ?thesis
    using step
  proof (cases rule: reconcile_step.cases)
    case missing
    with st show ?thesis by simp
  next
    case (present route route' fs ds items v x)
    show ?thesis
    proof (cases "j = k")
      case True
      with steady_reached [OF all step] \<open>rv j \<noteq> None\<close> show ?thesis by simp
    next
      case False
      have "OM_UID (R_ObjectMeta route') = OM_UID (R_ObjectMeta route)"
        "OM_Namespace (R_ObjectMeta route') = NN_Namespace k" by (simp_all add: present(5,16))
      from steady_other [OF ord st present(3) False present(9-11,7) this present(12-15)] show ?thesis
        unfolding present(2) ready_step_same [OF all step] .
    qed
  next
    case (deleted route)
    with all show ?thesis by (simp add: ready_def)
  qed
qed

section \<open>Rounds\<close>

lemma resync_simps [simp]:
  "resync L r [] s = s" "resync L r (k # ks) s = resync L r ks (reconciled L r k s)"
  "resync L r (ks @ ks') s = resync L r ks' (resync L r ks s)"
  by (simp_all add: resync_def)

context live_kube_api
begin

lemma first_round:
  fixes ks :: "NamespacedName list"
  assumes "ext_lib L" and "RR_Client r = C" and "orderly rv0" and "tidy rv0 (routes s) (services s) (vss s)"
  defines "t \<equiv> resync L r ks s"
  shows "tidy rv0 (routes t) (services t) (vss t) \<and> (\<forall>k. k \<in> set ks \<or> ready (routes s) k \<longrightarrow> ready (routes t) k)"
  unfolding t_def using assms(4)
proof (induction ks arbitrary: s)
  case Nil
  then show ?case by simp
next
  case (Cons k ks)
  have "orderly (routes s)" using Cons.prems assms(3) orderly_evolves by (simp add: tidy_def)
  note step = reconciled_refines [OF assms(1,2) this, of k]
  from Cons.IH [OF tidy_step [OF assms(3) Cons.prems step]] ready_step [OF step] show ?case by auto
qed

lemma second_round:
  fixes ks :: "NamespacedName list"
  assumes "ext_lib L" and "RR_Client r = C" and "orderly (routes s)" and "\<forall>j. ready (routes s) j"
  defines "t \<equiv> resync L r ks s" and "settled \<equiv> \<lambda>s. steady L (RR_IstioGateway r) (routes s) (services s) (vss s)"
  shows "routes t = routes s \<and> (\<forall>k. k \<in> set ks \<and> routes s k \<noteq> None \<or> settled s k \<longrightarrow> settled t k)"
  unfolding t_def using assms(3,4)
proof (induction ks arbitrary: s)
  case Nil
  then show ?case by simp
next
  case (Cons k ks)
  let ?u = "reconciled L r k s"
  note step = reconciled_refines [OF assms(1,2) Cons.prems(1), of k]
  note S = ready_step_same [OF Cons.prems(2) step] steady_reached [OF Cons.prems(2) step] steady_kept [OF Cons.prems step]
  from Cons.prems S(1) have "orderly (routes ?u)" "\<forall>j. ready (routes ?u) j" by simp_all
  from Cons.IH [OF this] S show ?case by (auto simp: settled_def)
qed

lemma two_rounds:
  assumes "ext_lib L" and "RR_Client r = C" and ord: "orderly (routes s)"
    and "dom (routes s) \<subseteq> set ks" and "dom (routes s) \<subseteq> set ks'"
  defines "u \<equiv> resync L r ks s" and "t \<equiv> resync L r (ks @ ks') s"
  shows "\<forall>k. ready (routes t) k" and "tidy (routes s) (routes t) (services t) (vss t)" and "evolves (routes s) (routes u)"
    and "routes t = routes u"
    and "\<forall>k. routes t k \<noteq> None \<longrightarrow> steady L (RR_IstioGateway r) (routes t) (services t) (vss t) k"
proof -
  have start: "tidy (routes s) (routes s) (services s) (vss s)" by (auto simp: tidy_def evolves_refl)
  note F = first_round [OF assms(1,2) ord start, of ks, folded u_def]
  then show ev: "evolves (routes s) (routes u)" by (simp add: tidy_def)
  have "ready (routes u) k" for k
  proof (cases "k \<in> set ks")
    case True
    with F show ?thesis by blast
  next
    case False
    with assms(4) have "routes s k = None" by blast
    with ev have "routes u k = None" unfolding evolves_def by (metis not_None_eq)
    then show ?thesis by (simp add: ready_def)
  qed
  then have ready: "\<forall>k. ready (routes u) k" by blast
  have t: "t = resync L r ks' u" by (simp add: t_def u_def)
  note S = second_round [OF assms(1,2) orderly_evolves [OF ord ev] ready, of ks', folded t]
  then show same: "routes t = routes u" by blast
  show "\<forall>k. ready (routes t) k" using same ready by simp
  show "tidy (routes s) (routes t) (services t) (vss t)"
    using first_round [OF assms(1,2) ord, of u ks'] F by (simp add: t)
  show "\<forall>k. routes t k \<noteq> None \<longrightarrow> steady L (RR_IstioGateway r) (routes t) (services t) (vss t) k"
  proof (intro allI impI)
    fix k
    assume k: "routes t k \<noteq> None"
    then obtain x where "routes u k = Some x" using same by auto
    moreover with ev have "routes s k \<noteq> None" by (auto elim!: evolvesE)
    with assms(5) have "k \<in> set ks'" by blast
    ultimately show "steady L (RR_IstioGateway r) (routes t) (services t) (vss t) k" using S by blast
  qed
qed

end

section \<open>Properties\<close>

text \<open>
  C4. The cluster converges: from any state with orderly routes, against an API that serves its calls,
  after two rounds of reconciles of all routes, in any order and with any repetitions, every route
  that was not being deleted is in its steady state and every route that was is gone and owns no
  Service; an FQDN whose last route was deleted has no VirtualService left.
\<close>

theorem resync_converges:
  assumes "ext_lib L" and "live_kube_api C rv sv vv" and "RR_Client r = C" and "orderly (rv s)"
    and "dom (rv s) \<subseteq> set ks" and "dom (rv s) \<subseteq> set ks'"
  defines "t \<equiv> resync L r (ks @ ks') s"
  shows "(\<forall>k route. rv s k = Some route \<and> OM_DeletionTimestamp (R_ObjectMeta route) = None \<longrightarrow>
      steady L (RR_IstioGateway r) (rv t) (sv t) (vv t) k) \<and>
    (\<forall>k route. rv s k = Some route \<and> OM_DeletionTimestamp (R_ObjectMeta route) \<noteq> None \<longrightarrow>
      rv t k = None \<and> owned_services (sv t) (NN_Namespace k) (OM_UID (R_ObjectMeta route)) = {}) \<and>
    (\<forall>ns f. routes_sharing (rv s) ns f \<noteq> {} \<and>
       (\<forall>x \<in> routes_sharing (rv s) ns f. OM_DeletionTimestamp (R_ObjectMeta x) \<noteq> None) \<longrightarrow>
       vv t (vs_key_of ns f) = None)"
proof (intro conjI allI impI)
  note R = live_kube_api.two_rounds [OF assms(2,1,3-6), folded t_def]
  have ev: "evolves (rv s) (rv t)" using R(3,4) by simp
  have gone: "rv t k = None" if "rv s k = Some route" "OM_DeletionTimestamp (R_ObjectMeta route) \<noteq> None" for k route
  proof (rule ccontr)
    assume "rv t k \<noteq> None"
    then obtain x where x: "rv t k = Some x" by blast
    with ev that have "OM_DeletionTimestamp (R_ObjectMeta x) \<noteq> None" by (auto elim!: evolvesE)
    with R(1) x show False by (auto simp: ready_def)
  qed
  show "steady L (RR_IstioGateway r) (rv t) (sv t) (vv t) k"
    if "rv s k = Some route \<and> OM_DeletionTimestamp (R_ObjectMeta route) = None" for k route
    using R(2,5) that unfolding tidy_def by blast
  show "rv t k = None" "owned_services (sv t) (NN_Namespace k) (OM_UID (R_ObjectMeta route)) = {}"
    if "rv s k = Some route \<and> OM_DeletionTimestamp (R_ObjectMeta route) \<noteq> None" for k route
    using R(2) gone [of k route] that unfolding tidy_def by blast+
  show "vv t (vs_key_of ns f) = None" if nsf: "routes_sharing (rv s) ns f \<noteq> {} \<and>
      (\<forall>x \<in> routes_sharing (rv s) ns f. OM_DeletionTimestamp (R_ObjectMeta x) \<noteq> None)" for ns f
  proof -
    have "x \<notin> routes_sharing (rv t) ns f" for x
    proof
      assume "x \<in> routes_sharing (rv t) ns f"
      then obtain m where m: "rv t m = Some x" "NN_Namespace m = ns" "FQDN x = f" by (auto simp: routes_sharing_def)
      from ev m(1) obtain q where "rv s m = Some q" "FQDN x = FQDN q" by (rule evolvesE)
      with nsf m gone [of m q] show False by (auto simp: routes_sharing_def)
    qed
    with R(2) nsf show ?thesis unfolding tidy_def by blast
  qed
qed

lemma sample_orderly: "orderly (mem_routes (sample_cluster [route0_deleted, route1]))"
proof -
  let ?rv = "mem_routes (sample_cluster [route0_deleted, route1])"
  have stored: "(k = sample_key \<and> r = route0_deleted) \<or> (k = sample_key\<lparr>NN_Name := ''route-guid-1''\<rparr> \<and> r = route1)"
    if "?rv k = Some r" for k r
    using that by (auto split: if_splits)
  have uids: "OM_UID (R_ObjectMeta route0_deleted) \<noteq> OM_UID (R_ObjectMeta route1)"
    by (simp add: sample_defs route0_deleted_def)
  have guids: "RD_Guid ` set (RS_Destinations (R_Spec route0_deleted)) \<inter> RD_Guid ` set (RS_Destinations (R_Spec route1)) = {}"
    by (simp add: sample_defs route0_deleted_def)
  have specs: "R_Spec ` routes_sharing ?rv ns f \<subseteq> R_Spec ` {route0, route1}" for ns f
    using stored by (fastforce simp: routes_sharing_def)
  have "deployable route0_deleted" "deployable route1"
    by (simp_all add: deployable_def) (simp_all add: sample_defs)
  moreover have "OM_DeletionTimestamp (R_ObjectMeta route1) = None" by (simp add: sample_defs)
  ultimately have one: "\<forall>k r. ?rv k = Some r \<longrightarrow> deployable r \<and>
      (OM_DeletionTimestamp (R_ObjectMeta r) \<noteq> None \<longrightarrow> set (OM_Finalizers (R_ObjectMeta r)) = {finalizerName})"
    using stored by fastforce
  moreover have "\<forall>ns f. routable (routes_sharing ?rv ns f)"
    using routable_specs [OF specs sample_routable(1)] by blast
  moreover have "OM_UID (R_ObjectMeta r) \<noteq> OM_UID (R_ObjectMeta r') \<and>
      RD_Guid ` set (RS_Destinations (R_Spec r)) \<inter> RD_Guid ` set (RS_Destinations (R_Spec r')) = {} \<and>
      FQDN r = FQDN r'" if "?rv k = Some r" "?rv k' = Some r'" "k \<noteq> k'" for k r k' r'
    using stored [OF that(1)] stored [OF that(2)] that(3) uids guids by (elim disjE conjE) (simp_all add: Int_commute)
  ultimately show ?thesis unfolding orderly_def by blast
qed

theorem resync_converges_witness:
  "\<exists>t. t = resync go_lib sample_reconciler ([sample_key, sample_key\<lparr>NN_Name := ''route-guid-1''\<rparr>] @
         [sample_key\<lparr>NN_Name := ''route-guid-1''\<rparr>, sample_key]) (sample_cluster [route0_deleted, route1]) \<and>
     mem_routes t sample_key = None \<and>
     owned_services (mem_services t) (NN_Namespace sample_key) ''route-guid-0-uid'' = {} \<and>
     steady go_lib ''istio-ingress'' (mem_routes t) (mem_services t) (mem_vss t) (sample_key\<lparr>NN_Name := ''route-guid-1''\<rparr>)"
proof -
  let ?s = "sample_cluster [route0_deleted, route1]" and ?k1 = "sample_key\<lparr>NN_Name := ''route-guid-1''\<rparr>"
  have dom: "dom (mem_routes ?s) \<subseteq> {sample_key, ?k1}" by (auto split: if_splits)
  have k1: "mem_routes ?s ?k1 = Some route1" "OM_DeletionTimestamp (R_ObjectMeta route1) = None"
    by (simp_all add: sample_key_def sample_defs)
  have uid: "OM_UID (R_ObjectMeta route0_deleted) = ''route-guid-0-uid''"
    by (simp add: sample_defs route0_deleted_def)
  define t where "t = resync go_lib sample_reconciler ([sample_key, ?k1] @ [?k1, sample_key]) ?s"
  have "dom (mem_routes ?s) \<subseteq> set [sample_key, ?k1]" "dom (mem_routes ?s) \<subseteq> set [?k1, sample_key]"
    using dom by (simp_all only: list.set insert_commute)
  note R = resync_converges [OF golib.ext_lib_axioms mem.live_kube_api_axioms sample_reconciler_sel(1) sample_orderly this,
      folded t_def]
  have "mem_routes ?s sample_key = Some route0_deleted" "OM_DeletionTimestamp (R_ObjectMeta route0_deleted) \<noteq> None"
    by simp_all
  with R have "mem_routes t sample_key = None"
    "owned_services (mem_services t) (NN_Namespace sample_key) ''route-guid-0-uid'' = {}"
    unfolding uid [symmetric] by blast+
  moreover from R k1 have "steady go_lib (RR_IstioGateway sample_reconciler) (mem_routes t) (mem_services t) (mem_vss t) ?k1"
    by blast
  ultimately show ?thesis using t_def by simp
qed

end
