(* ===== verification/DeepCopy.thy ===== *)
theory DeepCopy
  imports IstioTypes
begin

text \<open>
  Memory for the generated \<^verbatim>\<open>DeepCopy\<close> methods: Go values that hold pointers, maps and slices, a heap
  they point into, and the contract of a deep copy as the locale \<open>deep_copy\<close>. The lemmas of this
  theory show that the contract is closed under what the generated code does: copying a pointer, a
  map, a slice, the fields of a struct in sequence, and a whole object behind a pointer. The methods
  themselves are in \<open>DeepCopyTypes\<close>.
\<close>

section \<open>Values with references\<close>

text \<open>
  A pointer or a map is the address of a cell or nil. A slice is nil or an array's address with
  offset and length; the capacity plays no part. \<open>'m\<close>, \<open>'l\<close> and \<open>'i\<close> stand for the structs
  \<^verbatim>\<open>metav1.ObjectMeta\<close>, \<^verbatim>\<open>metav1.ListMeta\<close> and \<^verbatim>\<open>istiov1alpha3.VirtualService\<close> of other packages.
\<close>

type_synonym ref = "nat option"
type_synonym slice = "(nat \<times> nat \<times> nat) option"

record DestinationSelectorP =
  DSP_MatchLabels :: ref

record RouteDestinationP =
  RDP_Guid :: string
  RDP_Weight :: ref
  RDP_Port :: ref
  RDP_App :: DestinationApp
  RDP_Selector :: DestinationSelectorP

record RouteSpecP =
  RSP_Host :: string
  RSP_Path :: string
  RSP_Url :: string
  RSP_Domain :: RouteDomain
  RSP_Destinations :: slice

record RouteStatusP =
  RStP_Conditions :: slice

record 'm RouteP =
  RP_TypeMeta :: TypeMeta
  RP_ObjectMeta :: 'm
  RP_Spec :: RouteSpecP
  RP_Status :: RouteStatusP

record 'l RouteListP =
  RLP_TypeMeta :: TypeMeta
  RLP_ListMeta :: 'l
  RLP_Items :: slice

type_synonym VirtualServiceStatus = unit

record 'i VirtualServiceSpecP =
  VSSP_VirtualService :: 'i

record ('m, 'i) VirtualServiceP =
  VSP_TypeMeta :: TypeMeta
  VSP_ObjectMeta :: 'm
  VSP_Spec :: "'i VirtualServiceSpecP"
  VSP_Status :: VirtualServiceStatus

record 'l VirtualServiceListP =
  VSLP_TypeMeta :: TypeMeta
  VSLP_ListMeta :: 'l
  VSLP_Items :: slice

section \<open>The heap\<close>

text \<open>
  One cell per allocation: integers, maps, backing arrays, single structs, and cells of the other
  packages. Addresses below \<open>next_addr\<close> are in use.
\<close>

datatype ('m, 'l, 'i, 'c) cell =
    Unused
  | IntCell go_int
  | MapCell string_map
  | DestinationArray "RouteDestinationP list"
  | ConditionArray "Condition list"
  | RouteArray "'m RouteP list"
  | VirtualServiceArray "('m, 'i) VirtualServiceP list"
  | AppProcessCell AppProcess
  | ConditionCell Condition
  | DestinationAppCell DestinationApp
  | DestinationSelectorCell DestinationSelectorP
  | RouteCell "'m RouteP"
  | RouteDestinationCell RouteDestinationP
  | RouteDomainCell RouteDomain
  | RouteListCell "'l RouteListP"
  | RouteSpecCell RouteSpecP
  | RouteStatusCell RouteStatusP
  | VirtualServiceCell "('m, 'i) VirtualServiceP"
  | VirtualServiceListCell "'l VirtualServiceListP"
  | VirtualServiceSpecCell "'i VirtualServiceSpecP"
  | VirtualServiceStatusCell VirtualServiceStatus
  | ExternalCell 'c

record ('m, 'l, 'i, 'c) heap =
  next_addr :: nat
  cells :: "nat \<Rightarrow> ('m, 'l, 'i, 'c) cell"

definition alloc :: "('m, 'l, 'i, 'c) cell \<Rightarrow> ('m, 'l, 'i, 'c) heap \<Rightarrow> nat \<times> ('m, 'l, 'i, 'c) heap" where
  "alloc c h = (next_addr h, h\<lparr>next_addr := next_addr h + 1, cells := (cells h)(next_addr h := c)\<rparr>)"

definition store_cell :: "nat \<Rightarrow> ('m, 'l, 'i, 'c) cell \<Rightarrow> ('m, 'l, 'i, 'c) heap \<Rightarrow> ('m, 'l, 'i, 'c) heap" where
  "store_cell a c h = h\<lparr>cells := (cells h)(a := c)\<rparr>"

text \<open>Two heaps agree on the addresses from \<open>lo\<close> up to \<open>hi\<close>.\<close>

definition agree :: "nat \<Rightarrow> nat \<Rightarrow> ('m, 'l, 'i, 'c) heap \<Rightarrow> ('m, 'l, 'i, 'c) heap \<Rightarrow> bool" where
  "agree lo hi h h' \<longleftrightarrow> (\<forall>a. lo \<le> a \<and> a < hi \<longrightarrow> cells h' a = cells h a)"

lemma agree_refl [simp]: "agree lo hi h h"
  by (simp add: agree_def)

lemma agree_trans: "agree lo hi h h' \<Longrightarrow> agree lo hi h' h'' \<Longrightarrow> agree lo hi h h''"
  by (simp add: agree_def)

lemma agree_narrow: "agree lo hi h h' \<Longrightarrow> lo \<le> lo' \<Longrightarrow> hi' \<le> hi \<Longrightarrow> agree lo' hi' h h'"
  unfolding agree_def by (meson le_trans less_le_trans)

lemma alloc_simps:
  "alloc c h = (a, h') \<Longrightarrow> a = next_addr h \<and> next_addr h' = next_addr h + 1 \<and> cells h' a = c \<and> agree 0 (next_addr h) h h'"
  by (auto simp: alloc_def agree_def)

lemma store_cell_simps [simp]:
  "next_addr (store_cell a c h) = next_addr h" "cells (store_cell a c h) a = c"
  by (simp_all add: store_cell_def)

lemma store_cell_agree: "a < lo \<or> hi \<le> a \<Longrightarrow> agree lo hi h (store_cell a c h)"
  by (auto simp: agree_def store_cell_def)

section \<open>The contract\<close>

text \<open>
  \<open>within h lo hi p\<close>: every address reachable from the value \<open>p\<close> lies between \<open>lo\<close> and \<open>hi\<close>;
  \<open>read h p\<close>: what \<open>p\<close> means. The first two laws say that reading depends on those addresses only.
  The last is the deep copy: memory in use before is left alone, the copy lies wholly in new memory,
  and it reads as the original did.
\<close>

definition copied ::
    "(('m, 'l, 'i, 'c) heap \<Rightarrow> nat \<Rightarrow> nat \<Rightarrow> 'p \<Rightarrow> bool) \<Rightarrow> (('m, 'l, 'i, 'c) heap \<Rightarrow> 'p \<Rightarrow> 'v) \<Rightarrow>
     'p \<Rightarrow> ('m, 'l, 'i, 'c) heap \<Rightarrow> 'p \<times> ('m, 'l, 'i, 'c) heap \<Rightarrow> bool" where
  "copied within read p h res \<longleftrightarrow>
     (case res of (p', h') \<Rightarrow>
        next_addr h \<le> next_addr h' \<and> agree 0 (next_addr h) h h' \<and>
        within h' (next_addr h) (next_addr h') p' \<and> read h' p' = read h p)"

locale deep_copy =
  fixes within :: "('m, 'l, 'i, 'c) heap \<Rightarrow> nat \<Rightarrow> nat \<Rightarrow> 'p \<Rightarrow> bool"
    and read :: "('m, 'l, 'i, 'c) heap \<Rightarrow> 'p \<Rightarrow> 'v"
    and copy :: "'p \<Rightarrow> ('m, 'l, 'i, 'c) heap \<Rightarrow> 'p \<times> ('m, 'l, 'i, 'c) heap"
  assumes within_mono: "within h lo hi p \<Longrightarrow> lo' \<le> lo \<Longrightarrow> hi \<le> hi' \<Longrightarrow> within h lo' hi' p"
    and within_local: "within h lo hi p \<Longrightarrow> agree lo hi h h' \<Longrightarrow> within h' lo hi p"
    and read_local: "within h lo hi p \<Longrightarrow> agree lo hi h h' \<Longrightarrow> read h' p = read h p"
    and copy_ok: "within h 0 (next_addr h) p \<Longrightarrow> copied within read p h (copy p h)"
begin

lemma copyD:
  assumes "copy p h = (p', h')" and "within h 0 (next_addr h) p"
  shows "next_addr h \<le> next_addr h'" and "agree 0 (next_addr h) h h'"
    and "within h' (next_addr h) (next_addr h') p'" and "read h' p' = read h p"
  using copy_ok [OF assms(2)] by (simp_all add: copied_def assms(1))

text \<open>A value that was in memory before the heap grew still is, and reads the same.\<close>

lemma grown:
  assumes "within h 0 (next_addr h) p" and "next_addr h \<le> next_addr h'" and "agree 0 (next_addr h) h h'"
  shows "within h' 0 (next_addr h') p" and "read h' p = read h p"
  by (rule within_mono [OF within_local [OF assms(1,3)] order_refl assms(2)]) (rule read_local [OF assms(1,3)])

text \<open>
  Independence: whatever is then written to memory outside the copy leaves the copy as it is, and
  whatever is written to the copy's memory leaves the original as it is.
\<close>

lemma independent:
  assumes "copy p h = (p', h')" and "within h 0 (next_addr h) p"
  shows "agree (next_addr h) (next_addr h') h' h'' \<Longrightarrow> read h'' p' = read h p"
    and "agree 0 (next_addr h) h' h'' \<Longrightarrow> read h'' p = read h p"
proof -
  note C = copyD [OF assms]
  show "agree (next_addr h) (next_addr h') h' h'' \<Longrightarrow> read h'' p' = read h p"
    using read_local [OF C(3)] C(4) by simp
  show "agree 0 (next_addr h) h' h'' \<Longrightarrow> read h'' p = read h p"
    using read_local [OF assms(2)] agree_trans [OF C(2)] by blast
qed

end

section \<open>What the generated code is made of\<close>

text \<open>Plain values: \<^verbatim>\<open>*out = *in\<close>.\<close>

definition copy_plain :: "'p \<Rightarrow> ('m, 'l, 'i, 'c) heap \<Rightarrow> 'p \<times> ('m, 'l, 'i, 'c) heap" where
  "copy_plain v h = (v, h)"

text \<open>
  A pointer to a single cell: nil stays nil, otherwise \<^verbatim>\<open>*out = new(T); **out = **in\<close>. The same shape
  serves a map, of which \<^verbatim>\<open>make\<close> and the loop over its keys build an equal one.
\<close>

definition ref_within :: "('m, 'l, 'i, 'c) heap \<Rightarrow> nat \<Rightarrow> nat \<Rightarrow> ref \<Rightarrow> bool" where
  "ref_within h lo hi p \<longleftrightarrow> (case p of None \<Rightarrow> True | Some a \<Rightarrow> lo \<le> a \<and> a < hi)"

definition copy_ref ::
    "(('m, 'l, 'i, 'c) cell \<Rightarrow> 'v) \<Rightarrow> ('v \<Rightarrow> ('m, 'l, 'i, 'c) cell) \<Rightarrow>
     ref \<Rightarrow> ('m, 'l, 'i, 'c) heap \<Rightarrow> ref \<times> ('m, 'l, 'i, 'c) heap" where
  "copy_ref get mk p h =
     (case p of
        None \<Rightarrow> (None, h)
      | Some a \<Rightarrow> (case alloc (mk (get (cells h a))) h of (a', h') \<Rightarrow> (Some a', h')))"

definition read_ref :: "(('m, 'l, 'i, 'c) cell \<Rightarrow> 'v) \<Rightarrow> ('m, 'l, 'i, 'c) heap \<Rightarrow> ref \<Rightarrow> 'v option" where
  "read_ref get h p = map_option (\<lambda>a. get (cells h a)) p"

text \<open>
  A slice: nil stays nil, otherwise \<^verbatim>\<open>*out = make([]T, len(*in))\<close> and a deep copy of every element
  into its place.
\<close>

fun copy_list :: "('p \<Rightarrow> 'h \<Rightarrow> 'p \<times> 'h) \<Rightarrow> 'p list \<Rightarrow> 'h \<Rightarrow> 'p list \<times> 'h" where
  "copy_list copy [] h = ([], h)"
| "copy_list copy (x # xs) h =
     (case copy x h of (x', h1) \<Rightarrow> (case copy_list copy xs h1 of (xs', h2) \<Rightarrow> (x' # xs', h2)))"

definition elements :: "(('m, 'l, 'i, 'c) cell \<Rightarrow> 'p list) \<Rightarrow> ('m, 'l, 'i, 'c) heap \<Rightarrow> slice \<Rightarrow> 'p list" where
  "elements get h s = (case s of None \<Rightarrow> [] | Some (a, off, len) \<Rightarrow> take len (drop off (get (cells h a))))"

definition slice_within ::
    "(('m, 'l, 'i, 'c) cell \<Rightarrow> 'p list) \<Rightarrow> (('m, 'l, 'i, 'c) heap \<Rightarrow> nat \<Rightarrow> nat \<Rightarrow> 'p \<Rightarrow> bool) \<Rightarrow>
     ('m, 'l, 'i, 'c) heap \<Rightarrow> nat \<Rightarrow> nat \<Rightarrow> slice \<Rightarrow> bool" where
  "slice_within get within h lo hi s \<longleftrightarrow>
     (case s of None \<Rightarrow> True | Some (a, _, _) \<Rightarrow> lo \<le> a \<and> a < hi) \<and> list_all (within h lo hi) (elements get h s)"

definition copy_slice ::
    "(('m, 'l, 'i, 'c) cell \<Rightarrow> 'p list) \<Rightarrow> ('p list \<Rightarrow> ('m, 'l, 'i, 'c) cell) \<Rightarrow> 'p \<Rightarrow>
     ('p \<Rightarrow> ('m, 'l, 'i, 'c) heap \<Rightarrow> 'p \<times> ('m, 'l, 'i, 'c) heap) \<Rightarrow>
     slice \<Rightarrow> ('m, 'l, 'i, 'c) heap \<Rightarrow> slice \<times> ('m, 'l, 'i, 'c) heap" where
  "copy_slice get mk zero copy s h =
     (case s of
        None \<Rightarrow> (None, h)
      | Some _ \<Rightarrow>
          let xs = elements get h s
          in (case alloc (mk (replicate (length xs) zero)) h of (a, h1) \<Rightarrow>
               (case copy_list copy xs h1 of (xs', h2) \<Rightarrow>
                  (Some (a, 0, length xs), store_cell a (mk xs') h2))))"

text \<open>\<^verbatim>\<open>DeepCopy()\<close> of a pointer: nil for nil, otherwise \<^verbatim>\<open>out := new(T); in.DeepCopyInto(out)\<close>.\<close>

definition new_copy ::
    "(('m, 'l, 'i, 'c) cell \<Rightarrow> 'p) \<Rightarrow> ('p \<Rightarrow> ('m, 'l, 'i, 'c) cell) \<Rightarrow> 'p \<Rightarrow>
     ('p \<Rightarrow> ('m, 'l, 'i, 'c) heap \<Rightarrow> 'p \<times> ('m, 'l, 'i, 'c) heap) \<Rightarrow>
     ref \<Rightarrow> ('m, 'l, 'i, 'c) heap \<Rightarrow> ref \<times> ('m, 'l, 'i, 'c) heap" where
  "new_copy get mk zero into p h =
     (case p of
        None \<Rightarrow> (None, h)
      | Some a \<Rightarrow>
          (case alloc (mk zero) h of (a', h1) \<Rightarrow>
            (case into (get (cells h1 a)) h1 of (v', h2) \<Rightarrow> (Some a', store_cell a' (mk v') h2))))"

definition ptr_within ::
    "(('m, 'l, 'i, 'c) cell \<Rightarrow> 'p) \<Rightarrow> (('m, 'l, 'i, 'c) heap \<Rightarrow> nat \<Rightarrow> nat \<Rightarrow> 'p \<Rightarrow> bool) \<Rightarrow>
     ('m, 'l, 'i, 'c) heap \<Rightarrow> nat \<Rightarrow> nat \<Rightarrow> ref \<Rightarrow> bool" where
  "ptr_within get within h lo hi p \<longleftrightarrow>
     (case p of None \<Rightarrow> True | Some a \<Rightarrow> lo \<le> a \<and> a < hi \<and> within h lo hi (get (cells h a)))"

definition read_ptr ::
    "(('m, 'l, 'i, 'c) cell \<Rightarrow> 'p) \<Rightarrow> (('m, 'l, 'i, 'c) heap \<Rightarrow> 'p \<Rightarrow> 'v) \<Rightarrow> ('m, 'l, 'i, 'c) heap \<Rightarrow> ref \<Rightarrow> 'v option" where
  "read_ptr get read h p = map_option (\<lambda>a. read h (get (cells h a))) p"

section \<open>They keep the contract\<close>

lemma deep_copy_plain: "deep_copy (\<lambda>_ _ _ _. True) (\<lambda>_ v. v) copy_plain"
  by unfold_locales (simp_all add: copy_plain_def copied_def)

lemma deep_copy_ref:
  fixes get :: "('m, 'l, 'i, 'c) cell \<Rightarrow> 'v"
  assumes "\<And>v. get (mk v) = v"
  shows "deep_copy ref_within (read_ref get) (copy_ref get mk)"
proof
  fix h :: "('m, 'l, 'i, 'c) heap" and p
  assume "ref_within h 0 (next_addr h) p"
  then show "copied ref_within (read_ref get) p h (copy_ref get mk p h)"
    by (auto simp: copied_def ref_within_def read_ref_def copy_ref_def assms split: option.splits prod.splits dest: alloc_simps)
qed (auto simp: ref_within_def read_ref_def agree_def split: option.splits)

context deep_copy
begin

lemma copy_list_length: "copy_list copy xs h = (xs', h') \<Longrightarrow> length xs' = length xs"
  by (induction copy xs h arbitrary: xs' h' rule: copy_list.induct) (auto split: prod.splits)

lemma list_all_grown:
  assumes "list_all (within h 0 (next_addr h)) xs" and "next_addr h \<le> next_addr h'" and "agree 0 (next_addr h) h h'"
  shows "list_all (within h' 0 (next_addr h')) xs" and "map (read h') xs = map (read h) xs"
  using assms grown by (auto simp: list_all_iff)

lemma copy_list_ok:
  assumes "copy_list copy xs h = (xs', h')" and "list_all (within h 0 (next_addr h)) xs"
  shows "next_addr h \<le> next_addr h' \<and> agree 0 (next_addr h) h h' \<and>
    list_all (within h' (next_addr h) (next_addr h')) xs' \<and> map (read h') xs' = map (read h) xs"
  using assms
proof (induction xs arbitrary: xs' h)
  case Nil
  then show ?case by simp
next
  case (Cons x xs)
  from Cons.prems(1) obtain x' h1 ys where c: "copy x h = (x', h1)" and cs: "copy_list copy xs h1 = (ys, h')"
    and xs': "xs' = x' # ys" by (auto split: prod.splits)
  have "within h 0 (next_addr h) x" using Cons.prems(2) by simp
  note C = copyD [OF c this]
  have rest: "list_all (within h1 0 (next_addr h1)) xs" "map (read h1) xs = map (read h) xs"
    using list_all_grown [of h xs h1] C(1,2) Cons.prems(2) by simp_all
  note IH = Cons.IH [OF cs rest(1)]
  have "agree (next_addr h) (next_addr h1) h1 h'" using IH agree_narrow [of 0 "next_addr h1" h1 h'] by simp
  from within_local [OF C(3) this] read_local [OF C(3) this]
  have x': "within h' (next_addr h) (next_addr h') x'" "read h' x' = read h x"
    using IH C(4) within_mono by auto
  have "list_all (within h' (next_addr h) (next_addr h')) ys"
    using IH C(1) within_mono by (auto simp: list_all_iff)
  moreover have "agree 0 (next_addr h) h h'"
    using agree_trans [OF C(2)] agree_narrow [of 0 "next_addr h1" h1 h' 0 "next_addr h"] IH C(1) by simp
  ultimately show ?case using x' IH C(1) rest(2) xs' by simp
qed

lemma copy_slice_ok:
  assumes "\<And>xs. get (mk xs) = xs" and w: "slice_within get within h 0 (next_addr h) s" and Some: "s = Some sl"
  shows "copied (slice_within get within) (\<lambda>h s. map (read h) (elements get h s)) s h (copy_slice get mk zero copy s h)"
proof -
  define xs where "xs = elements get h s"
  then have xs: "elements get h (Some sl) = xs" by (simp add: Some)
  obtain a h1 where al: "alloc (mk (replicate (length xs) zero)) h = (a, h1)" by fastforce
  obtain xs' h2 where cl: "copy_list copy xs h1 = (xs', h2)" by fastforce
  note A = alloc_simps [OF al]
  have "list_all (within h1 0 (next_addr h1)) xs" "map (read h1) xs = map (read h) xs"
    using list_all_grown [of h xs h1] w A by (simp_all add: slice_within_def xs_def)
  note C = copy_list_ok [OF cl this(1)] and reads = this(2)
  let ?h = "store_cell a (mk xs') h2"
  have el: "elements get ?h (Some (a, 0, length xs)) = xs'"
    using copy_list_length [OF cl] by (simp add: elements_def assms)
  have keep: "agree (next_addr h1) (next_addr h2) h2 ?h" "agree 0 (next_addr h) h2 ?h"
    using A by (auto intro: store_cell_agree)
  from C have all: "\<forall>x \<in> set xs'. within h2 (next_addr h1) (next_addr h2) x" by (simp add: list_all_iff)
  then have "\<forall>x \<in> set xs'. within ?h (next_addr h1) (next_addr h2) x" "\<forall>x \<in> set xs'. read ?h x = read h2 x"
    using within_local [OF _ keep(1)] read_local [OF _ keep(1)] by blast+
  moreover have "next_addr h \<le> next_addr h1" using A by simp
  ultimately have "list_all (within ?h (next_addr h) (next_addr h2)) xs'" "map (read ?h) xs' = map (read h2) xs'"
    using within_mono [OF _ _ order_refl] by (auto simp: list_all_iff)
  then have "list_all (within ?h (next_addr h) (next_addr h2)) xs'" "map (read ?h) xs' = map (read h) xs"
    using C reads by simp_all
  moreover have "agree 0 (next_addr h) h1 h2" using C A by (auto intro: agree_narrow)
  then have "agree 0 (next_addr h) h ?h" using A keep(2) agree_trans by blast
  ultimately show ?thesis
    using A C Some al cl el
    by (simp add: copied_def copy_slice_def slice_within_def Let_def xs)
qed

lemma deep_copy_slice:
  assumes "\<And>xs. get (mk xs) = xs"
  shows "deep_copy (slice_within get within) (\<lambda>h s. map (read h) (elements get h s)) (copy_slice get mk zero copy)"
proof
  fix h lo hi lo' hi' and s :: slice
  assume "slice_within get within h lo hi s" and "lo' \<le> lo" and "hi \<le> hi'"
  then show "slice_within get within h lo' hi' s"
    using within_mono by (auto simp: slice_within_def list_all_iff split: option.splits)
next
  fix h lo hi h' and s :: slice
  assume w: "slice_within get within h lo hi s" and ag: "agree lo hi h h'"
  then have el: "elements get h' s = elements get h s"
    by (auto simp: slice_within_def elements_def agree_def split: option.splits)
  from w have all: "\<forall>x \<in> set (elements get h s). within h lo hi x" by (simp add: slice_within_def list_all_iff)
  then have "\<forall>x \<in> set (elements get h s). within h' lo hi x" "\<forall>x \<in> set (elements get h s). read h' x = read h x"
    using within_local [OF _ ag] read_local [OF _ ag] by blast+
  with w el show "slice_within get within h' lo hi s"
    and "map (read h') (elements get h' s) = map (read h) (elements get h s)"
    by (simp_all add: slice_within_def list_all_iff)
next
  fix h and s :: slice
  assume w: "slice_within get within h 0 (next_addr h) s"
  show "copied (slice_within get within) (\<lambda>h s. map (read h) (elements get h s)) s h (copy_slice get mk zero copy s h)"
  proof (cases s)
    case None
    then show ?thesis by (simp add: copied_def copy_slice_def slice_within_def elements_def)
  next
    case (Some sl)
    with assms w show ?thesis by (rule copy_slice_ok)
  qed
qed

lemma deep_copy_ptr:
  assumes "\<And>v. get (mk v) = v"
  shows "deep_copy (ptr_within get within) (read_ptr get read) (new_copy get mk zero copy)"
proof
  fix h lo hi lo' hi' and p :: ref
  assume "ptr_within get within h lo hi p" and "lo' \<le> lo" and "hi \<le> hi'"
  then show "ptr_within get within h lo' hi' p"
    using within_mono by (auto simp: ptr_within_def split: option.splits)
next
  fix h lo hi h' and p :: ref
  assume w: "ptr_within get within h lo hi p" and ag: "agree lo hi h h'"
  then have "\<And>a. p = Some a \<Longrightarrow> cells h' a = cells h a"
    by (auto simp: ptr_within_def agree_def)
  with w show "ptr_within get within h' lo hi p" "read_ptr get read h' p = read_ptr get read h p"
    using within_local [OF _ ag] read_local [OF _ ag] by (auto simp: ptr_within_def read_ptr_def split: option.splits)
next
  fix h and p :: ref
  assume w: "ptr_within get within h 0 (next_addr h) p"
  show "copied (ptr_within get within) (read_ptr get read) p h (new_copy get mk zero copy p h)"
  proof (cases p)
    case None
    then show ?thesis by (simp add: copied_def new_copy_def ptr_within_def read_ptr_def)
  next
    case (Some a)
    obtain a' h1 where al: "alloc (mk zero) h = (a', h1)" by fastforce
    note A = alloc_simps [OF al]
    obtain v' h2 where cp: "copy (get (cells h1 a)) h1 = (v', h2)" by fastforce
    from w Some have a: "a < next_addr h" "within h 0 (next_addr h) (get (cells h a))" by (auto simp: ptr_within_def)
    with A have same: "cells h1 a = cells h a" by (auto simp: agree_def)
    have g: "within h1 0 (next_addr h1) (get (cells h a))" "read h1 (get (cells h a)) = read h (get (cells h a))"
      using grown [OF a(2), of h1] A by simp_all
    note C = copyD [OF cp [unfolded same] g(1)]
    let ?h = "store_cell a' (mk v') h2"
    have keep: "agree (next_addr h1) (next_addr h2) h2 ?h" "agree 0 (next_addr h) h2 ?h"
      using A by (auto intro: store_cell_agree)
    have "within ?h (next_addr h) (next_addr h2) v'" "read ?h v' = read h (get (cells h a))"
      using within_mono [OF within_local [OF C(3) keep(1)]] read_local [OF C(3) keep(1)] C(4) g(2) A by simp_all
    moreover have "agree 0 (next_addr h) h1 h2" using C(2) A by (auto intro: agree_narrow)
    then have "agree 0 (next_addr h) h ?h" using A keep(2) agree_trans by blast
    ultimately show ?thesis
      using A C(1) Some al cp by (simp add: copied_def new_copy_def ptr_within_def read_ptr_def assms)
  qed
qed

end

text \<open>Two fields copied one after the other, and a struct around its copied fields.\<close>

definition copy_both :: "('p \<Rightarrow> 'h \<Rightarrow> 'p \<times> 'h) \<Rightarrow> ('q \<Rightarrow> 'h \<Rightarrow> 'q \<times> 'h) \<Rightarrow> 'p \<times> 'q \<Rightarrow> 'h \<Rightarrow> ('p \<times> 'q) \<times> 'h" where
  "copy_both c d pq h = (case c (fst pq) h of (p', h1) \<Rightarrow> (case d (snd pq) h1 of (q', h2) \<Rightarrow> ((p', q'), h2)))"

lemma deep_copy_both:
  assumes "deep_copy W R c" and "deep_copy W' R' d"
  shows "deep_copy (\<lambda>h lo hi pq. W h lo hi (fst pq) \<and> W' h lo hi (snd pq)) (\<lambda>h pq. (R h (fst pq), R' h (snd pq))) (copy_both c d)"
proof
  fix h and pq
  assume w: "W h 0 (next_addr h) (fst pq) \<and> W' h 0 (next_addr h) (snd pq)"
  obtain p' h1 where c: "c (fst pq) h = (p', h1)" by fastforce
  obtain q' h2 where d: "d (snd pq) h1 = (q', h2)" by fastforce
  note C = deep_copy.copyD [OF assms(1) c]
  have "W' h1 0 (next_addr h1) (snd pq)" "R' h1 (snd pq) = R' h (snd pq)"
    using deep_copy.grown [OF assms(2), of h "snd pq" h1] w C by simp_all
  note D = deep_copy.copyD [OF assms(2) d this(1)] and same = this(2)
  have "agree (next_addr h) (next_addr h1) h1 h2" using D(2) by (rule agree_narrow) simp_all
  then have "W h2 (next_addr h) (next_addr h2) p'" "R h2 p' = R h (fst pq)"
    using deep_copy.within_local [OF assms(1) C(3)] deep_copy.read_local [OF assms(1) C(3)] C(4) D(1) w
      deep_copy.within_mono [OF assms(1)] by (blast, simp)
  moreover have "W' h2 (next_addr h) (next_addr h2) q'"
    using deep_copy.within_mono [OF assms(2) D(3)] C(1) w by simp
  moreover have "agree 0 (next_addr h) h h2"
    using agree_trans [OF C(2)] agree_narrow [OF D(2)] C(1) w by simp
  ultimately show "copied (\<lambda>h lo hi pq. W h lo hi (fst pq) \<and> W' h lo hi (snd pq)) (\<lambda>h pq. (R h (fst pq), R' h (snd pq))) pq h
      (copy_both c d pq h)"
    using C(1) D(1,4) same w by (simp add: copied_def copy_both_def c d)
next
  fix h lo hi pq lo' hi'
  assume "W h lo hi (fst pq) \<and> W' h lo hi (snd pq)" and "lo' \<le> lo" and "hi \<le> hi'"
  then show "W h lo' hi' (fst pq) \<and> W' h lo' hi' (snd pq)"
    using deep_copy.within_mono [OF assms(1)] deep_copy.within_mono [OF assms(2)] by blast
next
  fix h lo hi pq h'
  assume "W h lo hi (fst pq) \<and> W' h lo hi (snd pq)" and ag: "agree lo hi h h'"
  then show "W h' lo hi (fst pq) \<and> W' h' lo hi (snd pq)"
    and "(R h' (fst pq), R' h' (snd pq)) = (R h (fst pq), R' h (snd pq))"
    using deep_copy.within_local [OF assms(1) _ ag] deep_copy.within_local [OF assms(2) _ ag]
      deep_copy.read_local [OF assms(1) _ ag] deep_copy.read_local [OF assms(2) _ ag] by simp_all
qed

lemma deep_copy_struct:
  assumes "deep_copy W R c"
    and "\<And>h lo hi s. within h lo hi s \<longleftrightarrow> W h lo hi (flds s)"
    and "\<And>h s. read h s = build (rest s) (R h (flds s))"
    and "\<And>s h. copy s h = (case c (flds s) h of (p', h') \<Rightarrow> (set_flds s p', h'))"
    and "\<And>s p. flds (set_flds s p) = p" and "\<And>s p. rest (set_flds s p) = rest s"
  shows "deep_copy within read copy"
proof
  fix h and s
  assume "within h 0 (next_addr h) s"
  then have "W h 0 (next_addr h) (flds s)" by (simp add: assms(2))
  from deep_copy.copy_ok [OF assms(1) this] show "copied within read s h (copy s h)"
    by (simp add: copied_def assms split: prod.splits)
next
  fix h lo hi s lo' hi'
  assume "within h lo hi s" and "lo' \<le> lo" and "hi \<le> hi'"
  then show "within h lo' hi' s" unfolding assms(2) by (rule deep_copy.within_mono [OF assms(1)])
next
  fix h lo hi s h'
  assume "within h lo hi s" and "agree lo hi h h'"
  then show "within h' lo hi s" and "read h' s = read h s"
    unfolding assms(2,3) using deep_copy.within_local [OF assms(1)] deep_copy.read_local [OF assms(1)] by (blast, metis)
qed

end
