(* ===== verification/DeepCopyTypes.thy ===== *)
theory DeepCopyTypes
  imports DeepCopy
begin

text \<open>
  The generated methods of \<^verbatim>\<open>zz_generated.deepcopy.go\<close> in both API packages. \<^verbatim>\<open>DeepCopyInto\<close> overwrites
  \<^verbatim>\<open>*out\<close> completely, so it is modelled by the value it leaves there, together with the heap. The
  three \<^verbatim>\<open>DeepCopyInto\<close> methods of other packages it calls are parameters, with the contract of a deep
  copy as their law (\<open>ext_copies\<close>).
\<close>

record ('m, 'l, 'i, 'c) ExtCopy =
  ObjectMeta_DeepCopyInto :: "'m \<Rightarrow> ('m, 'l, 'i, 'c) heap \<Rightarrow> 'm \<times> ('m, 'l, 'i, 'c) heap"
  ListMeta_DeepCopyInto :: "'l \<Rightarrow> ('m, 'l, 'i, 'c) heap \<Rightarrow> 'l \<times> ('m, 'l, 'i, 'c) heap"
  IstioVirtualService_DeepCopyInto :: "'i \<Rightarrow> ('m, 'l, 'i, 'c) heap \<Rightarrow> 'i \<times> ('m, 'l, 'i, 'c) heap"
  zero_ObjectMetaP :: 'm
  zero_ListMetaP :: 'l
  zero_IstioVirtualServiceP :: 'i

section \<open>Cells and zero values\<close>

definition get_int :: "('m, 'l, 'i, 'c) cell \<Rightarrow> go_int" where
  "get_int c = (case c of IntCell x \<Rightarrow> x | _ \<Rightarrow> 0)"

definition get_map :: "('m, 'l, 'i, 'c) cell \<Rightarrow> string_map" where
  "get_map c = (case c of MapCell x \<Rightarrow> x | _ \<Rightarrow> Map.empty)"

definition get_destinations :: "('m, 'l, 'i, 'c) cell \<Rightarrow> RouteDestinationP list" where
  "get_destinations c = (case c of DestinationArray x \<Rightarrow> x | _ \<Rightarrow> [])"

definition get_conditions :: "('m, 'l, 'i, 'c) cell \<Rightarrow> Condition list" where
  "get_conditions c = (case c of ConditionArray x \<Rightarrow> x | _ \<Rightarrow> [])"

definition get_routes :: "('m, 'l, 'i, 'c) cell \<Rightarrow> 'm RouteP list" where
  "get_routes c = (case c of RouteArray x \<Rightarrow> x | _ \<Rightarrow> [])"

definition get_virtual_services :: "('m, 'l, 'i, 'c) cell \<Rightarrow> ('m, 'i) VirtualServiceP list" where
  "get_virtual_services c = (case c of VirtualServiceArray x \<Rightarrow> x | _ \<Rightarrow> [])"

definition zero_AppProcess :: AppProcess where
  "zero_AppProcess = \<lparr>AP_Type = ''''\<rparr>"

definition zero_Condition :: Condition where
  "zero_Condition = \<lparr>Cond_Type = '''', Cond_Status = False\<rparr>"

definition zero_DestinationApp :: DestinationApp where
  "zero_DestinationApp = \<lparr>DA_Guid = '''', DA_Process = zero_AppProcess\<rparr>"

definition zero_DestinationSelectorP :: DestinationSelectorP where
  "zero_DestinationSelectorP = \<lparr>DSP_MatchLabels = None\<rparr>"

definition zero_RouteDestinationP :: RouteDestinationP where
  "zero_RouteDestinationP = \<lparr>RDP_Guid = '''', RDP_Weight = None, RDP_Port = None, RDP_App = zero_DestinationApp,
     RDP_Selector = zero_DestinationSelectorP\<rparr>"

definition zero_RouteDomain :: RouteDomain where
  "zero_RouteDomain = \<lparr>RDom_Name = '''', RDom_Internal = False\<rparr>"

definition zero_RouteSpecP :: RouteSpecP where
  "zero_RouteSpecP = \<lparr>RSP_Host = '''', RSP_Path = '''', RSP_Url = '''', RSP_Domain = zero_RouteDomain,
     RSP_Destinations = None\<rparr>"

definition zero_RouteStatusP :: RouteStatusP where
  "zero_RouteStatusP = \<lparr>RStP_Conditions = None\<rparr>"

definition zero_TypeMeta :: TypeMeta where
  "zero_TypeMeta = \<lparr>TM_Kind = '''', TM_APIVersion = ''''\<rparr>"

definition zero_RouteP :: "('m, 'l, 'i, 'c) ExtCopy \<Rightarrow> 'm RouteP" where
  "zero_RouteP E = \<lparr>RP_TypeMeta = zero_TypeMeta, RP_ObjectMeta = zero_ObjectMetaP E, RP_Spec = zero_RouteSpecP,
     RP_Status = zero_RouteStatusP\<rparr>"

definition zero_RouteListP :: "('m, 'l, 'i, 'c) ExtCopy \<Rightarrow> 'l RouteListP" where
  "zero_RouteListP E = \<lparr>RLP_TypeMeta = zero_TypeMeta, RLP_ListMeta = zero_ListMetaP E, RLP_Items = None\<rparr>"

definition zero_VirtualServiceP :: "('m, 'l, 'i, 'c) ExtCopy \<Rightarrow> ('m, 'i) VirtualServiceP" where
  "zero_VirtualServiceP E = \<lparr>VSP_TypeMeta = zero_TypeMeta, VSP_ObjectMeta = zero_ObjectMetaP E,
     VSP_Spec = \<lparr>VSSP_VirtualService = zero_IstioVirtualServiceP E\<rparr>, VSP_Status = ()\<rparr>"

definition zero_VirtualServiceListP :: "('m, 'l, 'i, 'c) ExtCopy \<Rightarrow> 'l VirtualServiceListP" where
  "zero_VirtualServiceListP E = \<lparr>VSLP_TypeMeta = zero_TypeMeta, VSLP_ListMeta = zero_ListMetaP E, VSLP_Items = None\<rparr>"

section \<open>v1alpha1: DeepCopyInto\<close>

definition AppProcess_DeepCopyInto :: "AppProcess \<Rightarrow> ('m, 'l, 'i, 'c) heap \<Rightarrow> AppProcess \<times> ('m, 'l, 'i, 'c) heap" where
  "AppProcess_DeepCopyInto v h = (v, h)"

definition Condition_DeepCopyInto :: "Condition \<Rightarrow> ('m, 'l, 'i, 'c) heap \<Rightarrow> Condition \<times> ('m, 'l, 'i, 'c) heap" where
  "Condition_DeepCopyInto v h = (v, h)"

definition DestinationApp_DeepCopyInto ::
    "DestinationApp \<Rightarrow> ('m, 'l, 'i, 'c) heap \<Rightarrow> DestinationApp \<times> ('m, 'l, 'i, 'c) heap" where
  "DestinationApp_DeepCopyInto v h = (v\<lparr>DA_Process := DA_Process v\<rparr>, h)"

definition DestinationSelector_DeepCopyInto ::
    "DestinationSelectorP \<Rightarrow> ('m, 'l, 'i, 'c) heap \<Rightarrow> DestinationSelectorP \<times> ('m, 'l, 'i, 'c) heap" where
  "DestinationSelector_DeepCopyInto v h =
     (case copy_ref get_map MapCell (DSP_MatchLabels v) h of (labels, h1) \<Rightarrow> (v\<lparr>DSP_MatchLabels := labels\<rparr>, h1))"

definition RouteDestination_DeepCopyInto ::
    "RouteDestinationP \<Rightarrow> ('m, 'l, 'i, 'c) heap \<Rightarrow> RouteDestinationP \<times> ('m, 'l, 'i, 'c) heap" where
  "RouteDestination_DeepCopyInto v h =
     (case copy_ref get_int IntCell (RDP_Weight v) h of (weight, h1) \<Rightarrow>
      (case copy_ref get_int IntCell (RDP_Port v) h1 of (port, h2) \<Rightarrow>
       (case DestinationSelector_DeepCopyInto (RDP_Selector v) h2 of (selector, h3) \<Rightarrow>
         (v\<lparr>RDP_Weight := weight, RDP_Port := port, RDP_App := RDP_App v, RDP_Selector := selector\<rparr>, h3))))"

definition RouteDomain_DeepCopyInto :: "RouteDomain \<Rightarrow> ('m, 'l, 'i, 'c) heap \<Rightarrow> RouteDomain \<times> ('m, 'l, 'i, 'c) heap" where
  "RouteDomain_DeepCopyInto v h = (v, h)"

definition RouteSpec_DeepCopyInto :: "RouteSpecP \<Rightarrow> ('m, 'l, 'i, 'c) heap \<Rightarrow> RouteSpecP \<times> ('m, 'l, 'i, 'c) heap" where
  "RouteSpec_DeepCopyInto v h =
     (case copy_slice get_destinations DestinationArray zero_RouteDestinationP RouteDestination_DeepCopyInto
             (RSP_Destinations v) h of (destinations, h1) \<Rightarrow>
       (v\<lparr>RSP_Domain := RSP_Domain v, RSP_Destinations := destinations\<rparr>, h1))"

definition RouteStatus_DeepCopyInto :: "RouteStatusP \<Rightarrow> ('m, 'l, 'i, 'c) heap \<Rightarrow> RouteStatusP \<times> ('m, 'l, 'i, 'c) heap" where
  "RouteStatus_DeepCopyInto v h =
     (case copy_slice get_conditions ConditionArray zero_Condition copy_plain (RStP_Conditions v) h of (conditions, h1) \<Rightarrow>
       (v\<lparr>RStP_Conditions := conditions\<rparr>, h1))"

definition Route_DeepCopyInto ::
    "('m, 'l, 'i, 'c) ExtCopy \<Rightarrow> 'm RouteP \<Rightarrow> ('m, 'l, 'i, 'c) heap \<Rightarrow> 'm RouteP \<times> ('m, 'l, 'i, 'c) heap" where
  "Route_DeepCopyInto E v h =
     (case ObjectMeta_DeepCopyInto E (RP_ObjectMeta v) h of (meta, h1) \<Rightarrow>
      (case RouteSpec_DeepCopyInto (RP_Spec v) h1 of (spec, h2) \<Rightarrow>
       (case RouteStatus_DeepCopyInto (RP_Status v) h2 of (status, h3) \<Rightarrow>
         (v\<lparr>RP_TypeMeta := RP_TypeMeta v, RP_ObjectMeta := meta, RP_Spec := spec, RP_Status := status\<rparr>, h3))))"

definition RouteList_DeepCopyInto ::
    "('m, 'l, 'i, 'c) ExtCopy \<Rightarrow> 'l RouteListP \<Rightarrow> ('m, 'l, 'i, 'c) heap \<Rightarrow> 'l RouteListP \<times> ('m, 'l, 'i, 'c) heap" where
  "RouteList_DeepCopyInto E v h =
     (case ListMeta_DeepCopyInto E (RLP_ListMeta v) h of (meta, h1) \<Rightarrow>
      (case copy_slice get_routes RouteArray (zero_RouteP E) (Route_DeepCopyInto E) (RLP_Items v) h1 of (items, h2) \<Rightarrow>
        (v\<lparr>RLP_TypeMeta := RLP_TypeMeta v, RLP_ListMeta := meta, RLP_Items := items\<rparr>, h2)))"

section \<open>v1alpha1: DeepCopy\<close>

definition AppProcess_DeepCopy :: "ref \<Rightarrow> ('m, 'l, 'i, 'c) heap \<Rightarrow> ref \<times> ('m, 'l, 'i, 'c) heap" where
  "AppProcess_DeepCopy = new_copy (\<lambda>c. case c of AppProcessCell v \<Rightarrow> v | _ \<Rightarrow> zero_AppProcess) AppProcessCell
     zero_AppProcess AppProcess_DeepCopyInto"

definition Condition_DeepCopy :: "ref \<Rightarrow> ('m, 'l, 'i, 'c) heap \<Rightarrow> ref \<times> ('m, 'l, 'i, 'c) heap" where
  "Condition_DeepCopy = new_copy (\<lambda>c. case c of ConditionCell v \<Rightarrow> v | _ \<Rightarrow> zero_Condition) ConditionCell
     zero_Condition Condition_DeepCopyInto"

definition DestinationApp_DeepCopy :: "ref \<Rightarrow> ('m, 'l, 'i, 'c) heap \<Rightarrow> ref \<times> ('m, 'l, 'i, 'c) heap" where
  "DestinationApp_DeepCopy = new_copy (\<lambda>c. case c of DestinationAppCell v \<Rightarrow> v | _ \<Rightarrow> zero_DestinationApp)
     DestinationAppCell zero_DestinationApp DestinationApp_DeepCopyInto"

definition DestinationSelector_DeepCopy :: "ref \<Rightarrow> ('m, 'l, 'i, 'c) heap \<Rightarrow> ref \<times> ('m, 'l, 'i, 'c) heap" where
  "DestinationSelector_DeepCopy =
     new_copy (\<lambda>c. case c of DestinationSelectorCell v \<Rightarrow> v | _ \<Rightarrow> zero_DestinationSelectorP)
       DestinationSelectorCell zero_DestinationSelectorP DestinationSelector_DeepCopyInto"

definition RouteDestination_DeepCopy :: "ref \<Rightarrow> ('m, 'l, 'i, 'c) heap \<Rightarrow> ref \<times> ('m, 'l, 'i, 'c) heap" where
  "RouteDestination_DeepCopy =
     new_copy (\<lambda>c. case c of RouteDestinationCell v \<Rightarrow> v | _ \<Rightarrow> zero_RouteDestinationP)
       RouteDestinationCell zero_RouteDestinationP RouteDestination_DeepCopyInto"

definition RouteDomain_DeepCopy :: "ref \<Rightarrow> ('m, 'l, 'i, 'c) heap \<Rightarrow> ref \<times> ('m, 'l, 'i, 'c) heap" where
  "RouteDomain_DeepCopy = new_copy (\<lambda>c. case c of RouteDomainCell v \<Rightarrow> v | _ \<Rightarrow> zero_RouteDomain) RouteDomainCell
     zero_RouteDomain RouteDomain_DeepCopyInto"

definition RouteSpec_DeepCopy :: "ref \<Rightarrow> ('m, 'l, 'i, 'c) heap \<Rightarrow> ref \<times> ('m, 'l, 'i, 'c) heap" where
  "RouteSpec_DeepCopy = new_copy (\<lambda>c. case c of RouteSpecCell v \<Rightarrow> v | _ \<Rightarrow> zero_RouteSpecP) RouteSpecCell
     zero_RouteSpecP RouteSpec_DeepCopyInto"

definition RouteStatus_DeepCopy :: "ref \<Rightarrow> ('m, 'l, 'i, 'c) heap \<Rightarrow> ref \<times> ('m, 'l, 'i, 'c) heap" where
  "RouteStatus_DeepCopy = new_copy (\<lambda>c. case c of RouteStatusCell v \<Rightarrow> v | _ \<Rightarrow> zero_RouteStatusP) RouteStatusCell
     zero_RouteStatusP RouteStatus_DeepCopyInto"

definition get_route :: "('m, 'l, 'i, 'c) ExtCopy \<Rightarrow> ('m, 'l, 'i, 'c) cell \<Rightarrow> 'm RouteP" where
  "get_route E c = (case c of RouteCell v \<Rightarrow> v | _ \<Rightarrow> zero_RouteP E)"

definition Route_DeepCopy ::
    "('m, 'l, 'i, 'c) ExtCopy \<Rightarrow> ref \<Rightarrow> ('m, 'l, 'i, 'c) heap \<Rightarrow> ref \<times> ('m, 'l, 'i, 'c) heap" where
  "Route_DeepCopy E = new_copy (get_route E) RouteCell (zero_RouteP E) (Route_DeepCopyInto E)"

definition get_route_list :: "('m, 'l, 'i, 'c) ExtCopy \<Rightarrow> ('m, 'l, 'i, 'c) cell \<Rightarrow> 'l RouteListP" where
  "get_route_list E c = (case c of RouteListCell v \<Rightarrow> v | _ \<Rightarrow> zero_RouteListP E)"

definition RouteList_DeepCopy ::
    "('m, 'l, 'i, 'c) ExtCopy \<Rightarrow> ref \<Rightarrow> ('m, 'l, 'i, 'c) heap \<Rightarrow> ref \<times> ('m, 'l, 'i, 'c) heap" where
  "RouteList_DeepCopy E = new_copy (get_route_list E) RouteListCell (zero_RouteListP E) (RouteList_DeepCopyInto E)"

section \<open>v1alpha3\<close>

definition VirtualServiceSpec_DeepCopyInto ::
    "('m, 'l, 'i, 'c) ExtCopy \<Rightarrow> 'i VirtualServiceSpecP \<Rightarrow> ('m, 'l, 'i, 'c) heap \<Rightarrow>
     'i VirtualServiceSpecP \<times> ('m, 'l, 'i, 'c) heap" where
  "VirtualServiceSpec_DeepCopyInto E v h =
     (case IstioVirtualService_DeepCopyInto E (VSSP_VirtualService v) h of (vs, h1) \<Rightarrow>
       (v\<lparr>VSSP_VirtualService := vs\<rparr>, h1))"

definition VirtualServiceStatus_DeepCopyInto ::
    "VirtualServiceStatus \<Rightarrow> ('m, 'l, 'i, 'c) heap \<Rightarrow> VirtualServiceStatus \<times> ('m, 'l, 'i, 'c) heap" where
  "VirtualServiceStatus_DeepCopyInto v h = (v, h)"

definition VirtualService_DeepCopyInto ::
    "('m, 'l, 'i, 'c) ExtCopy \<Rightarrow> ('m, 'i) VirtualServiceP \<Rightarrow> ('m, 'l, 'i, 'c) heap \<Rightarrow>
     ('m, 'i) VirtualServiceP \<times> ('m, 'l, 'i, 'c) heap" where
  "VirtualService_DeepCopyInto E v h =
     (case ObjectMeta_DeepCopyInto E (VSP_ObjectMeta v) h of (meta, h1) \<Rightarrow>
      (case VirtualServiceSpec_DeepCopyInto E (VSP_Spec v) h1 of (spec, h2) \<Rightarrow>
        (v\<lparr>VSP_TypeMeta := VSP_TypeMeta v, VSP_ObjectMeta := meta, VSP_Spec := spec, VSP_Status := VSP_Status v\<rparr>, h2)))"

definition VirtualServiceList_DeepCopyInto ::
    "('m, 'l, 'i, 'c) ExtCopy \<Rightarrow> 'l VirtualServiceListP \<Rightarrow> ('m, 'l, 'i, 'c) heap \<Rightarrow>
     'l VirtualServiceListP \<times> ('m, 'l, 'i, 'c) heap" where
  "VirtualServiceList_DeepCopyInto E v h =
     (case ListMeta_DeepCopyInto E (VSLP_ListMeta v) h of (meta, h1) \<Rightarrow>
      (case copy_slice get_virtual_services VirtualServiceArray (zero_VirtualServiceP E) (VirtualService_DeepCopyInto E)
              (VSLP_Items v) h1 of (items, h2) \<Rightarrow>
        (v\<lparr>VSLP_TypeMeta := VSLP_TypeMeta v, VSLP_ListMeta := meta, VSLP_Items := items\<rparr>, h2)))"

definition VirtualServiceSpec_DeepCopy ::
    "('m, 'l, 'i, 'c) ExtCopy \<Rightarrow> ref \<Rightarrow> ('m, 'l, 'i, 'c) heap \<Rightarrow> ref \<times> ('m, 'l, 'i, 'c) heap" where
  "VirtualServiceSpec_DeepCopy E =
     new_copy (\<lambda>c. case c of VirtualServiceSpecCell v \<Rightarrow> v | _ \<Rightarrow> VSP_Spec (zero_VirtualServiceP E))
       VirtualServiceSpecCell (VSP_Spec (zero_VirtualServiceP E)) (VirtualServiceSpec_DeepCopyInto E)"

definition VirtualServiceStatus_DeepCopy :: "ref \<Rightarrow> ('m, 'l, 'i, 'c) heap \<Rightarrow> ref \<times> ('m, 'l, 'i, 'c) heap" where
  "VirtualServiceStatus_DeepCopy =
     new_copy (\<lambda>c. case c of VirtualServiceStatusCell v \<Rightarrow> v | _ \<Rightarrow> ()) VirtualServiceStatusCell ()
       VirtualServiceStatus_DeepCopyInto"

definition get_virtual_service :: "('m, 'l, 'i, 'c) ExtCopy \<Rightarrow> ('m, 'l, 'i, 'c) cell \<Rightarrow> ('m, 'i) VirtualServiceP" where
  "get_virtual_service E c = (case c of VirtualServiceCell v \<Rightarrow> v | _ \<Rightarrow> zero_VirtualServiceP E)"

definition VirtualService_DeepCopy ::
    "('m, 'l, 'i, 'c) ExtCopy \<Rightarrow> ref \<Rightarrow> ('m, 'l, 'i, 'c) heap \<Rightarrow> ref \<times> ('m, 'l, 'i, 'c) heap" where
  "VirtualService_DeepCopy E =
     new_copy (get_virtual_service E) VirtualServiceCell (zero_VirtualServiceP E) (VirtualService_DeepCopyInto E)"

definition get_virtual_service_list :: "('m, 'l, 'i, 'c) ExtCopy \<Rightarrow> ('m, 'l, 'i, 'c) cell \<Rightarrow> 'l VirtualServiceListP" where
  "get_virtual_service_list E c = (case c of VirtualServiceListCell v \<Rightarrow> v | _ \<Rightarrow> zero_VirtualServiceListP E)"

definition VirtualServiceList_DeepCopy ::
    "('m, 'l, 'i, 'c) ExtCopy \<Rightarrow> ref \<Rightarrow> ('m, 'l, 'i, 'c) heap \<Rightarrow> ref \<times> ('m, 'l, 'i, 'c) heap" where
  "VirtualServiceList_DeepCopy E =
     new_copy (get_virtual_service_list E) VirtualServiceListCell (zero_VirtualServiceListP E)
       (VirtualServiceList_DeepCopyInto E)"

section \<open>DeepCopyObject\<close>

text \<open>
  A \<^verbatim>\<open>runtime.Object\<close> is nil or a non-nil pointer with its type; a nil pointer is turned into the nil
  interface, not into an interface that holds a nil pointer.
\<close>

datatype runtime_object = RouteObject ref | RouteListObject ref | VirtualServiceObject ref | VirtualServiceListObject ref

definition as_object :: "(ref \<Rightarrow> runtime_object) \<Rightarrow> ref \<times> 'h \<Rightarrow> runtime_object option \<times> 'h" where
  "as_object mk res = (case res of (c, h) \<Rightarrow> (if c \<noteq> None then Some (mk c) else None, h))"

definition Route_DeepCopyObject ::
    "('m, 'l, 'i, 'c) ExtCopy \<Rightarrow> ref \<Rightarrow> ('m, 'l, 'i, 'c) heap \<Rightarrow> runtime_object option \<times> ('m, 'l, 'i, 'c) heap" where
  "Route_DeepCopyObject E p h = as_object RouteObject (Route_DeepCopy E p h)"

definition RouteList_DeepCopyObject ::
    "('m, 'l, 'i, 'c) ExtCopy \<Rightarrow> ref \<Rightarrow> ('m, 'l, 'i, 'c) heap \<Rightarrow> runtime_object option \<times> ('m, 'l, 'i, 'c) heap" where
  "RouteList_DeepCopyObject E p h = as_object RouteListObject (RouteList_DeepCopy E p h)"

definition VirtualService_DeepCopyObject ::
    "('m, 'l, 'i, 'c) ExtCopy \<Rightarrow> ref \<Rightarrow> ('m, 'l, 'i, 'c) heap \<Rightarrow> runtime_object option \<times> ('m, 'l, 'i, 'c) heap" where
  "VirtualService_DeepCopyObject E p h = as_object VirtualServiceObject (VirtualService_DeepCopy E p h)"

definition VirtualServiceList_DeepCopyObject ::
    "('m, 'l, 'i, 'c) ExtCopy \<Rightarrow> ref \<Rightarrow> ('m, 'l, 'i, 'c) heap \<Rightarrow> runtime_object option \<times> ('m, 'l, 'i, 'c) heap" where
  "VirtualServiceList_DeepCopyObject E p h = as_object VirtualServiceListObject (VirtualServiceList_DeepCopy E p h)"

section \<open>What the values mean\<close>

text \<open>
  The structs of \<open>RouteTypes\<close> as read from memory, and the memory they occupy. A nil map reads as the
  empty map and a nil slice as the empty list.
\<close>

definition read_selector :: "('m, 'l, 'i, 'c) heap \<Rightarrow> DestinationSelectorP \<Rightarrow> DestinationSelector" where
  "read_selector h v = \<lparr>DS_MatchLabels = (case read_ref get_map h (DSP_MatchLabels v) of None \<Rightarrow> Map.empty | Some m \<Rightarrow> m)\<rparr>"

definition read_destination :: "('m, 'l, 'i, 'c) heap \<Rightarrow> RouteDestinationP \<Rightarrow> RouteDestination" where
  "read_destination h v = \<lparr>RD_Guid = RDP_Guid v, RD_Weight = read_ref get_int h (RDP_Weight v),
     RD_Port = read_ref get_int h (RDP_Port v), RD_App = RDP_App v, RD_Selector = read_selector h (RDP_Selector v)\<rparr>"

definition read_spec :: "('m, 'l, 'i, 'c) heap \<Rightarrow> RouteSpecP \<Rightarrow> RouteSpec" where
  "read_spec h v = \<lparr>RS_Host = RSP_Host v, RS_Path = RSP_Path v, RS_Url = RSP_Url v, RS_Domain = RSP_Domain v,
     RS_Destinations = map (read_destination h) (elements get_destinations h (RSP_Destinations v))\<rparr>"

definition read_status :: "('m, 'l, 'i, 'c) heap \<Rightarrow> RouteStatusP \<Rightarrow> RouteStatus" where
  "read_status h v = \<lparr>RSt_Conditions = map (\<lambda>c. c) (elements get_conditions h (RStP_Conditions v))\<rparr>"

definition read_route ::
    "(('m, 'l, 'i, 'c) heap \<Rightarrow> 'm \<Rightarrow> ObjectMeta) \<Rightarrow> ('m, 'l, 'i, 'c) heap \<Rightarrow> 'm RouteP \<Rightarrow> Route" where
  "read_route om h v = \<lparr>R_TypeMeta = RP_TypeMeta v, R_ObjectMeta = om h (RP_ObjectMeta v),
     R_Spec = read_spec h (RP_Spec v), R_Status = read_status h (RP_Status v)\<rparr>"

definition read_route_list ::
    "(('m, 'l, 'i, 'c) heap \<Rightarrow> 'm \<Rightarrow> ObjectMeta) \<Rightarrow> (('m, 'l, 'i, 'c) heap \<Rightarrow> 'l \<Rightarrow> 'lv) \<Rightarrow>
     ('m, 'l, 'i, 'c) heap \<Rightarrow> 'l RouteListP \<Rightarrow> TypeMeta \<times> 'lv \<times> RouteList" where
  "read_route_list om lm h v = (RLP_TypeMeta v, lm h (RLP_ListMeta v),
     \<lparr>RL_Items = map (read_route om h) (elements get_routes h (RLP_Items v))\<rparr>)"

definition read_virtual_service ::
    "(('m, 'l, 'i, 'c) heap \<Rightarrow> 'm \<Rightarrow> ObjectMeta) \<Rightarrow> (('m, 'l, 'i, 'c) heap \<Rightarrow> 'i \<Rightarrow> IstioVirtualService) \<Rightarrow>
     ('m, 'l, 'i, 'c) heap \<Rightarrow> ('m, 'i) VirtualServiceP \<Rightarrow> TypeMeta \<times> VirtualService" where
  "read_virtual_service om iv h v = (VSP_TypeMeta v, \<lparr>VS_ObjectMeta = om h (VSP_ObjectMeta v),
     VS_Spec = \<lparr>VSS_VirtualService = iv h (VSSP_VirtualService (VSP_Spec v))\<rparr>\<rparr>)"

definition read_virtual_service_list ::
    "(('m, 'l, 'i, 'c) heap \<Rightarrow> 'm \<Rightarrow> ObjectMeta) \<Rightarrow> (('m, 'l, 'i, 'c) heap \<Rightarrow> 'l \<Rightarrow> 'lv) \<Rightarrow>
     (('m, 'l, 'i, 'c) heap \<Rightarrow> 'i \<Rightarrow> IstioVirtualService) \<Rightarrow>
     ('m, 'l, 'i, 'c) heap \<Rightarrow> 'l VirtualServiceListP \<Rightarrow> TypeMeta \<times> 'lv \<times> (TypeMeta \<times> VirtualService) list" where
  "read_virtual_service_list om lm iv h v = (VSLP_TypeMeta v, lm h (VSLP_ListMeta v),
     map (read_virtual_service om iv h) (elements get_virtual_services h (VSLP_Items v)))"

definition destination_within :: "('m, 'l, 'i, 'c) heap \<Rightarrow> nat \<Rightarrow> nat \<Rightarrow> RouteDestinationP \<Rightarrow> bool" where
  "destination_within h lo hi v \<longleftrightarrow> ref_within h lo hi (RDP_Weight v) \<and> ref_within h lo hi (RDP_Port v) \<and>
     ref_within h lo hi (DSP_MatchLabels (RDP_Selector v))"

definition spec_within :: "('m, 'l, 'i, 'c) heap \<Rightarrow> nat \<Rightarrow> nat \<Rightarrow> RouteSpecP \<Rightarrow> bool" where
  "spec_within h lo hi v \<longleftrightarrow> slice_within get_destinations destination_within h lo hi (RSP_Destinations v)"

definition status_within :: "('m, 'l, 'i, 'c) heap \<Rightarrow> nat \<Rightarrow> nat \<Rightarrow> RouteStatusP \<Rightarrow> bool" where
  "status_within h lo hi v \<longleftrightarrow> slice_within get_conditions (\<lambda>_ _ _ _. True) h lo hi (RStP_Conditions v)"

definition route_within ::
    "(('m, 'l, 'i, 'c) heap \<Rightarrow> nat \<Rightarrow> nat \<Rightarrow> 'm \<Rightarrow> bool) \<Rightarrow> ('m, 'l, 'i, 'c) heap \<Rightarrow> nat \<Rightarrow> nat \<Rightarrow> 'm RouteP \<Rightarrow> bool" where
  "route_within om h lo hi v \<longleftrightarrow> om h lo hi (RP_ObjectMeta v) \<and> spec_within h lo hi (RP_Spec v) \<and>
     status_within h lo hi (RP_Status v)"

definition route_list_within ::
    "(('m, 'l, 'i, 'c) heap \<Rightarrow> nat \<Rightarrow> nat \<Rightarrow> 'm \<Rightarrow> bool) \<Rightarrow> (('m, 'l, 'i, 'c) heap \<Rightarrow> nat \<Rightarrow> nat \<Rightarrow> 'l \<Rightarrow> bool) \<Rightarrow>
     ('m, 'l, 'i, 'c) heap \<Rightarrow> nat \<Rightarrow> nat \<Rightarrow> 'l RouteListP \<Rightarrow> bool" where
  "route_list_within om lm h lo hi v \<longleftrightarrow> lm h lo hi (RLP_ListMeta v) \<and>
     slice_within get_routes (route_within om) h lo hi (RLP_Items v)"

definition virtual_service_within ::
    "(('m, 'l, 'i, 'c) heap \<Rightarrow> nat \<Rightarrow> nat \<Rightarrow> 'm \<Rightarrow> bool) \<Rightarrow> (('m, 'l, 'i, 'c) heap \<Rightarrow> nat \<Rightarrow> nat \<Rightarrow> 'i \<Rightarrow> bool) \<Rightarrow>
     ('m, 'l, 'i, 'c) heap \<Rightarrow> nat \<Rightarrow> nat \<Rightarrow> ('m, 'i) VirtualServiceP \<Rightarrow> bool" where
  "virtual_service_within om iv h lo hi v \<longleftrightarrow> om h lo hi (VSP_ObjectMeta v) \<and>
     iv h lo hi (VSSP_VirtualService (VSP_Spec v))"

definition virtual_service_list_within ::
    "(('m, 'l, 'i, 'c) heap \<Rightarrow> nat \<Rightarrow> nat \<Rightarrow> 'm \<Rightarrow> bool) \<Rightarrow> (('m, 'l, 'i, 'c) heap \<Rightarrow> nat \<Rightarrow> nat \<Rightarrow> 'l \<Rightarrow> bool) \<Rightarrow>
     (('m, 'l, 'i, 'c) heap \<Rightarrow> nat \<Rightarrow> nat \<Rightarrow> 'i \<Rightarrow> bool) \<Rightarrow>
     ('m, 'l, 'i, 'c) heap \<Rightarrow> nat \<Rightarrow> nat \<Rightarrow> 'l VirtualServiceListP \<Rightarrow> bool" where
  "virtual_service_list_within om lm iv h lo hi v \<longleftrightarrow> lm h lo hi (VSLP_ListMeta v) \<and>
     slice_within get_virtual_services (virtual_service_within om iv) h lo hi (VSLP_Items v)"

section \<open>The methods keep the contract\<close>

lemma cell_getters [simp]:
  "get_int (IntCell x) = x" "get_map (MapCell m) = m" "get_destinations (DestinationArray ds) = ds"
  "get_conditions (ConditionArray cs) = cs" "get_routes (RouteArray rs) = rs"
  "get_virtual_services (VirtualServiceArray vs) = vs" "get_route E (RouteCell r) = r"
  "get_route_list E (RouteListCell rl) = rl" "get_virtual_service E (VirtualServiceCell v) = v"
  "get_virtual_service_list E (VirtualServiceListCell vl) = vl"
  by (simp_all add: get_int_def get_map_def get_destinations_def get_conditions_def get_routes_def
      get_virtual_services_def get_route_def get_route_list_def get_virtual_service_def get_virtual_service_list_def)

lemma selector_copy:
  "deep_copy (\<lambda>h lo hi v. ref_within h lo hi (DSP_MatchLabels v)) read_selector DestinationSelector_DeepCopyInto"
  by (rule deep_copy_struct [OF deep_copy_ref [where get = get_map and mk = MapCell], where flds = DSP_MatchLabels
        and set_flds = "\<lambda>v p. v\<lparr>DSP_MatchLabels := p\<rparr>" and rest = "\<lambda>_. ()"
        and build = "\<lambda>_ m. \<lparr>DS_MatchLabels = (case m of None \<Rightarrow> Map.empty | Some m \<Rightarrow> m)\<rparr>"])
    (simp_all add: read_selector_def DestinationSelector_DeepCopyInto_def)

lemma destination_copy: "deep_copy destination_within read_destination RouteDestination_DeepCopyInto"
proof -
  note ints = deep_copy_ref [where get = get_int and mk = IntCell, simplified]
  show ?thesis
    by (rule deep_copy_struct [OF deep_copy_both [OF ints deep_copy_both [OF ints selector_copy]],
          where flds = "\<lambda>v. (RDP_Weight v, RDP_Port v, RDP_Selector v)"
          and set_flds = "\<lambda>v p. v\<lparr>RDP_Weight := fst p, RDP_Port := fst (snd p), RDP_Selector := snd (snd p)\<rparr>"
          and rest = "\<lambda>v. (RDP_Guid v, RDP_App v)"
          and build = "\<lambda>ga p. \<lparr>RD_Guid = fst ga, RD_Weight = fst p, RD_Port = fst (snd p), RD_App = snd ga, RD_Selector = snd (snd p)\<rparr>"])
      (simp_all add: destination_within_def read_destination_def RouteDestination_DeepCopyInto_def copy_both_def split: prod.splits)
qed

lemma spec_copy: "deep_copy spec_within read_spec RouteSpec_DeepCopyInto"
  by (rule deep_copy_struct [OF deep_copy.deep_copy_slice [OF destination_copy, where get = get_destinations
          and mk = DestinationArray and zero = zero_RouteDestinationP],
        where flds = RSP_Destinations and set_flds = "\<lambda>v p. v\<lparr>RSP_Destinations := p\<rparr>"
        and rest = "\<lambda>v. (RSP_Host v, RSP_Path v, RSP_Url v, RSP_Domain v)"
        and build = "\<lambda>(a, b, c, d) ds. \<lparr>RS_Host = a, RS_Path = b, RS_Url = c, RS_Domain = d, RS_Destinations = ds\<rparr>"])
    (simp_all add: spec_within_def read_spec_def RouteSpec_DeepCopyInto_def)

lemma status_copy: "deep_copy status_within read_status RouteStatus_DeepCopyInto"
  by (rule deep_copy_struct [OF deep_copy.deep_copy_slice [OF deep_copy_plain, where get = get_conditions
          and mk = ConditionArray and zero = zero_Condition],
        where flds = RStP_Conditions and set_flds = "\<lambda>v p. v\<lparr>RStP_Conditions := p\<rparr>"
        and rest = "\<lambda>_. ()" and build = "\<lambda>_ cs. \<lparr>RSt_Conditions = cs\<rparr>"])
    (simp_all add: status_within_def read_status_def RouteStatus_DeepCopyInto_def)

text \<open>The law of the other packages' methods, and what follows for the types that use them.\<close>

locale ext_copies =
  fixes E :: "('m, 'l, 'i, 'c) ExtCopy"
    and om_within :: "('m, 'l, 'i, 'c) heap \<Rightarrow> nat \<Rightarrow> nat \<Rightarrow> 'm \<Rightarrow> bool"
    and om_read :: "('m, 'l, 'i, 'c) heap \<Rightarrow> 'm \<Rightarrow> ObjectMeta"
    and lm_within :: "('m, 'l, 'i, 'c) heap \<Rightarrow> nat \<Rightarrow> nat \<Rightarrow> 'l \<Rightarrow> bool"
    and lm_read :: "('m, 'l, 'i, 'c) heap \<Rightarrow> 'l \<Rightarrow> 'lv"
    and iv_within :: "('m, 'l, 'i, 'c) heap \<Rightarrow> nat \<Rightarrow> nat \<Rightarrow> 'i \<Rightarrow> bool"
    and iv_read :: "('m, 'l, 'i, 'c) heap \<Rightarrow> 'i \<Rightarrow> IstioVirtualService"
  assumes object_meta: "deep_copy om_within om_read (ObjectMeta_DeepCopyInto E)"
    and list_meta: "deep_copy lm_within lm_read (ListMeta_DeepCopyInto E)"
    and istio_vs: "deep_copy iv_within iv_read (IstioVirtualService_DeepCopyInto E)"
begin

lemma route_copy: "deep_copy (route_within om_within) (read_route om_read) (Route_DeepCopyInto E)"
  by (rule deep_copy_struct [OF deep_copy_both [OF object_meta deep_copy_both [OF spec_copy status_copy]],
        where flds = "\<lambda>v. (RP_ObjectMeta v, RP_Spec v, RP_Status v)"
        and set_flds = "\<lambda>v p. v\<lparr>RP_ObjectMeta := fst p, RP_Spec := fst (snd p), RP_Status := snd (snd p)\<rparr>"
        and rest = RP_TypeMeta
        and build = "\<lambda>t p. \<lparr>R_TypeMeta = t, R_ObjectMeta = fst p, R_Spec = fst (snd p), R_Status = snd (snd p)\<rparr>"])
    (simp_all add: route_within_def read_route_def Route_DeepCopyInto_def copy_both_def split: prod.splits)

lemma route_list_copy:
  "deep_copy (route_list_within om_within lm_within) (read_route_list om_read lm_read) (RouteList_DeepCopyInto E)"
  by (rule deep_copy_struct [OF deep_copy_both [OF list_meta deep_copy.deep_copy_slice [OF route_copy,
          where get = get_routes and mk = RouteArray and zero = "zero_RouteP E"]],
        where flds = "\<lambda>v. (RLP_ListMeta v, RLP_Items v)"
        and set_flds = "\<lambda>v p. v\<lparr>RLP_ListMeta := fst p, RLP_Items := snd p\<rparr>" and rest = RLP_TypeMeta
        and build = "\<lambda>t p. (t, fst p, \<lparr>RL_Items = snd p\<rparr>)"])
    (simp_all add: route_list_within_def read_route_list_def RouteList_DeepCopyInto_def copy_both_def split: prod.splits)

lemma virtual_service_copy:
  "deep_copy (virtual_service_within om_within iv_within) (read_virtual_service om_read iv_read) (VirtualService_DeepCopyInto E)"
  by (rule deep_copy_struct [OF deep_copy_both [OF object_meta istio_vs],
        where flds = "\<lambda>v. (VSP_ObjectMeta v, VSSP_VirtualService (VSP_Spec v))"
        and set_flds = "\<lambda>v p. v\<lparr>VSP_ObjectMeta := fst p, VSP_Spec := (VSP_Spec v)\<lparr>VSSP_VirtualService := snd p\<rparr>\<rparr>"
        and rest = VSP_TypeMeta
        and build = "\<lambda>t p. (t, \<lparr>VS_ObjectMeta = fst p, VS_Spec = \<lparr>VSS_VirtualService = snd p\<rparr>\<rparr>)"])
    (simp_all add: virtual_service_within_def read_virtual_service_def VirtualService_DeepCopyInto_def
      VirtualServiceSpec_DeepCopyInto_def copy_both_def split: prod.splits)

lemma virtual_service_list_copy:
  "deep_copy (virtual_service_list_within om_within lm_within iv_within)
     (read_virtual_service_list om_read lm_read iv_read) (VirtualServiceList_DeepCopyInto E)"
  by (rule deep_copy_struct [OF deep_copy_both [OF list_meta deep_copy.deep_copy_slice [OF virtual_service_copy,
          where get = get_virtual_services and mk = VirtualServiceArray and zero = "zero_VirtualServiceP E"]],
        where flds = "\<lambda>v. (VSLP_ListMeta v, VSLP_Items v)"
        and set_flds = "\<lambda>v p. v\<lparr>VSLP_ListMeta := fst p, VSLP_Items := snd p\<rparr>" and rest = VSLP_TypeMeta
        and build = "\<lambda>t p. (t, fst p, snd p)"])
    (simp_all add: virtual_service_list_within_def read_virtual_service_list_def VirtualServiceList_DeepCopyInto_def
      copy_both_def split: prod.splits)

lemmas route_list_ptr =
  deep_copy.deep_copy_ptr [OF route_list_copy, where get = "get_route_list E" and mk = RouteListCell
    and zero = "zero_RouteListP E", folded RouteList_DeepCopy_def, simplified]

lemmas virtual_service_list_ptr =
  deep_copy.deep_copy_ptr [OF virtual_service_list_copy, where get = "get_virtual_service_list E"
    and mk = VirtualServiceListCell and zero = "zero_VirtualServiceListP E", folded VirtualServiceList_DeepCopy_def, simplified]

end

end
