(* ===== verification/DeepCopyProperties.thy ===== *)
theory DeepCopyProperties
  imports DeepCopyTypes SampleData
begin

text \<open>
  What the generated copies promise their callers: whoever holds a \<^verbatim>\<open>DeepCopyObject\<close> may change it
  freely, without an effect on the original, and the other way round. The contract is interpreted on the model's own methods, and the law of the other packages on an implementation
  that keeps their structs behind a pointer.
\<close>

section \<open>Interpretations\<close>

interpretation selector_dc: deep_copy "\<lambda>h lo hi v. ref_within h lo hi (DSP_MatchLabels v)" read_selector
    DestinationSelector_DeepCopyInto
  by (rule selector_copy)

interpretation destination_dc: deep_copy destination_within read_destination RouteDestination_DeepCopyInto
  by (rule destination_copy)

interpretation spec_dc: deep_copy spec_within read_spec RouteSpec_DeepCopyInto
  by (rule spec_copy)

interpretation status_dc: deep_copy status_within read_status RouteStatus_DeepCopyInto
  by (rule status_copy)

text \<open>
  An implementation of the other packages' structs: each is a pointer to one cell of its own, with the
  list metadata a plain string.
\<close>

datatype ext_value = MetaValue ObjectMeta | IstioValue IstioVirtualService

type_synonym sample_heap = "(ref, string, ref, ext_value) heap"

definition get_meta :: "(ref, string, ref, ext_value) cell \<Rightarrow> ObjectMeta" where
  "get_meta c = (case c of ExternalCell (MetaValue m) \<Rightarrow> m | _ \<Rightarrow> zero_ObjectMeta)"

definition zero_Istio :: IstioVirtualService where
  "zero_Istio = VSS_VirtualService (VS_Spec zero_VirtualService)"

definition get_istio :: "(ref, string, ref, ext_value) cell \<Rightarrow> IstioVirtualService" where
  "get_istio c = (case c of ExternalCell (IstioValue v) \<Rightarrow> v | _ \<Rightarrow> zero_Istio)"

definition sample_ext :: "(ref, string, ref, ext_value) ExtCopy" where
  "sample_ext = \<lparr>
     ObjectMeta_DeepCopyInto = copy_ref get_meta (\<lambda>m. ExternalCell (MetaValue m)),
     ListMeta_DeepCopyInto = copy_plain,
     IstioVirtualService_DeepCopyInto = copy_ref get_istio (\<lambda>v. ExternalCell (IstioValue v)),
     zero_ObjectMetaP = None, zero_ListMetaP = '''', zero_IstioVirtualServiceP = None\<rparr>"

definition meta_read :: "sample_heap \<Rightarrow> ref \<Rightarrow> ObjectMeta" where
  "meta_read h p = (case read_ref get_meta h p of None \<Rightarrow> zero_ObjectMeta | Some m \<Rightarrow> m)"

definition istio_read :: "sample_heap \<Rightarrow> ref \<Rightarrow> IstioVirtualService" where
  "istio_read h p = (case read_ref get_istio h p of None \<Rightarrow> zero_Istio | Some v \<Rightarrow> v)"

lemma deep_copy_ref_default:
  assumes "\<And>v. get (mk v) = v" and "\<And>h p. rd h p = (case read_ref get h p of None \<Rightarrow> z | Some v \<Rightarrow> v)"
  shows "deep_copy ref_within rd (copy_ref get mk)"
  by (rule deep_copy_struct [OF deep_copy_ref [of get mk], where flds = "\<lambda>p. p" and set_flds = "\<lambda>_ p. p"
        and rest = "\<lambda>_. ()" and build = "\<lambda>_ r. case r of None \<Rightarrow> z | Some v \<Rightarrow> v"])
    (simp_all add: assms)

interpretation sample: ext_copies sample_ext ref_within meta_read "\<lambda>_ _ _ _. True" "\<lambda>_ v. v" ref_within istio_read
proof (rule ext_copies.intro)
  show "deep_copy ref_within meta_read (ObjectMeta_DeepCopyInto sample_ext)"
    unfolding sample_ext_def ExtCopy.simps
    by (rule deep_copy_ref_default [where z = zero_ObjectMeta]) (simp_all add: get_meta_def meta_read_def)
  show "deep_copy (\<lambda>_ _ _ _. True) (\<lambda>_ v. v) (ListMeta_DeepCopyInto sample_ext)"
    unfolding sample_ext_def ExtCopy.simps by (rule deep_copy_plain)
  show "deep_copy ref_within istio_read (IstioVirtualService_DeepCopyInto sample_ext)"
    unfolding sample_ext_def ExtCopy.simps
    by (rule deep_copy_ref_default [where z = zero_Istio]) (simp_all add: get_istio_def istio_read_def)
qed

section \<open>Objects\<close>

text \<open>The copies of single objects and of lists, behind their pointers.\<close>

context ext_copies
begin

lemmas route_ptr =
  deep_copy.deep_copy_ptr [OF route_copy, where get = "get_route E" and mk = RouteCell
    and zero = "zero_RouteP E", folded Route_DeepCopy_def, simplified]

lemmas virtual_service_ptr =
  deep_copy.deep_copy_ptr [OF virtual_service_copy, where get = "get_virtual_service E"
    and mk = VirtualServiceCell and zero = "zero_VirtualServiceP E", folded VirtualService_DeepCopy_def, simplified]

end

text \<open>What a caller of \<^verbatim>\<open>DeepCopyObject\<close> gets, for every type.\<close>

definition detached ::
    "(('m, 'l, 'i, 'c) heap \<Rightarrow> ref \<Rightarrow> 'v) \<Rightarrow> ref \<Rightarrow> ref \<Rightarrow> ('m, 'l, 'i, 'c) heap \<Rightarrow> ('m, 'l, 'i, 'c) heap \<Rightarrow> bool" where
  "detached rd p p' h h' \<longleftrightarrow>
     agree 0 (next_addr h) h h' \<and>
     (\<forall>h''. agree (next_addr h) (next_addr h') h' h'' \<longrightarrow> rd h'' p' = rd h p) \<and>
     (\<forall>h''. agree 0 (next_addr h) h' h'' \<longrightarrow> rd h'' p = rd h p)"

lemma new_copy_Some: "new_copy get mk zero into (Some a) h = (p', h') \<Longrightarrow> \<exists>a'. p' = Some a' \<and> a' = next_addr h"
  by (auto simp: new_copy_def alloc_def split: prod.splits)

lemma object_copied:
  assumes "deep_copy W rd dc" and "W h 0 (next_addr h) (Some a)"
    and "dc = new_copy get mk zero into" and "as_object obj (dc (Some a) h) = (res, h')"
  shows "\<exists>a'. res = Some (obj (Some a')) \<and> next_addr h \<le> a' \<and> detached rd (Some a) (Some a') h h'"
proof -
  obtain p' h1 where dc: "dc (Some a) h = (p', h1)" by fastforce
  then obtain a' where a': "p' = Some a'" "a' = next_addr h" using new_copy_Some assms(3) by metis
  note C = deep_copy.copyD(2) [OF assms(1) dc assms(2)] deep_copy.independent [OF assms(1) dc assms(2)]
  from assms(4) dc a' have "res = Some (obj (Some a'))" "h' = h1" by (simp_all add: as_object_def)
  with C a' show ?thesis unfolding detached_def by blast
qed

text \<open>Single objects.\<close>

lemma route_detached:
  assumes "ext_copies E omw omr lmw lmr ivw ivr"
    and "ptr_within (get_route E) (route_within omw) h 0 (next_addr h) (Some a)"
    and "Route_DeepCopyObject E (Some a) h = (res, h')"
  shows "\<exists>a'. res = Some (RouteObject (Some a')) \<and> next_addr h \<le> a' \<and>
    detached (read_ptr (get_route E) (read_route omr)) (Some a) (Some a') h h'"
  using object_copied [OF ext_copies.route_ptr [OF assms(1)] assms(2) Route_DeepCopy_def] assms(3)
  by (simp add: Route_DeepCopyObject_def)

lemma virtual_service_detached:
  assumes "ext_copies E omw omr lmw lmr ivw ivr"
    and "ptr_within (get_virtual_service E) (virtual_service_within omw ivw) h 0 (next_addr h) (Some a)"
    and "VirtualService_DeepCopyObject E (Some a) h = (res, h')"
  shows "\<exists>a'. res = Some (VirtualServiceObject (Some a')) \<and> next_addr h \<le> a' \<and>
    detached (read_ptr (get_virtual_service E) (read_virtual_service omr ivr)) (Some a) (Some a') h h'"
  using object_copied [OF ext_copies.virtual_service_ptr [OF assms(1)] assms(2) VirtualService_DeepCopy_def] assms(3)
  by (simp add: VirtualService_DeepCopyObject_def)

text \<open>
  \<^verbatim>\<open>DeepCopyObject\<close> of a nil pointer is the nil interface and touches no memory; of any other
  pointer it is a new object of the same type. No result is an interface around a nil pointer.
\<close>

lemma deep_copy_object_nil:
  "Route_DeepCopyObject E None h = (None, h)"
  "RouteList_DeepCopyObject E None h = (None, h)"
  "VirtualService_DeepCopyObject E None h = (None, h)"
  "VirtualServiceList_DeepCopyObject E None h = (None, h)"
  "fst (Route_DeepCopyObject E (Some a) h) = Some (RouteObject (Some (next_addr h)))"
  "fst (RouteList_DeepCopyObject E (Some a) h) = Some (RouteListObject (Some (next_addr h)))"
  "fst (VirtualService_DeepCopyObject E (Some a) h) = Some (VirtualServiceObject (Some (next_addr h)))"
  "fst (VirtualServiceList_DeepCopyObject E (Some a) h) = Some (VirtualServiceListObject (Some (next_addr h)))"
  by (simp_all add: as_object_def Route_DeepCopyObject_def RouteList_DeepCopyObject_def VirtualService_DeepCopyObject_def
      VirtualServiceList_DeepCopyObject_def Route_DeepCopy_def RouteList_DeepCopy_def VirtualService_DeepCopy_def
      VirtualServiceList_DeepCopy_def new_copy_def alloc_def split: prod.splits)

section \<open>A memory with one route\<close>

definition sample_memory :: sample_heap where
  "sample_memory = \<lparr>next_addr = 6, cells = (\<lambda>_. Unused)(
     0 := IntCell 100, 1 := MapCell [''cloudfoundry.org/app_guid'' \<mapsto> ''app-guid-0''],
     2 := DestinationArray [zero_RouteDestinationP\<lparr>RDP_Guid := ''dest-0'', RDP_Weight := Some 0,
            RDP_Selector := \<lparr>DSP_MatchLabels = Some 1\<rparr>\<rparr>],
     3 := ExternalCell (MetaValue (sample_meta ''route-guid-0'')),
     4 := RouteArray [\<lparr>RP_TypeMeta = zero_TypeMeta, RP_ObjectMeta = Some 3,
            RP_Spec = zero_RouteSpecP\<lparr>RSP_Host := ''test0'', RSP_Destinations := Some (2, 0, 1)\<rparr>,
            RP_Status = zero_RouteStatusP\<rparr>],
     5 := RouteListCell \<lparr>RLP_TypeMeta = zero_TypeMeta, RLP_ListMeta = ''v7'', RLP_Items = Some (4, 0, 1)\<rparr>)\<rparr>"

lemma sample_memory_within:
  "ptr_within (get_route_list sample_ext) (route_list_within ref_within (\<lambda>_ _ _ _. True))
     sample_memory 0 (next_addr sample_memory) (Some 5)"
  by (simp add: ptr_within_def sample_memory_def get_route_list_def route_list_within_def slice_within_def elements_def
      get_routes_def route_within_def spec_within_def status_within_def get_destinations_def destination_within_def
      ref_within_def zero_RouteSpecP_def zero_RouteStatusP_def zero_RouteDestinationP_def)

definition sample_vs_memory :: sample_heap where
  "sample_vs_memory = \<lparr>next_addr = 4, cells = (\<lambda>_. Unused)(
     0 := ExternalCell (MetaValue (sample_meta ''vs-0'')),
     1 := ExternalCell (IstioValue (zero_Istio\<lparr>VS_Hosts := [sample_fqdn]\<rparr>)),
     2 := VirtualServiceArray [\<lparr>VSP_TypeMeta = zero_TypeMeta, VSP_ObjectMeta = Some 0,
            VSP_Spec = \<lparr>VSSP_VirtualService = Some 1\<rparr>, VSP_Status = ()\<rparr>],
     3 := VirtualServiceListCell \<lparr>VSLP_TypeMeta = zero_TypeMeta, VSLP_ListMeta = ''v7'', VSLP_Items = Some (2, 0, 1)\<rparr>)\<rparr>"

lemma sample_vs_memory_within:
  "ptr_within (get_virtual_service_list sample_ext)
     (virtual_service_list_within ref_within (\<lambda>_ _ _ _. True) ref_within)
     sample_vs_memory 0 (next_addr sample_vs_memory) (Some 3)"
  by (simp add: ptr_within_def sample_vs_memory_def get_virtual_service_list_def virtual_service_list_within_def
      slice_within_def elements_def get_virtual_services_def virtual_service_within_def ref_within_def)

section \<open>Properties\<close>

text \<open>
  C36. The copy of a route list (\<^verbatim>\<open>RouteList.DeepCopyObject\<close>) is a new
  object that reads as the original did and shares no memory with it: the copying changes nothing
  that was there before, no later change outside the copy's own memory shows in the copy, and no
  change in that memory shows in the original.
\<close>

theorem route_list_detached:
  assumes "ext_copies E omw omr lmw lmr ivw ivr"
    and "ptr_within (get_route_list E) (route_list_within omw lmw) h 0 (next_addr h) (Some a)"
    and "RouteList_DeepCopyObject E (Some a) h = (res, h')"
  shows "\<exists>a'. res = Some (RouteListObject (Some a')) \<and> next_addr h \<le> a' \<and>
    detached (read_ptr (get_route_list E) (read_route_list omr lmr)) (Some a) (Some a') h h'"
  using object_copied [OF ext_copies.route_list_ptr [OF assms(1)] assms(2) RouteList_DeepCopy_def] assms(3)
  by (simp add: RouteList_DeepCopyObject_def)

theorem route_list_detached_witness:
  "\<exists>a' h'. RouteList_DeepCopyObject sample_ext (Some 5) sample_memory = (Some (RouteListObject (Some a')), h') \<and>
     read_ptr (get_route_list sample_ext) (read_route_list meta_read (\<lambda>_ v. v))
       (store_cell 0 (IntCell 1) h') (Some a')
     = read_ptr (get_route_list sample_ext) (read_route_list meta_read (\<lambda>_ v. v)) sample_memory (Some 5)"
proof -
  obtain res h' where c: "RouteList_DeepCopyObject sample_ext (Some 5) sample_memory = (res, h')" by fastforce
  obtain a' where a': "res = Some (RouteListObject (Some a'))"
    and d: "detached (read_ptr (get_route_list sample_ext) (read_route_list meta_read (\<lambda>_ v. v))) (Some 5) (Some a') sample_memory h'"
    using route_list_detached [OF sample.ext_copies_axioms sample_memory_within c] by blast
  have "agree (next_addr sample_memory) (next_addr h') h' (store_cell 0 (IntCell 1) h')"
    by (rule store_cell_agree) (simp add: sample_memory_def)
  with a' c d show ?thesis unfolding detached_def by blast
qed

text \<open>
  The same of a list of VirtualServices, whose spec is a message of Istio's API: the generated
  code copies that message with its own method and so shares nothing with the original.
\<close>

theorem virtual_service_list_detached:
  assumes "ext_copies E omw omr lmw lmr ivw ivr"
    and "ptr_within (get_virtual_service_list E) (virtual_service_list_within omw lmw ivw) h 0 (next_addr h) (Some a)"
    and "VirtualServiceList_DeepCopyObject E (Some a) h = (res, h')"
  shows "\<exists>a'. res = Some (VirtualServiceListObject (Some a')) \<and> next_addr h \<le> a' \<and>
    detached (read_ptr (get_virtual_service_list E) (read_virtual_service_list omr lmr ivr)) (Some a) (Some a') h h'"
  using object_copied [OF ext_copies.virtual_service_list_ptr [OF assms(1)] assms(2) VirtualServiceList_DeepCopy_def] assms(3)
  by (simp add: VirtualServiceList_DeepCopyObject_def)

theorem virtual_service_list_detached_witness:
  "\<exists>a' h'. VirtualServiceList_DeepCopyObject sample_ext (Some 3) sample_vs_memory
       = (Some (VirtualServiceListObject (Some a')), h') \<and>
     read_ptr (get_virtual_service_list sample_ext) (read_virtual_service_list meta_read (\<lambda>_ v. v) istio_read)
       (store_cell a' Unused h') (Some 3)
     = read_ptr (get_virtual_service_list sample_ext) (read_virtual_service_list meta_read (\<lambda>_ v. v) istio_read)
         sample_vs_memory (Some 3)"
proof -
  obtain res h' where c: "VirtualServiceList_DeepCopyObject sample_ext (Some 3) sample_vs_memory = (res, h')" by fastforce
  obtain a' where a': "res = Some (VirtualServiceListObject (Some a'))" "next_addr sample_vs_memory \<le> a'"
    and d: "detached (read_ptr (get_virtual_service_list sample_ext)
        (read_virtual_service_list meta_read (\<lambda>_ v. v) istio_read)) (Some 3) (Some a') sample_vs_memory h'"
    using virtual_service_list_detached [OF sample.ext_copies_axioms sample_vs_memory_within c] by blast
  have "agree 0 (next_addr sample_vs_memory) h' (store_cell a' Unused h')"
    by (rule store_cell_agree) (use a'(2) in simp)
  with a'(1) c d show ?thesis unfolding detached_def by blast
qed

end
