(* ===== verification/GoFlags.thy ===== *)
theory GoFlags
  imports Prelude
begin

text \<open>
  Go's \<^verbatim>\<open>flag\<close> package as \<^verbatim>\<open>main\<close> uses it (Go 1.15): \<^verbatim>\<open>FlagSet.parseOne\<close>, \<^verbatim>\<open>FlagSet.Parse\<close> with
  \<^verbatim>\<open>flag.ExitOnError\<close>, and \<^verbatim>\<open>strconv.ParseBool\<close>. A flag set is a function from names to flags; a flag
  says whether it is boolean and how setting it changes the parsed values, or refuses.
\<close>

record 'v Flag =
  IsBoolFlag :: bool
  Set_Flag :: "string \<Rightarrow> 'v \<Rightarrow> 'v option"

type_synonym 'v flag_set = "string \<Rightarrow> 'v Flag option"

definition ParseBool :: "string \<Rightarrow> bool option" where
  "ParseBool s =
     (if s \<in> {''1'', ''t'', ''T'', ''true'', ''TRUE'', ''True''} then Some True
      else if s \<in> {''0'', ''f'', ''F'', ''false'', ''FALSE'', ''False''} then Some False
      else None)"

text \<open>\<^verbatim>\<open>flag.StringVar\<close> and \<^verbatim>\<open>flag.BoolVar\<close>: the variable is a field of \<open>'v\<close>, written by \<open>put\<close>.\<close>

definition StringVar :: "(string \<Rightarrow> 'v \<Rightarrow> 'v) \<Rightarrow> 'v Flag" where
  "StringVar put = \<lparr>IsBoolFlag = False, Set_Flag = (\<lambda>s v. Some (put s v))\<rparr>"

definition BoolVar :: "(bool \<Rightarrow> 'v \<Rightarrow> 'v) \<Rightarrow> 'v Flag" where
  "BoolVar put = \<lparr>IsBoolFlag = True, Set_Flag = (\<lambda>s v. map_option (\<lambda>b. put b v) (ParseBool s))\<rparr>"

text \<open>\<^verbatim>\<open>FlagSet.Var\<close>: defining a name twice panics.\<close>

definition flag_Var :: "string \<Rightarrow> 'v Flag \<Rightarrow> 'v flag_set \<Rightarrow> 'v flag_set go_result" where
  "flag_Var name f formal =
     (if formal name \<noteq> None then Inl (Panic (''flag redefined: '' @ name)) else Inr (formal(name \<mapsto> f)))"

text \<open>
  The name and the value of an argument without its leading minuses: the first \<^verbatim>\<open>=\<close> after the first
  character separates them.
\<close>

definition split_flag :: "string \<Rightarrow> string \<times> string option" where
  "split_flag name =
     (case dropWhile (\<lambda>c. c \<noteq> CHR ''='') (tl name) of
        [] \<Rightarrow> (name, None)
      | _ # v \<Rightarrow> (take 1 name @ takeWhile (\<lambda>c. c \<noteq> CHR ''='') (tl name), Some v))"

datatype flag_error = ErrHelp | FlagFailure

text \<open>One argument: the parse is over, a flag was consumed, or an error.\<close>

datatype 'v parse_step = Done "string list" | Seen "string list" 'v | Failed flag_error

definition set_flag :: "'v Flag \<Rightarrow> string option \<Rightarrow> string list \<Rightarrow> 'v \<Rightarrow> 'v parse_step" where
  "set_flag f value rest v =
     (if IsBoolFlag f
      then (case Set_Flag f (case value of None \<Rightarrow> ''true'' | Some x \<Rightarrow> x) v of
              None \<Rightarrow> Failed FlagFailure | Some v' \<Rightarrow> Seen rest v')
      else (case (value, rest) of
              (Some x, _) \<Rightarrow> (case Set_Flag f x v of None \<Rightarrow> Failed FlagFailure | Some v' \<Rightarrow> Seen rest v')
            | (None, x # rest') \<Rightarrow> (case Set_Flag f x v of None \<Rightarrow> Failed FlagFailure | Some v' \<Rightarrow> Seen rest' v')
            | (None, []) \<Rightarrow> Failed FlagFailure))"

definition parseOne :: "'v flag_set \<Rightarrow> string list \<Rightarrow> 'v \<Rightarrow> 'v parse_step" where
  "parseOne formal args v =
     (case args of
        [] \<Rightarrow> Done []
      | s # rest \<Rightarrow>
          if length s < 2 \<or> s ! 0 \<noteq> CHR ''-'' then Done args
          else if s = ''--'' then Done rest
          else let name = drop (if s ! 1 = CHR ''-'' then 2 else 1) s
               in if name = [] \<or> name ! 0 = CHR ''-'' \<or> name ! 0 = CHR ''='' then Failed FlagFailure
                  else (case split_flag name of (name, value) \<Rightarrow>
                    (case formal name of
                       None \<Rightarrow> Failed (if name = ''help'' \<or> name = ''h'' then ErrHelp else FlagFailure)
                     | Some f \<Rightarrow> set_flag f value rest v)))"

lemma set_flag_shorter: "set_flag f value rest v = Seen rest' v' \<Longrightarrow> length rest' \<le> length rest"
  by (auto simp: set_flag_def split: if_splits option.splits list.splits)

lemma parseOne_shorter: "parseOne formal args v = Seen rest v' \<Longrightarrow> length rest < length args"
  by (auto simp: parseOne_def Let_def less_Suc_eq_le
      split: list.splits if_splits option.splits prod.splits dest: set_flag_shorter)

text \<open>\<^verbatim>\<open>Parse\<close>: the values and the arguments left over. Every flag seen consumes an argument, so it ends.\<close>

function flag_Parse :: "'v flag_set \<Rightarrow> string list \<Rightarrow> 'v \<Rightarrow> flag_error + (string list \<times> 'v)" where
  "flag_Parse formal args v =
     (case parseOne formal args v of
        Done rest \<Rightarrow> Inr (rest, v)
      | Seen rest v' \<Rightarrow> flag_Parse formal rest v'
      | Failed e \<Rightarrow> Inl e)"
  by pat_completeness auto
termination
  by (relation "measure (\<lambda>(_, args, _). length args)") (auto dest: parseOne_shorter)

declare flag_Parse.simps [simp del]

section \<open>Lemmas\<close>

text \<open>Writing a flag as \<^verbatim>\<open>-name=value\<close> and reading it back.\<close>

lemma split_flag_eq:
  assumes "CHR ''='' \<notin> set name" and "name \<noteq> []"
  shows "split_flag (name @ ''='' @ value) = (name, Some value)"
  using assms by (cases name) (auto simp: split_flag_def dropWhile_append takeWhile_append)

lemma parseOne_assignment:
  assumes "formal name = Some f" and "CHR ''='' \<notin> set name" and "name \<noteq> []" and "hd name \<noteq> CHR ''-''"
  shows "parseOne formal ((CHR ''-'' # name @ ''='' @ value) # rest) v = set_flag f (Some value) rest v"
proof -
  obtain c cs where name: "name = c # cs" using assms(3) by (cases name) auto
  with assms have "c \<noteq> CHR ''-''" and "c \<noteq> CHR ''=''" by auto
  then show ?thesis using split_flag_eq [OF assms(2,3)] assms(1) by (simp add: parseOne_def name)
qed

lemma flag_Parse_assignment:
  assumes "formal name = Some f" and "CHR ''='' \<notin> set name" and "name \<noteq> []" and "hd name \<noteq> CHR ''-''"
    and "Set_Flag f value v = Some v'"
  shows "flag_Parse formal ((CHR ''-'' # name @ ''='' @ value) # rest) v = flag_Parse formal rest v'"
  by (subst flag_Parse.simps)
    (simp add: parseOne_assignment [of formal name f, OF assms(1-4), simplified] set_flag_def assms(5) split: option.splits)

lemma flag_Parse_Nil [simp]: "flag_Parse formal [] v = Inr ([], v)"
  by (subst flag_Parse.simps) (simp add: parseOne_def)

lemma flag_Parse_positional:
  "s = '''' \<or> hd s \<noteq> CHR ''-'' \<Longrightarrow> flag_Parse formal (s # rest) v = Inr (s # rest, v)"
  by (subst flag_Parse.simps) (cases s; simp add: parseOne_def)

end
