(* ===== verification/Startup.thy ===== *)
theory Startup
  imports RouteController Config GoFlags SampleCluster
begin

text \<open>
  How the controller starts: the registration of its API types with the scheme (the \<^verbatim>\<open>init\<close> functions
  and \<^verbatim>\<open>groupversion_info.go\<close> of both API packages), \<^verbatim>\<open>RouteReconciler.SetupWithManager\<close>, and \<^verbatim>\<open>main.go\<close>
  from the command line to the exit code. The manager of controller-runtime is a record of the calls
  made on it, over a state \<open>'w\<close> of its own; what it promises is the locale \<open>manager\<close>. Logging and the
  signal handler are not modelled.
\<close>

section \<open>The scheme\<close>

text \<open>
  The scheme builder of controller-runtime and the scheme of the API machinery are parameters: \<open>'b\<close>
  is a \<^verbatim>\<open>scheme.Builder\<close>, \<open>'k\<close> a \<^verbatim>\<open>runtime.Scheme\<close>, and objects are registered by the name of their
  type.
\<close>

record ('b, 'k) SchemeLib =
  New_Builder :: "GroupVersion \<Rightarrow> 'b"
  Register :: "'b \<Rightarrow> string list \<Rightarrow> 'b"
  Builder_AddToScheme :: "'b \<Rightarrow> 'k \<Rightarrow> 'k \<times> go_error option"
  ClientGo_AddToScheme :: "'k \<Rightarrow> 'k \<times> go_error option"
  NewScheme :: 'k

definition VirtualServiceGroupVersion :: GroupVersion where
  "VirtualServiceGroupVersion = \<lparr>GV_Group = ''networking.istio.io'', GV_Version = ''v1alpha3''\<rparr>"

definition RouteSchemeBuilder :: "('b, 'k) SchemeLib \<Rightarrow> 'b" where
  "RouteSchemeBuilder S = New_Builder S RouteGroupVersion"

definition VirtualServiceSchemeBuilder :: "('b, 'k) SchemeLib \<Rightarrow> 'b" where
  "VirtualServiceSchemeBuilder S = New_Builder S VirtualServiceGroupVersion"

text \<open>
  Both \<^verbatim>\<open>AddToScheme\<close> are method values bound to the builder's address, so they see what the packages'
  \<^verbatim>\<open>init\<close> registered.
\<close>

definition Route_init :: "('b, 'k) SchemeLib \<Rightarrow> 'b" where
  "Route_init S = Register S (RouteSchemeBuilder S) [''Route'', ''RouteList'']"

definition VirtualService_init :: "('b, 'k) SchemeLib \<Rightarrow> 'b" where
  "VirtualService_init S = Register S (VirtualServiceSchemeBuilder S) [''VirtualService'', ''VirtualServiceList'']"

definition Route_AddToScheme :: "('b, 'k) SchemeLib \<Rightarrow> 'k \<Rightarrow> 'k \<times> go_error option" where
  "Route_AddToScheme S = Builder_AddToScheme S (Route_init S)"

definition VirtualService_AddToScheme :: "('b, 'k) SchemeLib \<Rightarrow> 'k \<Rightarrow> 'k \<times> go_error option" where
  "VirtualService_AddToScheme S = Builder_AddToScheme S (VirtualService_init S)"

definition main_init :: "('b, 'k) SchemeLib \<Rightarrow> 'k" where
  "main_init S =
     (let scheme = NewScheme S;
          (scheme, _) = ClientGo_AddToScheme S scheme;
          (scheme, _) = Route_AddToScheme S scheme;
          (scheme, _) = VirtualService_AddToScheme S scheme
      in scheme)"

section \<open>SetupWithManager\<close>

record ('w, 's, 'k) Manager =
  GetClient :: "'s Client"
  GetScheme :: 'k
  IndexField_Route :: "string \<Rightarrow> (Route \<Rightarrow> string list) \<Rightarrow> ('w, unit) go_action"
  IndexField_Service :: "string \<Rightarrow> (Service \<Rightarrow> string list) \<Rightarrow> ('w, unit) go_action"
  Complete_For_Route :: "'s RouteReconciler \<Rightarrow> ('w, unit) go_action"
  Start :: "('w, unit) go_action"

definition SetupWithManager :: "'s RouteReconciler \<Rightarrow> ('w, 's, 'k) Manager \<Rightarrow> ('w, unit) go_action" where
  "SetupWithManager r mgr =
     if_ok (IndexField_Route mgr fqdnFieldKey indexRouteByFQDN) (\<lambda>_.
       if_ok (IndexField_Service mgr serviceOwnerKey indexServiceByOwner) (\<lambda>_.
         Complete_For_Route mgr r))"

section \<open>main\<close>

record main_vars =
  metricsAddr :: string
  enableLeaderElection :: bool

record 'k ManagerOptions =
  MO_Scheme :: 'k
  MO_MetricsBindAddress :: string
  MO_LeaderElection :: bool
  MO_LeaderElectionID :: string
  MO_LeaderElectionNamespace :: string
  MO_Port :: nat

text \<open>
  What \<^verbatim>\<open>main\<close> calls outside the repository: the flags other packages have registered on the command
  line, with the values \<open>'o\<close> they set; the client configuration \<open>'c\<close>, which depends on these; and the
  new manager.
\<close>

record ('w, 's, 'k, 'c, 'o) Runtime =
  Other_Flags :: "(main_vars \<times> 'o) flag_set"
  Other_Defaults :: 'o
  GetConfig :: "'o \<Rightarrow> ('w, 'c) go_action"
  NewManager :: "'c \<Rightarrow> 'k ManagerOptions \<Rightarrow> ('w, ('w, 's, 'k) Manager) go_action"

text \<open>How the process ends; returning from \<^verbatim>\<open>main\<close> is exit code 0.\<close>

datatype exit = Exit nat | Crash string

definition or_exit :: "('w, 'a) go_action \<Rightarrow> ('a \<Rightarrow> ('w, exit) state) \<Rightarrow> ('w, exit) state" where
  "or_exit m f = do {
     r \<leftarrow> m;
     (case r of
        Inl (Err e) \<Rightarrow> State_Monad.return (Exit 1)
      | Inl (Panic p) \<Rightarrow> State_Monad.return (Crash p)
      | Inr x \<Rightarrow> f x)
   }"

definition main_defaults :: main_vars where
  "main_defaults = \<lparr>metricsAddr = '':8080'', enableLeaderElection = False\<rparr>"

definition commandLine :: "('w, 's, 'k, 'c, 'o) Runtime \<Rightarrow> (main_vars \<times> 'o) flag_set go_result" where
  "commandLine X =
     (case flag_Var ''metrics-addr'' (StringVar (\<lambda>s (v, others). (v\<lparr>metricsAddr := s\<rparr>, others))) (Other_Flags X) of
        Inl e \<Rightarrow> Inl e
      | Inr formal \<Rightarrow>
          flag_Var ''enable-leader-election''
            (BoolVar (\<lambda>b (v, others). (v\<lparr>enableLeaderElection := b\<rparr>, others))) formal)"

definition main_options :: "'k \<Rightarrow> main_vars \<Rightarrow> Config \<Rightarrow> 'k ManagerOptions" where
  "main_options scheme v config = \<lparr>
     MO_Scheme = scheme, MO_MetricsBindAddress = metricsAddr v, MO_LeaderElection = enableLeaderElection v,
     MO_LeaderElectionID = ''cf-k8s-networking-routecontroller'',
     MO_LeaderElectionNamespace = C_LeaderElectionNamespace config, MO_Port = 9443\<rparr>"

definition main_reconciler :: "('w, 's, 'k) Manager \<Rightarrow> Config \<Rightarrow> 's RouteReconciler" where
  "main_reconciler mgr config = \<lparr>RR_Client = GetClient mgr, RR_IstioGateway = CI_Gateway (C_Istio config),
     RR_ResyncInterval = C_ResyncInterval config\<rparr>"

definition main ::
    "('b, 'k) SchemeLib \<Rightarrow> ('w, 's, 'k, 'c, 'o) Runtime \<Rightarrow> string list \<Rightarrow> (string \<rightharpoonup> string) \<Rightarrow> ('w, exit) state" where
  "main S X args env =
     or_exit (State_Monad.return (commandLine X)) (\<lambda>formal.
       (case flag_Parse formal args (main_defaults, Other_Defaults X) of
          Inl ErrHelp \<Rightarrow> State_Monad.return (Exit 0)
        | Inl FlagFailure \<Rightarrow> State_Monad.return (Exit 2)
        | Inr (_, v, others) \<Rightarrow>
            or_exit (State_Monad.return (Load env)) (\<lambda>config.
              or_exit (GetConfig X others) (\<lambda>rest.
                or_exit (NewManager X rest (main_options (main_init S) v config)) (\<lambda>mgr.
                  or_exit (SetupWithManager (main_reconciler mgr config) mgr) (\<lambda>_.
                    or_exit (Start mgr) (\<lambda>_. State_Monad.return (Exit 0))))))))"

section \<open>What the manager promises\<close>

text \<open>
  \<open>ri\<close> and \<open>si\<close> are the index functions registered for routes and Services by key, \<open>cs\<close> the
  reconcilers of the controllers for routes. A call that succeeds registers what it was given and
  leaves the other registrations alone.
\<close>

locale manager =
  fixes mgr :: "('w, 's, 'k) Manager"
    and ri :: "'w \<Rightarrow> string \<Rightarrow> (Route \<Rightarrow> string list) option"
    and si :: "'w \<Rightarrow> string \<Rightarrow> (Service \<Rightarrow> string list) option"
    and cs :: "'w \<Rightarrow> 's RouteReconciler list"
  assumes index_route: "run_state (IndexField_Route mgr key f) w = (Inr (), w') \<Longrightarrow>
      ri w' = (ri w)(key \<mapsto> f) \<and> si w' = si w \<and> cs w' = cs w"
    and index_service: "run_state (IndexField_Service mgr key g) w = (Inr (), w') \<Longrightarrow>
      si w' = (si w)(key \<mapsto> g) \<and> ri w' = ri w \<and> cs w' = cs w"
    and complete: "run_state (Complete_For_Route mgr r) w = (Inr (), w') \<Longrightarrow>
      set (cs w') = insert r (set (cs w)) \<and> ri w' = ri w \<and> si w' = si w"
begin

lemma SetupWithManager_ok:
  assumes "run_state (SetupWithManager r mgr) w = (Inr (), w')"
  shows "ri w' = (ri w)(fqdnFieldKey \<mapsto> indexRouteByFQDN) \<and>
    si w' = (si w)(serviceOwnerKey \<mapsto> indexServiceByOwner) \<and> set (cs w') = insert r (set (cs w))"
proof -
  from assms obtain w1 w2 where "run_state (IndexField_Route mgr fqdnFieldKey indexRouteByFQDN) w = (Inr (), w1)"
    and "run_state (IndexField_Service mgr serviceOwnerKey indexServiceByOwner) w1 = (Inr (), w2)"
    and "run_state (Complete_For_Route mgr r) w2 = (Inr (), w')"
    unfolding SetupWithManager_def by (elim run_if_ok_InrE) simp
  then show ?thesis using index_route index_service complete by metis
qed

end

section \<open>A manager in memory\<close>

text \<open>Registering an index twice under one key is a conflict, as in the API machinery's informers.\<close>

record 's MemWorld =
  MW_RouteIndex :: "string \<Rightarrow> (Route \<Rightarrow> string list) option"
  MW_ServiceIndex :: "string \<Rightarrow> (Service \<Rightarrow> string list) option"
  MW_Controllers :: "'s RouteReconciler list"
  MW_Started :: bool

definition mem_manager :: "'s Client \<Rightarrow> 'k \<Rightarrow> ('s MemWorld, 's, 'k) Manager" where
  "mem_manager client scheme = \<lparr>GetClient = client, GetScheme = scheme,
     IndexField_Route = (\<lambda>key f. State (\<lambda>w.
       if MW_RouteIndex w key \<noteq> None then (Inl (Err (ErrorString ''indexer conflict'')), w)
       else (Inr (), w\<lparr>MW_RouteIndex := (MW_RouteIndex w)(key \<mapsto> f)\<rparr>))),
     IndexField_Service = (\<lambda>key f. State (\<lambda>w.
       if MW_ServiceIndex w key \<noteq> None then (Inl (Err (ErrorString ''indexer conflict'')), w)
       else (Inr (), w\<lparr>MW_ServiceIndex := (MW_ServiceIndex w)(key \<mapsto> f)\<rparr>))),
     Complete_For_Route = (\<lambda>r. State (\<lambda>w. (Inr (), w\<lparr>MW_Controllers := r # MW_Controllers w\<rparr>))),
     Start = State (\<lambda>w. (Inr (), w\<lparr>MW_Started := True\<rparr>))\<rparr>"

interpretation mem_mgr: manager "mem_manager client scheme" MW_RouteIndex MW_ServiceIndex MW_Controllers
  by unfold_locales (auto simp: mem_manager_def split: if_splits)

definition sample_schemes :: "(GroupVersion \<times> string list, (GroupVersion \<times> string list) list) SchemeLib" where
  "sample_schemes = \<lparr>New_Builder = (\<lambda>gv. (gv, [])), Register = (\<lambda>(gv, ts) ts'. (gv, ts @ ts')),
     Builder_AddToScheme = (\<lambda>b k. (k @ [b], None)), ClientGo_AddToScheme = (\<lambda>k. (k, None)), NewScheme = []\<rparr>"

definition sample_runtime :: "(Cluster MemWorld, Cluster, (GroupVersion \<times> string list) list, unit, unit) Runtime" where
  "sample_runtime = \<lparr>Other_Flags = (\<lambda>_. None), Other_Defaults = (), GetConfig = (\<lambda>_. go_return ()),
     NewManager = (\<lambda>_ opts. go_return (mem_manager mem_client (MO_Scheme opts)))\<rparr>"

definition sample_world :: "Cluster MemWorld" where
  "sample_world = \<lparr>MW_RouteIndex = (\<lambda>_. None), MW_ServiceIndex = (\<lambda>_. None), MW_Controllers = [], MW_Started = False\<rparr>"

section \<open>Lemmas: running main\<close>

lemma run_or_exit:
  "run_state (or_exit m f) w =
     (case run_state m w of
        (Inl (Err e), w') \<Rightarrow> (Exit 1, w')
      | (Inl (Panic p), w') \<Rightarrow> (Crash p, w')
      | (Inr x, w') \<Rightarrow> run_state (f x) w')"
  by (auto simp: or_exit_def split: prod.splits sum.splits go_fault.splits)

lemma or_exit_0E:
  assumes "run_state (or_exit m f) w = (Exit 0, t)"
  obtains x w' where "run_state m w = (Inr x, w')" and "run_state (f x) w' = (Exit 0, t)"
  using assms by (auto simp: run_or_exit split: prod.splits sum.splits go_fault.splits)

lemma main_pure:
  assumes "commandLine X = Inr formal"
  shows "run_state (main S X args env) w =
    (case flag_Parse formal args (main_defaults, Other_Defaults X) of
       Inl ErrHelp \<Rightarrow> (Exit 0, w)
     | Inl FlagFailure \<Rightarrow> (Exit 2, w)
     | Inr (_, v, others) \<Rightarrow>
         (case Load env of
            Inl _ \<Rightarrow> (Exit 1, w)
          | Inr config \<Rightarrow>
              run_state (or_exit (GetConfig X others) (\<lambda>rest.
                or_exit (NewManager X rest (main_options (main_init S) v config)) (\<lambda>mgr.
                  or_exit (SetupWithManager (main_reconciler mgr config) mgr) (\<lambda>_.
                    or_exit (Start mgr) (\<lambda>_. State_Monad.return (Exit 0)))))) w))"
proof -
  have "Load env \<noteq> Inl (Panic p)" for p by (auto simp: Load_def split: option.splits)
  then show ?thesis
    by (auto simp: main_def run_or_exit [of "State_Monad.return _"] assms split: sum.splits flag_error.splits go_fault.splits)
qed

lemma commandLine_flags:
  assumes "commandLine X = Inr formal"
  shows "formal ''metrics-addr'' = Some (StringVar (\<lambda>s (v, others). (v\<lparr>metricsAddr := s\<rparr>, others)))"
    and "formal ''enable-leader-election'' = Some (BoolVar (\<lambda>b (v, others). (v\<lparr>enableLeaderElection := b\<rparr>, others)))"
  using assms by (auto simp: commandLine_def flag_Var_def split: if_splits sum.splits)

text \<open>Both flags as they are written in the controller's deployment.\<close>

lemma parse_both_flags:
  assumes "commandLine X = Inr formal"
  shows "flag_Parse formal [''-metrics-addr='' @ addr, ''-enable-leader-election=true''] (v, others)
    = Inr ([], v\<lparr>metricsAddr := addr, enableLeaderElection := True\<rparr>, others)"
  using flag_Parse_assignment [of formal, OF commandLine_flags(1) [OF assms], of addr "(v, others)"]
    flag_Parse_assignment [of formal, OF commandLine_flags(2) [OF assms], of "''true''" "(v\<lparr>metricsAddr := addr\<rparr>, others)"]
  by (simp add: StringVar_def BoolVar_def ParseBool_def)

section \<open>Properties\<close>

text \<open>
  C33. When the process ends with exit code 0 and was not asked for help, the manager was started in a
  state in which the two indexes the reconciler's lists rely on are registered under the very keys it
  lists by, with the route's FQDN and the first owner's UID as indexed values, and in which the
  controller for routes runs a reconciler with the manager's client and with the gateway and the
  resync interval of the configuration; the manager was made with the options of the flags and
  of the configuration.
\<close>

theorem started_as_configured:
  assumes "\<forall>c opts w mgr w'. run_state (NewManager X c opts) w = (Inr mgr, w') \<longrightarrow> manager mgr ri si cs"
    and "run_state (main S X args env) w = (Exit 0, t)" and "commandLine X = Inr formal"
    and "flag_Parse formal args (main_defaults, Other_Defaults X) \<noteq> Inl ErrHelp"
  shows "\<exists>left v others config c mgr w0 w1 w2.
    flag_Parse formal args (main_defaults, Other_Defaults X) = Inr (left, v, others) \<and> Load env = Inr config \<and>
    run_state (NewManager X c (main_options (main_init S) v config)) w0 = (Inr mgr, w1) \<and>
    ri w2 fqdnFieldKey = Some (\<lambda>route. [FQDN route]) \<and>
    si w2 serviceOwnerKey = Some indexServiceByOwner \<and>
    \<lparr>RR_Client = GetClient mgr, RR_IstioGateway = CI_Gateway (C_Istio config), RR_ResyncInterval = C_ResyncInterval config\<rparr>
      \<in> set (cs w2) \<and>
    run_state (Start mgr) w2 = (Inr (), t)"
proof -
  from assms(2,4) obtain left v others config where p: "flag_Parse formal args (main_defaults, Other_Defaults X) = Inr (left, v, others)"
    and c: "Load env = Inr config"
    and run: "run_state (or_exit (GetConfig X others) (\<lambda>rest.
                or_exit (NewManager X rest (main_options (main_init S) v config)) (\<lambda>mgr.
                  or_exit (SetupWithManager (main_reconciler mgr config) mgr) (\<lambda>_.
                    or_exit (Start mgr) (\<lambda>_. State_Monad.return (Exit 0)))))) w = (Exit 0, t)"
    unfolding main_pure [OF assms(3)] by (auto split: sum.splits flag_error.splits)
  from run obtain rest w0 where r1: "run_state (or_exit (NewManager X rest (main_options (main_init S) v config)) (\<lambda>mgr.
                  or_exit (SetupWithManager (main_reconciler mgr config) mgr) (\<lambda>_.
                    or_exit (Start mgr) (\<lambda>_. State_Monad.return (Exit 0))))) w0 = (Exit 0, t)"
    by (rule or_exit_0E)
  then obtain mgr w1 where n: "run_state (NewManager X rest (main_options (main_init S) v config)) w0 = (Inr mgr, w1)"
    and r2: "run_state (or_exit (SetupWithManager (main_reconciler mgr config) mgr) (\<lambda>_.
                    or_exit (Start mgr) (\<lambda>_. State_Monad.return (Exit 0)))) w1 = (Exit 0, t)"
    by (rule or_exit_0E)
  from r2 obtain w2 where s: "run_state (SetupWithManager (main_reconciler mgr config) mgr) w1 = (Inr (), w2)"
    and r3: "run_state (or_exit (Start mgr) (\<lambda>_. State_Monad.return (Exit 0))) w2 = (Exit 0, t)"
    by (rule or_exit_0E) simp
  from r3 have st: "run_state (Start mgr) w2 = (Inr (), t)" by (rule or_exit_0E) simp
  from manager.SetupWithManager_ok [OF assms(1) [rule_format, OF n] s] show ?thesis
    using p c n st by (intro exI [of _ left] exI [of _ v] exI [of _ others] exI [of _ config] exI [of _ rest] exI [of _ mgr]
        exI [of _ w0] exI [of _ w1] exI [of _ w2]) (simp add: main_reconciler_def indexRouteByFQDN_def [abs_def])
qed

lemma sample_commandLine: "commandLine sample_runtime =
    Inr ([''metrics-addr'' \<mapsto> StringVar (\<lambda>s (v, others). (v\<lparr>metricsAddr := s\<rparr>, others)),
          ''enable-leader-election'' \<mapsto> BoolVar (\<lambda>b (v, others). (v\<lparr>enableLeaderElection := b\<rparr>, others))])"
  by (simp add: commandLine_def sample_runtime_def flag_Var_def)

definition start_args :: "string list" where
  "start_args = [''-metrics-addr='' @ '':9090'', ''-enable-leader-election=true'']"

definition start_env :: "string \<rightharpoonup> string" where
  "start_env = [''ISTIO_GATEWAY_NAME'' \<mapsto> ''istio-ingress'', ''LEADER_ELECTION_NAMESPACE'' \<mapsto> ''cf-system'']"

lemma sample_Load: "Load start_env = Inr \<lparr>C_ResyncInterval = 30000000000, C_Istio = \<lparr>CI_Gateway = ''istio-ingress''\<rparr>,
    C_LeaderElectionNamespace = ''cf-system''\<rparr>"
  by (simp add: Load_def start_env_def)

lemma sample_main: "fst (run_state (main sample_schemes sample_runtime start_args start_env) sample_world) = Exit 0"
  unfolding main_pure [OF sample_commandLine] start_args_def sample_Load
    parse_both_flags [OF sample_commandLine, of _ main_defaults "Other_Defaults sample_runtime"]
  by (simp add: run_or_exit sample_runtime_def SetupWithManager_def mem_manager_def sample_world_def run_if_ok)

theorem started_as_configured_witness:
  "\<exists>t (w2 :: Cluster MemWorld).
     run_state (main sample_schemes sample_runtime start_args start_env) sample_world = (Exit 0, t) \<and>
     MW_RouteIndex w2 ''spec.fqdn'' = Some (\<lambda>route. [FQDN route]) \<and>
     sample_reconciler \<in> set (MW_Controllers w2)"
proof -
  obtain t where run: "run_state (main sample_schemes sample_runtime start_args start_env) sample_world = (Exit 0, t)"
    using sample_main by (metis prod.collapse)
  have parse: "flag_Parse [''metrics-addr'' \<mapsto> StringVar (\<lambda>s (v, others). (v\<lparr>metricsAddr := s\<rparr>, others)),
          ''enable-leader-election'' \<mapsto> BoolVar (\<lambda>b (v, others). (v\<lparr>enableLeaderElection := b\<rparr>, others))]
        start_args (main_defaults, Other_Defaults sample_runtime) \<noteq> Inl ErrHelp"
    unfolding start_args_def parse_both_flags [OF sample_commandLine] by simp
  have "\<forall>c opts w mgr w'. run_state (NewManager sample_runtime c opts) w = (Inr mgr, w') \<longrightarrow>
      manager mgr MW_RouteIndex MW_ServiceIndex MW_Controllers"
    by (auto simp: sample_runtime_def intro: mem_mgr.manager_axioms)
  from started_as_configured [OF this run sample_commandLine parse] obtain c opts w0 w1 mgr
    and w2 :: "Cluster MemWorld" where
    "run_state (NewManager sample_runtime c opts) w0 = (Inr mgr, w1)"
    "MW_RouteIndex w2 fqdnFieldKey = Some (\<lambda>route. [FQDN route])"
    "\<lparr>RR_Client = GetClient mgr, RR_IstioGateway = ''istio-ingress'', RR_ResyncInterval = 30000000000\<rparr>
       \<in> set (MW_Controllers w2)"
    by (auto simp: sample_Load)
  moreover from this(1) have "GetClient mgr = mem_client" by (auto simp: sample_runtime_def mem_manager_def)
  ultimately show ?thesis using run by (auto simp: fqdnFieldKey_def sample_reconciler_def)
qed

text \<open>
  C34. A command line or an environment the controller cannot use stops it before it touches anything:
  flags that do not parse end the process with exit code 2, a request for help with 0, and an
  environment that does not load with 1, and none of them calls the cluster or creates a manager.
  When flags and environment are in order, what is left is exactly to reach the cluster, create the
  manager, set the controller up and start it, and the first of these that fails ends the process
  with exit code 1.
\<close>

theorem main_exit_codes:
  fixes args :: "string list"
  assumes "commandLine X = Inr formal"
  defines "parsed \<equiv> flag_Parse formal args (main_defaults, Other_Defaults X)"
  shows "(parsed = Inl FlagFailure \<longrightarrow> run_state (main S X args env) w = (Exit 2, w)) \<and>
    (parsed = Inl ErrHelp \<longrightarrow> run_state (main S X args env) w = (Exit 0, w)) \<and>
    ((\<exists>p. parsed = Inr p) \<and> \<not> is_ok (Load env) \<longrightarrow> run_state (main S X args env) w = (Exit 1, w)) \<and>
    (\<forall>left v others config. parsed = Inr (left, v, others) \<and> Load env = Inr config \<longrightarrow>
       (case run_state (if_ok (GetConfig X others) (\<lambda>c.
               if_ok (NewManager X c (main_options (main_init S) v config)) (\<lambda>mgr.
                 if_ok (SetupWithManager (main_reconciler mgr config) mgr) (\<lambda>_. Start mgr)))) w of
          (Inr _, t) \<Rightarrow> run_state (main S X args env) w = (Exit 0, t)
        | (Inl (Err _), t) \<Rightarrow> run_state (main S X args env) w = (Exit 1, t)
        | (Inl (Panic p), t) \<Rightarrow> run_state (main S X args env) w = (Crash p, t)))"
  unfolding main_pure [OF assms(1)] parsed_def
  by (auto simp: run_or_exit run_if_ok is_ok_def split: sum.splits flag_error.splits prod.splits go_fault.splits)

theorem main_exit_codes_witness:
  "run_state (main sample_schemes sample_runtime [''-enable-leader-election=maybe''] start_env) sample_world
     = (Exit 2, sample_world)"
proof -
  have "flag_Parse [''metrics-addr'' \<mapsto> StringVar (\<lambda>s (v, others). (v\<lparr>metricsAddr := s\<rparr>, others)),
          ''enable-leader-election'' \<mapsto> BoolVar (\<lambda>b (v, others). (v\<lparr>enableLeaderElection := b\<rparr>, others))]
        [''-enable-leader-election=maybe''] (main_defaults, Other_Defaults sample_runtime) = Inl FlagFailure"
    by (subst flag_Parse.simps) (simp add: parseOne_def split_flag_def set_flag_def BoolVar_def ParseBool_def)
  with main_exit_codes [OF sample_commandLine] show ?thesis by blast
qed

end
