(* ===== verification/SpecJson.thy ===== *)
theory SpecJson
  imports SampleData
begin

text \<open>
  \<^verbatim>\<open>VirtualServiceSpec.MarshalJSON\<close> and \<^verbatim>\<open>UnmarshalJSON\<close> (\<^verbatim>\<open>virtualservice_types.go\<close>): the spec is a
  protocol buffer message and is written and read by \<^verbatim>\<open>jsonpb\<close>, through a \<^verbatim>\<open>bufio.Writer\<close> over a
  \<^verbatim>\<open>bytes.Buffer\<close>. The writer is modelled as in the standard library; \<^verbatim>\<open>jsonpb\<close> is a parameter, whose
  law is the locale \<open>jsonpb\<close>.
\<close>

section \<open>bufio.Writer\<close>

text \<open>
  \<open>BW_buf\<close> is the part of the writer's buffer in use, \<open>BW_out\<close> what has reached the \<^verbatim>\<open>bytes.Buffer\<close>
  under it, whose writes never fail.
\<close>

record Writer =
  BW_size :: nat
  BW_buf :: string
  BW_out :: string

definition NewWriter :: Writer where
  "NewWriter = \<lparr>BW_size = 4096, BW_buf = '''', BW_out = ''''\<rparr>"

definition Flush :: "Writer \<Rightarrow> Writer" where
  "Flush w = w\<lparr>BW_out := BW_out w @ BW_buf w, BW_buf := ''''\<rparr>"

definition Available :: "Writer \<Rightarrow> nat" where
  "Available w = BW_size w - length (BW_buf w)"

text \<open>
  While the data does not fit: an empty buffer is bypassed, a partly filled one is filled up and
  flushed. What is left then goes into the buffer.
\<close>

function Write :: "Writer \<Rightarrow> string \<Rightarrow> Writer" where
  "Write w p =
     (if Available w < length p
      then if BW_buf w = '''' then Write (w\<lparr>BW_out := BW_out w @ p\<rparr>) ''''
           else Write (Flush (w\<lparr>BW_buf := BW_buf w @ take (Available w) p\<rparr>)) (drop (Available w) p)
      else w\<lparr>BW_buf := BW_buf w @ p\<rparr>)"
  by pat_completeness auto
termination
  by (relation "measures [\<lambda>(w, p). length p, \<lambda>(w, p). length (BW_buf w)]") (auto simp: Flush_def)

declare Write.simps [simp del]

section \<open>MarshalJSON and UnmarshalJSON\<close>

text \<open>
  \<^verbatim>\<open>jsonpb.Marshaler.Marshal\<close> hands the writer a sequence of pieces and may then fail;
  \<^verbatim>\<open>jsonpb.Unmarshaler.Unmarshal\<close> reads into a message, which it may leave partly read when it fails.
\<close>

record JsonPb =
  Marshal :: "IstioVirtualService \<Rightarrow> string list \<times> go_error option"
  Unmarshal :: "string \<Rightarrow> IstioVirtualService \<Rightarrow> IstioVirtualService \<times> go_error option"

definition MarshalJSON :: "JsonPb \<Rightarrow> VirtualServiceSpec \<Rightarrow> string go_result" where
  "MarshalJSON J p =
     (case Marshal J (VSS_VirtualService p) of (pieces, err) \<Rightarrow>
       let writer = foldl Write NewWriter pieces
       in (case err of
             Some e \<Rightarrow> Inl (Err e)
           | None \<Rightarrow> Inr (BW_out (Flush writer))))"

definition UnmarshalJSON :: "JsonPb \<Rightarrow> VirtualServiceSpec \<Rightarrow> string \<Rightarrow> VirtualServiceSpec \<times> go_error option" where
  "UnmarshalJSON J p b =
     (case Unmarshal J b (VSS_VirtualService p) of (v, err) \<Rightarrow> (p\<lparr>VSS_VirtualService := v\<rparr>, err))"

text \<open>
  What the two halves of \<^verbatim>\<open>jsonpb\<close> promise each other: a message that could be written is read back
  into an empty one.
\<close>

definition empty_message :: IstioVirtualService where
  "empty_message = \<lparr>VS_Hosts = [], VS_Gateways = [], VS_Http = []\<rparr>"

locale jsonpb =
  fixes J :: JsonPb
  assumes round_trip: "Marshal J v = (pieces, None) \<Longrightarrow> Unmarshal J (concat pieces) empty_message = (v, None)"

section \<open>Lemmas: the writer\<close>

text \<open>
  Nothing is lost or reordered, and the buffer never outgrows its size, whatever the sizes of the
  pieces.
\<close>

definition written :: "Writer \<Rightarrow> string" where
  "written w = BW_out w @ BW_buf w"

lemma Write_written: "written (Write w p) = written w @ p"
proof (induction w p rule: Write.induct)
  case (1 w p)
  have "written (Flush (w\<lparr>BW_buf := BW_buf w @ take (Available w) p\<rparr>)) = written w @ take (Available w) p"
    "BW_buf w = '''' \<Longrightarrow> written (w\<lparr>BW_out := BW_out w @ p\<rparr>) = written w @ p"
    "written (w\<lparr>BW_buf := BW_buf w @ p\<rparr>) = written w @ p"
    by (simp_all add: written_def Flush_def)
  with 1 show ?case by (subst Write.simps) simp
qed

lemma Write_bounded:
  "length (BW_buf w) \<le> BW_size w \<Longrightarrow> length (BW_buf (Write w p)) \<le> BW_size w \<and> BW_size (Write w p) = BW_size w"
proof (induction w p rule: Write.induct)
  case (1 w p)
  show ?case
  proof (cases "Available w < length p")
    case True
    with 1 show ?thesis by (subst (1 2) Write.simps) (simp add: Flush_def)
  next
    case False
    with "1.prems" show ?thesis by (subst (1 2) Write.simps) (simp add: Available_def)
  qed
qed

lemma foldl_Write_written: "written (foldl Write w ps) = written w @ concat ps"
  by (induction ps arbitrary: w) (simp_all add: Write_written)

lemma Flush_out: "BW_out (Flush w) = written w"
  by (simp add: Flush_def written_def)

lemma MarshalJSON_eq:
  "MarshalJSON J p =
     (case Marshal J (VSS_VirtualService p) of (pieces, None) \<Rightarrow> Inr (concat pieces) | (_, Some e) \<Rightarrow> Inl (Err e))"
proof -
  have "BW_out (Flush (foldl Write NewWriter ps)) = concat ps" for ps
    unfolding Flush_out foldl_Write_written by (simp add: written_def NewWriter_def)
  then show ?thesis by (simp add: MarshalJSON_def split: option.splits prod.splits)
qed

context jsonpb
begin

lemma spec_round_trip:
  assumes "MarshalJSON J p = Inr b"
  shows "UnmarshalJSON J \<lparr>VSS_VirtualService = empty_message\<rparr> b = (p, None)"
  using assms round_trip by (auto simp: MarshalJSON_eq UnmarshalJSON_def split: prod.splits option.splits)

end

section \<open>A codec for hosts and gateways\<close>

text \<open>
  An implementation of the law: messages without HTTP entries as JSON objects of two string arrays,
  quotes and backslashes escaped; other messages are refused.
\<close>

abbreviation quote :: char where "quote \<equiv> CHR 0x22"
abbreviation backslash :: char where "backslash \<equiv> CHR 0x5C"

fun escape :: "string \<Rightarrow> string" where
  "escape [] = [quote]"
| "escape (c # cs) = (if c = quote \<or> c = backslash then backslash # c # escape cs else c # escape cs)"

fun unescape :: "string \<Rightarrow> (string \<times> string) option" where
  "unescape [] = None"
| "unescape (c # cs) =
     (if c = quote then Some ([], cs)
      else if c = backslash
      then (case cs of [] \<Rightarrow> None | d # ds \<Rightarrow> map_option (apfst (Cons d)) (unescape ds))
      else map_option (apfst (Cons c)) (unescape cs))"

fun put_items :: "string list \<Rightarrow> string" where
  "put_items [] = '']''"
| "put_items (s # ss) = quote # escape s @ (if ss = [] then '''' else '','') @ put_items ss"

fun get_items :: "nat \<Rightarrow> string \<Rightarrow> (string list \<times> string) option" where
  "get_items (Suc n) (c # cs) =
     (if c = CHR '']'' then Some ([], cs)
      else if c = CHR '','' then get_items n cs
      else if c = quote
      then (case unescape cs of None \<Rightarrow> None | Some (s, r) \<Rightarrow> map_option (apfst (Cons s)) (get_items n r))
      else None)"
| "get_items _ _ = None"

definition sample_json :: JsonPb where
  "sample_json = \<lparr>
     Marshal = (\<lambda>v. if VS_Http v \<noteq> [] then ([], Some (ErrorString ''unsupported''))
       else ([''{hosts:['', put_items (VS_Hosts v), '',gateways:['', put_items (VS_Gateways v), ''}''], None)),
     Unmarshal = (\<lambda>b v.
       (case get_items (length b) (drop 8 b) of
          None \<Rightarrow> (v, Some (ErrorString ''hosts''))
        | Some (hs, r) \<Rightarrow>
            (case get_items (length r) (drop 11 r) of
               None \<Rightarrow> (v\<lparr>VS_Hosts := hs\<rparr>, Some (ErrorString ''gateways''))
             | Some (gs, _) \<Rightarrow> (v\<lparr>VS_Hosts := hs, VS_Gateways := gs\<rparr>, None))))\<rparr>"

lemma unescape_escape [simp]: "unescape (escape s @ r) = Some (s, r)"
  by (induction s) auto

lemma get_put_items:
  assumes "2 * length ss < n"
  shows "get_items n (put_items ss @ r) = Some (ss, r)"
  using assms
proof (induction ss arbitrary: n)
  case Nil
  then show ?case by (cases n) simp_all
next
  case (Cons s ss)
  then obtain k where k: "n = Suc (Suc k)" "2 * length ss < k" by (cases n; cases "n - 1") auto
  then have "2 * length ss < Suc k" by simp
  note IH = Cons.IH [OF k(2)] Cons.IH [OF this]
  show ?case
  proof (cases "ss = []")
    case True
    with IH(2) show ?thesis by (simp add: k(1))
  next
    case False
    with IH(1) show ?thesis by (simp add: k(1))
  qed
qed

lemma length_put_items: "2 * length ss < length (put_items ss)"
proof (induction ss)
  case (Cons s ss)
  have "escape s \<noteq> []" by (cases s) auto
  then have "0 < length (escape s)" by simp
  with Cons show ?case by (simp del: length_greater_0_conv)
qed simp

interpretation sample_json: jsonpb sample_json
proof
  fix v pieces
  assume "Marshal sample_json v = (pieces, None)"
  then have v: "VS_Http v = []"
    and pieces: "concat pieces = ''{hosts:['' @ put_items (VS_Hosts v) @ '',gateways:['' @ put_items (VS_Gateways v) @ ''}''"
    by (auto simp: sample_json_def split: if_splits)
  have hosts: "2 * length (VS_Hosts v) < length (concat pieces)"
    using length_put_items [of "VS_Hosts v"] by (simp add: pieces)
  let ?r = "'',gateways:['' @ put_items (VS_Gateways v) @ ''}''"
  have gateways: "2 * length (VS_Gateways v) < length ?r"
    using length_put_items [of "VS_Gateways v"] by simp
  have "drop 8 (concat pieces) = put_items (VS_Hosts v) @ ?r" "drop 11 ?r = put_items (VS_Gateways v) @ ''}''"
    by (simp_all add: pieces)
  with get_put_items [OF hosts, of ?r] get_put_items [OF gateways, of "''}''"] v
  show "Unmarshal sample_json (concat pieces) empty_message = (v, None)"
    by (simp add: sample_json_def empty_message_def)
qed

section \<open>Properties\<close>

text \<open>
  C35. A spec survives the API server: what \<^verbatim>\<open>MarshalJSON\<close> returns is exactly what \<^verbatim>\<open>jsonpb\<close> wrote, all
  of it and in order however it was cut into pieces and however these fall on the writer's 4096
  byte buffer, and \<^verbatim>\<open>UnmarshalJSON\<close> into an empty spec reads the spec back; an error of \<^verbatim>\<open>jsonpb\<close> is
  returned and no bytes with it.
\<close>

theorem spec_json_round_trip:
  assumes "jsonpb J"
  shows "case Marshal J (VSS_VirtualService p) of
      (pieces, None) \<Rightarrow> MarshalJSON J p = Inr (concat pieces) \<and>
        UnmarshalJSON J \<lparr>VSS_VirtualService = empty_message\<rparr> (concat pieces) = (p, None)
    | (_, Some e) \<Rightarrow> MarshalJSON J p = Inl (Err e)"
  using jsonpb.spec_round_trip [OF assms, of p] by (auto simp: MarshalJSON_eq split: prod.splits option.splits)

theorem spec_json_round_trip_witness:
  "MarshalJSON sample_json \<lparr>VSS_VirtualService = empty_message\<lparr>VS_Hosts := [sample_fqdn]\<rparr>\<rparr>
     = Inr (''{hosts:['' @ [quote] @ sample_fqdn @ [quote] @ ''],gateways:[]}'') \<and>
   UnmarshalJSON sample_json \<lparr>VSS_VirtualService = empty_message\<rparr>
     (''{hosts:['' @ [quote] @ sample_fqdn @ [quote] @ ''],gateways:[]}'')
     = (\<lparr>VSS_VirtualService = empty_message\<lparr>VS_Hosts := [sample_fqdn]\<rparr>\<rparr>, None)"
  using spec_json_round_trip [OF sample_json.jsonpb_axioms, of "\<lparr>VSS_VirtualService = empty_message\<lparr>VS_Hosts := [sample_fqdn]\<rparr>\<rparr>"]
  by (simp add: sample_json_def empty_message_def sample_fqdn_def)

end
