(* ===== verification/ExitMatcher.thy ===== *)
theory ExitMatcher
  imports Prelude
begin

text \<open>
  \<^verbatim>\<open>stress/matchers/exit_and_log_matcher.go\<close>: the matcher the stress tests use on finished processes. A
  value handed to it is a gexec session, another type with an \<^verbatim>\<open>ExitCode\<close> method, or neither; the
  formatting functions of gomega are parameters.
\<close>

record Session =
  Sess_ExitCode :: go_int
  Sess_Out :: string
  Sess_Err :: string

datatype actual = IsSession Session | IsExiter go_int | IsOther string

record exitMatcher =
  actualExitCode :: go_int

record Format =
  Format_Object :: "actual \<Rightarrow> string"
  Format_Message :: "go_int \<Rightarrow> string \<Rightarrow> string"

definition ExitSuccessfully :: exitMatcher where
  "ExitSuccessfully = \<lparr>actualExitCode = 0\<rparr>"

text \<open>The \<^verbatim>\<open>Exiter\<close> interface: the exit code of the values that have one.\<close>

definition as_Exiter :: "actual \<Rightarrow> go_int option" where
  "as_Exiter a = (case a of IsSession s \<Rightarrow> Some (Sess_ExitCode s) | IsExiter c \<Rightarrow> Some c | IsOther _ \<Rightarrow> None)"

text \<open>\<^verbatim>\<open>Match\<close> remembers the exit code in the matcher.\<close>

definition Match :: "Format \<Rightarrow> exitMatcher \<Rightarrow> actual \<Rightarrow> bool go_result \<times> exitMatcher" where
  "Match F m a =
     (case as_Exiter a of
        None \<Rightarrow> (Inl (Err (ErrorString
          (''ExitSuccessfully must be passed a gexec.Exiter (Missing method ExitCode() int) Got:'' @ [CHR 0x0A] @ Format_Object F a))), m)
      | Some code \<Rightarrow> let m = m\<lparr>actualExitCode := code\<rparr> in (Inr (0 = actualExitCode m), m))"

definition FailureMessage :: "Format \<Rightarrow> exitMatcher \<Rightarrow> actual \<Rightarrow> string go_result" where
  "FailureMessage F m a =
     (case a of
        IsSession session \<Rightarrow>
          if actualExitCode m = -1 then Inr ''Expected process to exit.  It did not.''
          else Inr (Format_Message F (actualExitCode m)
            (''to match exit code 0.'' @ [CHR 0x0A] @ ''STDOUT:'' @ [CHR 0x0A] @ Sess_Out session @ [CHR 0x0A] @
             ''STDERR:'' @ [CHR 0x0A] @ Sess_Err session @ [CHR 0x0A]))
      | _ \<Rightarrow> Inl (Panic ''ExitSuccessfully must be passed a gexec.Session''))"

definition NegatedFailureMessage :: "Format \<Rightarrow> exitMatcher \<Rightarrow> actual \<Rightarrow> string" where
  "NegatedFailureMessage F m a = Format_Message F (actualExitCode m) ''not to match exit code 0''"

definition MatchMayChangeInTheFuture :: "exitMatcher \<Rightarrow> actual \<Rightarrow> bool" where
  "MatchMayChangeInTheFuture m a = (case a of IsSession session \<Rightarrow> Sess_ExitCode session = -1 | _ \<Rightarrow> True)"

section \<open>Lemmas\<close>

text \<open>
  Match succeeds exactly on an exit code 0. For a session the verdict is final exactly when the
  process has exited, and a failed match can always be reported; a failed match of another exiter
  cannot, it panics.
\<close>

lemma Match_success_iff: "fst (Match F m a) = Inr True \<longleftrightarrow> as_Exiter a = Some 0"
  by (auto simp: Match_def Let_def split: option.splits)

lemma Match_session_running:
  "Sess_ExitCode s = -1 \<Longrightarrow> fst (Match F m (IsSession s)) = Inr False \<and>
     MatchMayChangeInTheFuture m (IsSession s) \<and>
     FailureMessage F (snd (Match F m (IsSession s))) (IsSession s) = Inr ''Expected process to exit.  It did not.''"
  by (simp add: Match_def as_Exiter_def MatchMayChangeInTheFuture_def FailureMessage_def)

lemma FailureMessage_panics_iff: "is_panic (FailureMessage F m a) \<longleftrightarrow> (\<forall>s. a \<noteq> IsSession s)"
  by (auto simp: FailureMessage_def split: actual.splits)

end
