(* ===== verification/UptimeResults.thy ===== *)
theory UptimeResults
  imports Float64 "HOL-Library.Multiset"
begin

text \<open>
  \<^verbatim>\<open>test/uptime/internal/uptime\<close>: the two result types of the uptime tests. A data plane result counts
  the requests of one sample by whether they met the service level; a control plane result counts
  the samples. Of an error only its text is read. The collector hands every sample over as a fresh
  copy, so the samples of a control plane result are values here. Printing is left out.
\<close>

section \<open>data\_plane\_results.go\<close>

record DataPlaneResults =
  DP_SliPassCount :: go_int
  DP_SliFailCount :: go_int
  DP_NumberOfUnexpectedResponseCodes :: go_int
  DP_NumberOfExceededSLORequestLatencies :: go_int
  DP_Errors :: "string list"
  DP_RequestLatencies :: "go_int list"

definition zero_DataPlaneResults :: DataPlaneResults where
  "zero_DataPlaneResults = \<lparr>DP_SliPassCount = 0, DP_SliFailCount = 0, DP_NumberOfUnexpectedResponseCodes = 0,
     DP_NumberOfExceededSLORequestLatencies = 0, DP_Errors = [], DP_RequestLatencies = []\<rparr>"

definition DataPlaneResults_SuccessPercentage :: "DataPlaneResults \<Rightarrow> go_float" where
  "DataPlaneResults_SuccessPercentage u =
     float_div (float_of_int (DP_SliPassCount u)) (float_of_int (DP_SliFailCount u + DP_SliPassCount u))"

definition RecordError :: "DataPlaneResults \<Rightarrow> string \<Rightarrow> DataPlaneResults" where
  "RecordError u err = u\<lparr>DP_SliFailCount := DP_SliFailCount u + 1, DP_Errors := DP_Errors u @ [err]\<rparr>"

definition DataPlaneResults_Record :: "DataPlaneResults \<Rightarrow> bool \<Rightarrow> bool \<Rightarrow> bool \<Rightarrow> go_int \<Rightarrow> DataPlaneResults" where
  "DataPlaneResults_Record u hasPassedSLI hasStatusOK hasMetRequestLatencySLO requestLatency =
     (let u = (if hasPassedSLI then u\<lparr>DP_SliPassCount := DP_SliPassCount u + 1\<rparr>
               else u\<lparr>DP_SliFailCount := DP_SliFailCount u + 1\<rparr>);
          u = (if \<not> hasStatusOK
               then u\<lparr>DP_NumberOfUnexpectedResponseCodes := DP_NumberOfUnexpectedResponseCodes u + 1\<rparr> else u);
          u = (if \<not> hasMetRequestLatencySLO
               then u\<lparr>DP_NumberOfExceededSLORequestLatencies := DP_NumberOfExceededSLORequestLatencies u + 1\<rparr> else u)
      in u\<lparr>DP_RequestLatencies := DP_RequestLatencies u @ [requestLatency]\<rparr>)"

fun uniqErrors_loop :: "(string \<Rightarrow> go_int option) \<Rightarrow> string list \<Rightarrow> string \<Rightarrow> go_int option" where
  "uniqErrors_loop uniqErrs [] = uniqErrs"
| "uniqErrors_loop uniqErrs (err # errs) =
     uniqErrors_loop (uniqErrs(err \<mapsto> (case uniqErrs err of None \<Rightarrow> 0 | Some n \<Rightarrow> n) + 1)) errs"

definition uniqErrors :: "DataPlaneResults \<Rightarrow> string \<Rightarrow> go_int option" where
  "uniqErrors u = uniqErrors_loop Map.empty (DP_Errors u)"

fun latency_loop :: "go_int \<Rightarrow> go_int \<Rightarrow> go_int \<Rightarrow> go_int list \<Rightarrow> go_int \<times> go_int \<times> go_int" where
  "latency_loop low high accumulator [] = (low, high, accumulator)"
| "latency_loop low high accumulator (time # rest) =
     latency_loop (if sint low > sint time then time else low)
       (if sint high < sint time then time else high) (accumulator + time) rest"

definition calculateRequestLatencyStats :: "DataPlaneResults \<Rightarrow> go_int \<times> go_int \<times> go_int" where
  "calculateRequestLatencyStats u =
     (case DP_RequestLatencies u of
        [] \<Rightarrow> (0, 0, 0)
      | first # _ \<Rightarrow>
          (case latency_loop first 0 0 (DP_RequestLatencies u) of (low, high, accumulator) \<Rightarrow>
             (low, high, go_quot accumulator (go_len (DP_RequestLatencies u)))))"

section \<open>control\_plane\_results.go\<close>

record ControlPlaneResults =
  CPR_ControlPlaneSLODataPlaneAvailabilityPercentage :: go_float
  CPR_collectorResults :: "DataPlaneResults list"
  CPR_dataReady :: bool
  CPR_sliPassCount :: go_int
  CPR_sliFailCount :: go_int
  CPR_successPercentage :: go_float

definition new_ControlPlaneResults :: "go_float \<Rightarrow> ControlPlaneResults" where
  "new_ControlPlaneResults slo = \<lparr>CPR_ControlPlaneSLODataPlaneAvailabilityPercentage = slo, CPR_collectorResults = [],
     CPR_dataReady = False, CPR_sliPassCount = 0, CPR_sliFailCount = 0, CPR_successPercentage = Finite 0 1\<rparr>"

definition AddResult :: "ControlPlaneResults \<Rightarrow> DataPlaneResults \<Rightarrow> ControlPlaneResults" where
  "AddResult c result = c\<lparr>CPR_collectorResults := CPR_collectorResults c @ [result], CPR_dataReady := False\<rparr>"

fun prepareResults_loop :: "ControlPlaneResults \<Rightarrow> DataPlaneResults list \<Rightarrow> ControlPlaneResults" where
  "prepareResults_loop c [] = c"
| "prepareResults_loop c (result # results) =
     prepareResults_loop
       (if float_less (CPR_ControlPlaneSLODataPlaneAvailabilityPercentage c) (DataPlaneResults_SuccessPercentage result)
        then c\<lparr>CPR_sliPassCount := CPR_sliPassCount c + 1\<rparr>
        else c\<lparr>CPR_sliFailCount := CPR_sliFailCount c + 1\<rparr>) results"

definition prepareResults :: "ControlPlaneResults \<Rightarrow> ControlPlaneResults" where
  "prepareResults c =
     (if \<not> CPR_dataReady c
      then let c = prepareResults_loop c (CPR_collectorResults c)
           in c\<lparr>CPR_successPercentage :=
                   float_div (float_of_int (CPR_sliPassCount c)) (float_of_int (CPR_sliPassCount c + CPR_sliFailCount c)),
                CPR_dataReady := True\<rparr>
      else c)"

definition ControlPlaneResults_SuccessPercentage :: "ControlPlaneResults \<Rightarrow> go_float \<times> ControlPlaneResults" where
  "ControlPlaneResults_SuccessPercentage c = (let c = prepareResults c in (CPR_successPercentage c, c))"

section \<open>Lemmas: data plane\<close>

lemma sint_count: "n < 2 ^ 63 \<Longrightarrow> sint (word_of_nat n :: go_int) = int n"
  by (rule sint_word_of_nat_small)

lemma uniqErrors_loop_eq:
  "uniqErrors_loop m errs e =
     (if e \<in> set errs then Some ((case m e of None \<Rightarrow> 0 | Some n \<Rightarrow> n) + word_of_nat (count_list errs e)) else m e)"
  by (induction errs arbitrary: m) (simp_all add: ac_simps)

text \<open>Every error text is reported with the number of its occurrences.\<close>

lemma uniqErrors_count:
  "uniqErrors u e = (if e \<in> set (DP_Errors u) then Some (word_of_nat (count_list (DP_Errors u) e)) else None)"
  by (simp add: uniqErrors_def uniqErrors_loop_eq)

lemma latency_loop_eq:
  "latency_loop low high acc ts = (l, h, a) \<Longrightarrow>
     sint l = Min (insert (sint low) (sint ` set ts)) \<and> sint h = Max (insert (sint high) (sint ` set ts)) \<and> a = acc + sum_list ts"
proof (induction ts arbitrary: low high acc)
  case Nil
  then show ?case by simp
next
  case (Cons t ts)
  from Cons.prems have "latency_loop (if sint low > sint t then t else low) (if sint high < sint t then t else high) (acc + t) ts
      = (l, h, a)" by simp
  note IH = Cons.IH [OF this]
  have "sint (if sint low > sint t then t else low) = min (sint low) (sint t)"
    "sint (if sint high < sint t then t else high) = max (sint high) (sint t)" by auto
  moreover have "Min (insert (min x y) A) = Min (insert x (insert y A))" "Max (insert (max x y) A) = Max (insert x (insert y A))"
    if "finite A" for x y :: int and A using that by (cases "A = {}"; simp add: min.assoc max.assoc)+
  ultimately show ?case using IH by simp
qed

lemma sint_sum_list:
  assumes "\<forall>t \<in> set ts. 0 \<le> sint (t :: go_int)" and "sum_list (map sint ts) < 2 ^ 63"
  shows "sint (sum_list ts) = sum_list (map sint ts)"
  using assms
proof (induction ts)
  case Nil
  then show ?case by simp
next
  case (Cons t ts)
  have pos: "0 \<le> sum_list (map sint ts)" using Cons.prems(1) by (intro sum_list_nonneg) auto
  with Cons have "sint (sum_list ts) = sum_list (map sint ts)" by simp
  moreover have "signed_take_bit (LENGTH(64) - 1) (sint t + sum_list (map sint ts)) = sint t + sum_list (map sint ts)"
    using Cons.prems pos by (intro signed_take_bit_int_eq_self) simp_all
  ultimately show ?case by (simp add: sint_word_ariths(1))
qed

lemma average_bounds:
  fixes ts :: "int list"
  assumes "ts \<noteq> []"
  shows "Min (set ts) \<le> sum_list ts div int (length ts)" and "sum_list ts div int (length ts) \<le> Max (set ts)"
proof -
  have n: "0 < int (length ts)" using assms by simp
  have "int (length ts) * Min (set ts) \<le> sum_list ts"
    using sum_list_mono [of ts "\<lambda>_. Min (set ts)" "\<lambda>t. t"] by (simp add: sum_list_triv)
  then have "int (length ts) * Min (set ts) div int (length ts) \<le> sum_list ts div int (length ts)"
    using n by (intro zdiv_mono1)
  with n show "Min (set ts) \<le> sum_list ts div int (length ts)" by simp
  have "sum_list ts \<le> int (length ts) * Max (set ts)"
    using sum_list_mono [of ts "\<lambda>t. t" "\<lambda>_. Max (set ts)"] by (simp add: sum_list_triv)
  then have "sum_list ts div int (length ts) \<le> int (length ts) * Max (set ts) div int (length ts)"
    using n by (intro zdiv_mono1)
  with n show "sum_list ts div int (length ts) \<le> Max (set ts)" by simp
qed

text \<open>
  The printed latencies are the least, the greatest and the rounded down mean, for latencies whose sum
  does not overflow.
\<close>

lemma latency_stats:
  assumes "DP_RequestLatencies u = ts" and "ts \<noteq> []" and "length ts < 2 ^ 63"
    and pos: "\<forall>t \<in> set ts. 0 \<le> sint t" and sum: "sum_list (map sint ts) < 2 ^ 63"
    and "calculateRequestLatencyStats u = (low, high, avg)"
  shows "sint low = Min (sint ` set ts)" and "sint high = Max (sint ` set ts)"
    and "sint avg = sum_list (map sint ts) div int (length ts)" and "sint low \<le> sint avg \<and> sint avg \<le> sint high"
proof -
  from assms(2) obtain t0 ts' where ts: "ts = t0 # ts'" by (cases ts) auto
  obtain l h a where loop: "latency_loop t0 0 0 ts = (l, h, a)" by (cases "latency_loop t0 0 0 ts") auto
  note E = latency_loop_eq [OF loop]
  from assms(1,6) ts loop have out: "low = l" "high = h" "avg = go_quot a (go_len ts)"
    by (simp_all add: calculateRequestLatencyStats_def)
  show low: "sint low = Min (sint ` set ts)" using E out ts by simp
  have "\<exists>t \<in> set ts. 0 \<le> sint t" using pos ts by auto
  then have "0 \<le> Max (sint ` set ts)" using assms(2) by (auto simp: Max_ge_iff)
  with E out assms(2) show high: "sint high = Max (sint ` set ts)" by (simp add: max_def)
  let ?S = "sum_list (map sint ts)"
  have S: "sint a = ?S" "0 \<le> ?S" using E sint_sum_list [OF pos sum] pos by (auto intro!: sum_list_nonneg)
  have n: "sint (go_len ts) = int (length ts)" using assms(3) by (simp add: go_len_def sint_count)
  have "0 \<le> ?S div int (length ts)" using S(2) by (simp add: pos_imp_zdiv_nonneg_iff assms(2))
  moreover have "?S div int (length ts) \<le> ?S" using zdiv_mono2 [OF S(2), of 1 "int (length ts)"] assms(2) by (simp add: Suc_leI)
  moreover have "?S sdiv int (length ts) = ?S div int (length ts)" using S(2) assms(2)
    by (cases "?S = 0") (simp_all add: signed_divide_int_def)
  ultimately show avg: "sint avg = ?S div int (length ts)"
    unfolding out(3) go_quot_def S(1) n using sum by (simp add: signed_of_int signed_take_bit_int_eq_self)
  show "sint low \<le> sint avg \<and> sint avg \<le> sint high"
    using average_bounds [of "map sint ts"] assms(2) unfolding low high avg by simp
qed

section \<open>Lemmas: control plane\<close>

definition sample_passes :: "go_float \<Rightarrow> DataPlaneResults \<Rightarrow> bool" where
  "sample_passes slo result \<longleftrightarrow> float_less slo (DataPlaneResults_SuccessPercentage result)"

abbreviation passing :: "go_float \<Rightarrow> DataPlaneResults list \<Rightarrow> nat" where
  "passing slo rs \<equiv> length (filter (sample_passes slo) rs)"

abbreviation failing :: "go_float \<Rightarrow> DataPlaneResults list \<Rightarrow> nat" where
  "failing slo rs \<equiv> length (filter (\<lambda>r. \<not> sample_passes slo r) rs)"

abbreviation percentage :: "nat \<Rightarrow> nat \<Rightarrow> go_float" where
  "percentage m n \<equiv> float_div (float_of_int (word_of_nat m)) (float_of_int (word_of_nat n))"

lemma prepareResults_loop_eq:
  "CPR_ControlPlaneSLODataPlaneAvailabilityPercentage c = slo \<Longrightarrow>
   prepareResults_loop c rs = c\<lparr>CPR_sliPassCount := CPR_sliPassCount c + word_of_nat (passing slo rs),
     CPR_sliFailCount := CPR_sliFailCount c + word_of_nat (failing slo rs)\<rparr>"
  by (induction rs arbitrary: c) (simp_all add: sample_passes_def ac_simps)

lemma AddResults_eq:
  "foldl AddResult c rs = c\<lparr>CPR_collectorResults := CPR_collectorResults c @ rs, CPR_dataReady := CPR_dataReady c \<and> rs = []\<rparr>"
  by (induction rs arbitrary: c) (simp_all add: AddResult_def)

text \<open>What a read makes of samples added since the counters stood at \<open>p\<close> and \<open>f\<close>.\<close>

lemma prepareResults_counts:
  assumes "\<not> CPR_dataReady c" and "CPR_sliPassCount c = word_of_nat p" and "CPR_sliFailCount c = word_of_nat f"
    and "CPR_ControlPlaneSLODataPlaneAvailabilityPercentage c = slo" and "CPR_collectorResults c = rs"
  shows "CPR_successPercentage (prepareResults c) = percentage (p + passing slo rs) (p + f + length rs)"
    and "CPR_dataReady (prepareResults c)" and "CPR_collectorResults (prepareResults c) = rs"
    and "CPR_sliPassCount (prepareResults c) = word_of_nat (p + passing slo rs)"
    and "CPR_sliFailCount (prepareResults c) = word_of_nat (f + failing slo rs)"
    and "CPR_ControlPlaneSLODataPlaneAvailabilityPercentage (prepareResults c) = slo"
proof -
  have "(word_of_nat (length rs) :: go_int) = word_of_nat (passing slo rs) + word_of_nat (failing slo rs)"
    unfolding sum_length_filter_compl [of "sample_passes slo" rs, symmetric] by (simp only: of_nat_add)
  then show "CPR_successPercentage (prepareResults c) = percentage (p + passing slo rs) (p + f + length rs)"
    using assms by (simp add: prepareResults_def prepareResults_loop_eq Let_def ac_simps)
qed (use assms in \<open>simp_all add: prepareResults_def prepareResults_loop_eq Let_def\<close>)

lemma read_again: "CPR_dataReady c \<Longrightarrow> ControlPlaneResults_SuccessPercentage c = (CPR_successPercentage c, c)"
  by (simp add: ControlPlaneResults_SuccessPercentage_def prepareResults_def)

lemma read_ready: "CPR_dataReady (snd (ControlPlaneResults_SuccessPercentage c))"
  by (simp add: ControlPlaneResults_SuccessPercentage_def prepareResults_def Let_def)

lemma reads_stable:
  "fst (ControlPlaneResults_SuccessPercentage (((\<lambda>c. snd (ControlPlaneResults_SuccessPercentage c)) ^^ n) c)) =
   fst (ControlPlaneResults_SuccessPercentage c)"
proof (induction n arbitrary: c)
  case 0
  then show ?case by simp
next
  case (Suc n)
  let ?c = "snd (ControlPlaneResults_SuccessPercentage c)"
  have "fst (ControlPlaneResults_SuccessPercentage ?c) = fst (ControlPlaneResults_SuccessPercentage c)"
    unfolding read_again [OF read_ready] by (simp add: ControlPlaneResults_SuccessPercentage_def Let_def)
  with Suc [of ?c] show ?case by (simp only: funpow_Suc_right o_apply)
qed

lemma fresh_percentage:
  "fst (ControlPlaneResults_SuccessPercentage (foldl AddResult (new_ControlPlaneResults slo) rs)) =
     percentage (passing slo rs) (length rs)"
  using prepareResults_counts(1) [of "foldl AddResult (new_ControlPlaneResults slo) rs" 0 0 slo rs]
  by (simp add: ControlPlaneResults_SuccessPercentage_def AddResults_eq new_ControlPlaneResults_def Let_def)

lemma percentage_spec:
  assumes "m \<le> n" and "n < 2 ^ 53" and "0 < n"
  obtains p q where "percentage m n = Finite p q" and "0 < q"
    and "\<bar>ratio (p, q) - real m / real n\<bar> \<le> 1 / 2 ^ 53" and "ratio (p, q) = 1 \<longleftrightarrow> m = n"
proof -
  have "sint (word_of_nat m :: go_int) = int m" "sint (word_of_nat n :: go_int) = int n"
    using assms by (simp_all add: sint_count)
  from float_div_counts(2) [OF _ _ _ this] assms that show ?thesis by auto
qed

section \<open>Properties\<close>

text \<open>
  C38. When all samples are added before the first read, as the control plane test does, every read
  of the success percentage gives the share of the samples that met their service level, rounded to
  a 64-bit float, whatever the order in which the concurrent collectors added them: it is within
  \<open>1 / 2 ^ 53\<close> of the exact share and 1 exactly when every sample passed. Without samples it is NaN.
\<close>

theorem control_plane_percentage:
  assumes "length rs < 2 ^ 53" and "mset added = mset rs"
    and "p = fst (ControlPlaneResults_SuccessPercentage
      (((\<lambda>c. snd (ControlPlaneResults_SuccessPercentage c)) ^^ n) (foldl AddResult (new_ControlPlaneResults slo) added)))"
  shows "if rs = [] then p = NaN
    else \<exists>a b. p = Finite a b \<and> 0 < b \<and>
      \<bar>ratio (a, b) - real (passing slo rs) / real (length rs)\<bar> \<le> 1 / 2 ^ 53 \<and>
      (ratio (a, b) = 1 \<longleftrightarrow> list_all (sample_passes slo) rs)"
proof -
  have "passing slo added = passing slo rs" "length added = length rs"
    using assms(2) by (metis mset_filter size_mset)+
  then have p: "p = percentage (passing slo rs) (length rs)"
    unfolding assms(3) reads_stable fresh_percentage by simp
  have all: "passing slo rs = length rs \<longleftrightarrow> list_all (sample_passes slo) rs"
    by (metis filter_True length_filter_less less_irrefl list_all_iff)
  show ?thesis
  proof (cases "rs = []")
    case True
    then show ?thesis by (simp add: p float_of_int_def round64_def)
  next
    case False
    then obtain a b where "percentage (passing slo rs) (length rs) = Finite a b" "0 < b"
      "\<bar>ratio (a, b) - real (passing slo rs) / real (length rs)\<bar> \<le> 1 / 2 ^ 53" "ratio (a, b) = 1 \<longleftrightarrow> passing slo rs = length rs"
      using percentage_spec [of "passing slo rs" "length rs"] assms(1) by auto
    with False p all show ?thesis by auto
  qed
qed

theorem control_plane_percentage_witness:
  "\<exists>p q. fst (ControlPlaneResults_SuccessPercentage (foldl AddResult (new_ControlPlaneResults (Finite 19 20))
       [zero_DataPlaneResults, zero_DataPlaneResults\<lparr>DP_SliPassCount := 1\<rparr>])) = Finite p q \<and>
     \<bar>ratio (p, q) - 1 / 2\<bar> \<le> 1 / 2 ^ 53"
proof -
  let ?bad = "zero_DataPlaneResults" and ?good = "zero_DataPlaneResults\<lparr>DP_SliPassCount := 1\<rparr>"
  obtain p q where one: "percentage 1 1 = Finite p q" "0 < q" "ratio (p, q) = 1"
    using percentage_spec [of 1 1] by auto
  then have "p = q" by simp
  with one have "sample_passes (Finite 19 20) ?good"
    by (simp add: sample_passes_def DataPlaneResults_SuccessPercentage_def zero_DataPlaneResults_def)
  moreover have "\<not> sample_passes (Finite 19 20) ?bad"
    by (simp add: sample_passes_def DataPlaneResults_SuccessPercentage_def zero_DataPlaneResults_def float_of_int_def round64_def)
  ultimately show ?thesis
    using control_plane_percentage [OF _ _ refl, of "[?good, ?bad]" "[?bad, ?good]" 0 "Finite 19 20"] by auto
qed

text \<open>
  The counters are not reset before they are computed anew: samples that were there at an earlier
  read count twice when further ones are added.
\<close>

theorem early_samples_count_twice:
  assumes "late \<noteq> []"
  shows "fst (ControlPlaneResults_SuccessPercentage (foldl AddResult
      (snd (ControlPlaneResults_SuccessPercentage (foldl AddResult (new_ControlPlaneResults slo) early))) late)) =
    percentage (2 * passing slo early + passing slo late) (2 * length early + length late)"
proof -
  let ?c = "foldl AddResult (new_ControlPlaneResults slo) early"
  let ?d = "foldl AddResult (prepareResults ?c) late"
  have c: "\<not> CPR_dataReady ?c" "CPR_sliPassCount ?c = word_of_nat 0" "CPR_sliFailCount ?c = word_of_nat 0"
    "CPR_ControlPlaneSLODataPlaneAvailabilityPercentage ?c = slo" "CPR_collectorResults ?c = early"
    by (simp_all add: AddResults_eq new_ControlPlaneResults_def)
  note P = prepareResults_counts [OF c]
  have "CPR_successPercentage (prepareResults ?d) = percentage (0 + passing slo early + passing slo (early @ late))
      (0 + passing slo early + (0 + failing slo early) + length (early @ late))"
    by (rule prepareResults_counts(1)) (use assms P in \<open>simp_all add: AddResults_eq\<close>)
  also have "0 + passing slo early + passing slo (early @ late) = 2 * passing slo early + passing slo late" by simp
  also have "0 + passing slo early + (0 + failing slo early) + length (early @ late) = 2 * length early + length late"
    using sum_length_filter_compl [of "sample_passes slo" early] by simp
  finally show ?thesis unfolding ControlPlaneResults_SuccessPercentage_def Let_def fst_conv snd_conv .
qed

end
