(* ===== verification/UptimeCollector.thy ===== *)
theory UptimeCollector
  imports UptimeResults
begin

text \<open>
  \<^verbatim>\<open>test/uptime/internal/collector/request.go\<close> and \<^verbatim>\<open>test/uptime/internal/checker/upgrade.go\<close>: the
  goroutines of the uptime tests, each by itself. The network and the clock are a record of calls
  over an abstract state; a collector's loop has no bound of its own, so it is a partial function,
  and that it ends is a lemma. The goroutines share only what their mutex protects: a sample is
  added, and a poll is made, in one step.
\<close>

section \<open>Clock and network\<close>

text \<open>
  \<^verbatim>\<open>time.Now\<close> in nanoseconds; an HTTP request, answered by an error or a status code; \<^verbatim>\<open>time.Sleep\<close>.
  The difference of two times is a duration, cut off at its 64 bits.
\<close>

record 's Net =
  N_Now :: "('s, int) state"
  N_Get :: "string \<Rightarrow> ('s, string + int) state"
  N_Sleep :: "go_int \<Rightarrow> ('s, unit) state"

definition time_Sub :: "int \<Rightarrow> int \<Rightarrow> go_int" where
  "time_Sub t u = word_of_int (max (- (2 ^ 63)) (min (2 ^ 63 - 1) (t - u)))"

definition Since :: "'s Net \<Rightarrow> int \<Rightarrow> ('s, go_int) state" where
  "Since N t = do { now \<leftarrow> N_Now N; State_Monad.return (time_Sub now t) }"

definition StatusOK :: int where
  "StatusOK = 200"

section \<open>request.go\<close>

record RequestCollector =
  RqC_DataPlaneSLOMaxRequestLatency :: go_int
  RqC_ControlPlaneSLODataPlaneAvailabilityPercentage :: go_float
  RqC_results :: "ControlPlaneResults option"

definition timeGetRequest :: "'s Net \<Rightarrow> string \<Rightarrow> ('s, (string + int) \<times> go_int) state" where
  "timeGetRequest N requestURL = do {
     start \<leftarrow> N_Now N;
     resp \<leftarrow> N_Get N requestURL;
     requestLatency \<leftarrow> Since N start;
     State_Monad.return (resp, requestLatency)
   }"

text \<open>What the loop does with one answer.\<close>

definition measure_request :: "RequestCollector \<Rightarrow> DataPlaneResults \<Rightarrow> (string + int) \<times> go_int \<Rightarrow> DataPlaneResults" where
  "measure_request r result answer =
     (case answer of
        (Inl err, _) \<Rightarrow> RecordError result err
      | (Inr statusCode, requestLatency) \<Rightarrow>
          let hasStatusOK = statusCode = StatusOK;
              hasMetRequestLatencySLO = sint requestLatency < sint (RqC_DataPlaneSLOMaxRequestLatency r);
              hasPassedSLI = hasStatusOK \<and> hasMetRequestLatencySLO
          in DataPlaneResults_Record result hasPassedSLI hasStatusOK hasMetRequestLatencySLO requestLatency)"

partial_function (option) Request_loop ::
    "'s Net \<Rightarrow> RequestCollector \<Rightarrow> string \<Rightarrow> int \<Rightarrow> go_int \<Rightarrow> DataPlaneResults \<Rightarrow> 's \<Rightarrow> (DataPlaneResults \<times> 's) option" where
  "Request_loop N r route startTime sampleTime result s =
     (case run_state (Since N startTime) s of (elapsed, s1) \<Rightarrow>
        if sint elapsed > sint sampleTime then Some (result, s1)
        else (case run_state (timeGetRequest N route) s1 of (answer, s2) \<Rightarrow>
                Request_loop N r route startTime sampleTime (measure_request r result answer) s2))"

definition addResult :: "RequestCollector \<Rightarrow> DataPlaneResults \<Rightarrow> RequestCollector" where
  "addResult r result =
     (let results = (case RqC_results r of
                       None \<Rightarrow> new_ControlPlaneResults (RqC_ControlPlaneSLODataPlaneAvailabilityPercentage r)
                     | Some c \<Rightarrow> c)
      in r\<lparr>RqC_results := Some (AddResult results result)\<rparr>)"

text \<open>
  The goroutine of \<^verbatim>\<open>Request\<close> by itself, up to the sample it hands to \<open>addResult\<close>. By then other
  goroutines may have added theirs; how they interleave is in \<open>UptimeRun\<close>.
\<close>

definition Request_sample ::
    "'s Net \<Rightarrow> RequestCollector \<Rightarrow> string \<Rightarrow> go_int \<Rightarrow> go_int \<Rightarrow> 's \<Rightarrow> (DataPlaneResults \<times> 's) option" where
  "Request_sample N r route delay sampleTime s =
     (case run_state (N_Sleep N delay) s of (_, s1) \<Rightarrow>
        (case run_state (N_Now N) s1 of (startTime, s2) \<Rightarrow>
           Request_loop N r route startTime sampleTime zero_DataPlaneResults s2))"

definition GetResults :: "RequestCollector \<Rightarrow> ControlPlaneResults option" where
  "GetResults r = RqC_results r"

section \<open>upgrade.go\<close>

text \<open>
  The answer of \<^verbatim>\<open>kapp app-change ls\<close>; when the command or its output fails, the poll panics.
\<close>

record kappRow =
  KR_Name :: string
  KR_FinishedAt :: string

record kappResponse =
  KR_Tables :: "kappRow list list"

record Upgrade =
  Up_upgradeName :: string
  Up_upgradeDone :: bool

fun finished_in_rows :: "string \<Rightarrow> kappRow list \<Rightarrow> bool option" where
  "finished_in_rows upgradeName [] = None"
| "finished_in_rows upgradeName (row # rows) =
     (if KR_Name row = upgradeName then Some (KR_FinishedAt row \<noteq> '''') else finished_in_rows upgradeName rows)"

fun finished_in_tables :: "string \<Rightarrow> kappRow list list \<Rightarrow> bool" where
  "finished_in_tables upgradeName [] = False"
| "finished_in_tables upgradeName (table # tables) =
     (case finished_in_rows upgradeName table of Some b \<Rightarrow> b | None \<Rightarrow> finished_in_tables upgradeName tables)"

definition checkIfUpgradeHasFinished :: "kappResponse \<Rightarrow> string \<Rightarrow> bool" where
  "checkIfUpgradeHasFinished resp upgradeName = finished_in_tables upgradeName (KR_Tables resp)"

fun unfinished_in_rows :: "kappRow list \<Rightarrow> string option" where
  "unfinished_in_rows [] = None"
| "unfinished_in_rows (row # rows) = (if KR_FinishedAt row = '''' then Some (KR_Name row) else unfinished_in_rows rows)"

fun unfinished_in_tables :: "kappRow list list \<Rightarrow> string" where
  "unfinished_in_tables [] = ''''"
| "unfinished_in_tables (table # tables) =
     (case unfinished_in_rows table of Some name \<Rightarrow> name | None \<Rightarrow> unfinished_in_tables tables)"

definition discoverUpgradeName :: "kappResponse \<Rightarrow> string" where
  "discoverUpgradeName resp = unfinished_in_tables (KR_Tables resp)"

definition checkUpgrade :: "kappResponse go_result \<Rightarrow> Upgrade \<Rightarrow> Upgrade go_result" where
  "checkUpgrade kappAppChangeLS u =
     (case kappAppChangeLS of
        Inl e \<Rightarrow> Inl e
      | Inr resp \<Rightarrow> Inr (
          if Up_upgradeName u = '''' then u\<lparr>Up_upgradeName := discoverUpgradeName resp\<rparr>
          else if checkIfUpgradeHasFinished resp (Up_upgradeName u) then u\<lparr>Up_upgradeDone := True\<rparr>
          else u))"

definition HasFoundUpgrade :: "Upgrade \<Rightarrow> bool" where
  "HasFoundUpgrade u \<longleftrightarrow> Up_upgradeName u \<noteq> ''''"

definition IsUpgradeFinished :: "Upgrade \<Rightarrow> bool" where
  "IsUpgradeFinished u \<longleftrightarrow> Up_upgradeDone u"

text \<open>The goroutine of \<^verbatim>\<open>Start\<close>: a poll per tick, until \<^verbatim>\<open>Stop\<close> closes the channel.\<close>

datatype upgrade_event = Tick "kappResponse go_result" | Stopped

fun Start_loop :: "upgrade_event list \<Rightarrow> Upgrade \<Rightarrow> Upgrade go_result" where
  "Start_loop [] u = Inr u"
| "Start_loop (Stopped # _) u = Inr u"
| "Start_loop (Tick resp # events) u =
     (case checkUpgrade resp u of Inl e \<Rightarrow> Inl e | Inr u' \<Rightarrow> Start_loop events u')"

section \<open>Lemmas: samples\<close>

text \<open>The service level of one answer.\<close>

fun meets_slo :: "RequestCollector \<Rightarrow> (string + int) \<times> go_int \<Rightarrow> bool" where
  "meets_slo r (Inl err, _) \<longleftrightarrow> False"
| "meets_slo r (Inr statusCode, latency) \<longleftrightarrow>
     statusCode = StatusOK \<and> sint latency < sint (RqC_DataPlaneSLOMaxRequestLatency r)"

lemma measure_request_counts:
  "DP_SliPassCount (measure_request r u a) = DP_SliPassCount u + (if meets_slo r a then 1 else 0)"
  "DP_SliFailCount (measure_request r u a) = DP_SliFailCount u + (if meets_slo r a then 0 else 1)"
  by (induct r a rule: meets_slo.induct)
    (simp_all add: measure_request_def RecordError_def DataPlaneResults_Record_def Let_def)

lemma sample_counts:
  "DP_SliPassCount (foldl (measure_request r) u as) = DP_SliPassCount u + word_of_nat (length (filter (meets_slo r) as))"
  "DP_SliFailCount (foldl (measure_request r) u as) =
     DP_SliFailCount u + word_of_nat (length (filter (\<lambda>a. \<not> meets_slo r a) as))"
  by (induction as arbitrary: u) (simp_all add: measure_request_counts)

lemma sample_percentage:
  "DataPlaneResults_SuccessPercentage (foldl (measure_request r) zero_DataPlaneResults as) =
     percentage (length (filter (meets_slo r) as)) (length as)"
proof -
  have "(word_of_nat (length as) :: go_int) =
      word_of_nat (length (filter (\<lambda>a. \<not> meets_slo r a) as)) + word_of_nat (length (filter (meets_slo r) as))"
    unfolding sum_length_filter_compl [of "meets_slo r" as, symmetric] by (simp only: of_nat_add add.commute)
  then show ?thesis
    by (simp add: DataPlaneResults_SuccessPercentage_def sample_counts) (simp add: zero_DataPlaneResults_def)
qed

section \<open>The collector ends\<close>

text \<open>
  \<open>sampled N route startTime sampleTime s as t\<close>: from \<open>s\<close> the rounds of the loop got the answers \<open>as\<close>,
  until in \<open>t\<close> the sample time was over.
\<close>

inductive sampled ::
    "'s Net \<Rightarrow> string \<Rightarrow> int \<Rightarrow> go_int \<Rightarrow> 's \<Rightarrow> ((string + int) \<times> go_int) list \<Rightarrow> 's \<Rightarrow> bool"
  for N route startTime sampleTime where
  over: "run_state (Since N startTime) s = (elapsed, t) \<Longrightarrow> sint elapsed > sint sampleTime \<Longrightarrow>
    sampled N route startTime sampleTime s [] t"
| another: "run_state (Since N startTime) s = (elapsed, s1) \<Longrightarrow> \<not> sint elapsed > sint sampleTime \<Longrightarrow>
    run_state (timeGetRequest N route) s1 = (a, s2) \<Longrightarrow> sampled N route startTime sampleTime s2 as t \<Longrightarrow>
    sampled N route startTime sampleTime s (a # as) t"

lemma sint_time_Sub: "sint (time_Sub t u) = max (- (2 ^ 63)) (min (2 ^ 63 - 1) (t - u))"
  unfolding time_Sub_def by (simp add: signed_of_int signed_take_bit_int_eq_self)

text \<open>
  A duration other than the greatest is exceeded exactly when the time it measures is.
\<close>

lemma time_Sub_exceeds: "sint d < 2 ^ 63 - 1 \<Longrightarrow> sint (time_Sub t u) > sint (d :: go_int) \<longleftrightarrow> t > u + sint d"
  using sint_greater_eq [of d] by (auto simp: sint_time_Sub)

text \<open>
  What the loop needs of its surroundings: the clock does not go back, and a request takes at least
  \<open>\<delta>\<close> nanoseconds.
\<close>

locale timed_net =
  fixes N :: "'s Net"
    and clock :: "'s \<Rightarrow> int"
    and \<delta> :: int
  assumes delta_pos: "0 < \<delta>"
    and now_reads: "run_state (N_Now N) s = (n, t) \<Longrightarrow> clock s \<le> n \<and> n \<le> clock t"
    and get_takes: "run_state (N_Get N url) s = (a, t) \<Longrightarrow> clock s + \<delta> \<le> clock t"
    and sleep_takes: "run_state (N_Sleep N d) s = (x, t) \<Longrightarrow> clock s \<le> clock t"
begin

lemma Since_reads:
  assumes "run_state (Since N u) s = (d, t)"
  obtains n where "d = time_Sub n u" and "clock s \<le> n" and "n \<le> clock t"
  using assms now_reads by (fastforce simp: Since_def split: prod.splits)

lemma timeGetRequest_reads:
  assumes run: "run_state (timeGetRequest N url) s = (a, t)"
  obtains answer sent received where "a = (answer, time_Sub received sent)" and "clock s \<le> sent" and "sent + \<delta> \<le> received"
    and "received \<le> clock t"
proof -
  obtain n s1 where 1: "run_state (N_Now N) s = (n, s1)" by fastforce
  obtain x s2 where 2: "run_state (N_Get N url) s1 = (x, s2)" by fastforce
  obtain d s3 where 3: "run_state (Since N n) s2 = (d, s3)" by fastforce
  from run 1 2 3 have eq: "t = s3" "a = (x, d)" by (simp_all add: timeGetRequest_def)
  from 3 obtain m where "d = time_Sub m n" "clock s2 \<le> m" "m \<le> clock s3" by (rule Since_reads)
  with that [of x m n] eq now_reads [OF 1] get_takes [OF 2] show ?thesis by simp
qed

lemma timeGetRequest_takes: "run_state (timeGetRequest N url) s = (a, t) \<Longrightarrow> clock s + \<delta> \<le> clock t"
  by (erule timeGetRequest_reads) simp

lemma Request_loop_ends:
  assumes "sint sampleTime < 2 ^ 63 - 1"
  shows "\<exists>as t. Request_loop N r route startTime sampleTime u s = Some (foldl (measure_request r) u as, t) \<and>
    sampled N route startTime sampleTime s as t \<and> int (length as) * \<delta> \<le> max 0 (startTime + sint sampleTime - clock s + \<delta>) \<and> startTime + sint sampleTime < clock t"
proof (induction "nat (startTime + sint sampleTime + 1 - clock s)" arbitrary: s u rule: less_induct)
  case less
  let ?deadline = "startTime + sint sampleTime"
  obtain d s1 where since: "run_state (Since N startTime) s = (d, s1)" by fastforce
  then obtain n where n: "d = time_Sub n startTime" "clock s \<le> n" "n \<le> clock s1" by (rule Since_reads)
  have over: "sint d > sint sampleTime \<longleftrightarrow> n > ?deadline" unfolding n(1) by (rule time_Sub_exceeds [OF assms])
  show ?case
  proof (cases "n > ?deadline")
    case True
    with since over have "Request_loop N r route startTime sampleTime u s = Some (foldl (measure_request r) u [], s1)"
      by (simp add: Request_loop.simps)
    moreover have "?deadline < clock s1" using True n(3) by simp
    moreover have "sampled N route startTime sampleTime s [] s1" using since over True by (simp add: sampled.over)
    ultimately show ?thesis by (intro exI [of _ "[]"] exI [of _ s1]) simp
  next
    case False
    obtain a s2 where get: "run_state (timeGetRequest N route) s1 = (a, s2)" by fastforce
    note adv = timeGetRequest_takes [OF get]
    have loop: "Request_loop N r route startTime sampleTime u s =
        Request_loop N r route startTime sampleTime (measure_request r u a) s2"
      using since over False get by (simp add: Request_loop.simps [of N r route startTime sampleTime u s])
    have "nat (?deadline + 1 - clock s2) < nat (?deadline + 1 - clock s)" using False n adv delta_pos by linarith
    then obtain as t where as: "Request_loop N r route startTime sampleTime (measure_request r u a) s2 =
        Some (foldl (measure_request r) (measure_request r u a) as, t)"
      "int (length as) * \<delta> \<le> max 0 (?deadline - clock s2 + \<delta>)" "?deadline < clock t" "sampled N route startTime sampleTime s2 as t" using less [of s2] by blast
    have "int (length (a # as)) * \<delta> = \<delta> + int (length as) * \<delta>" by (simp add: distrib_right)
    also have "\<dots> \<le> \<delta> + (?deadline - clock s)" using as(2) False n adv by linarith
    finally have "int (length (a # as)) * \<delta> \<le> max 0 (?deadline - clock s + \<delta>)" by simp
    with as(1,3) loop sampled.another [OF since _ get as(4)] over False show ?thesis by (intro exI [of _ "a # as"] exI [of _ t]) simp
  qed
qed

lemma Request_ends:
  assumes "sint sampleTime < 2 ^ 63 - 1"
  shows "\<exists>startTime s0 as t. run_state (do { _ \<leftarrow> N_Sleep N delay; N_Now N }) s = (startTime, s0) \<and>
    sampled N route startTime sampleTime s0 as t \<and>
    Request_sample N r route delay sampleTime s = Some (foldl (measure_request r) zero_DataPlaneResults as, t) \<and>
    int (length as) * \<delta> \<le> max 0 (sint sampleTime + \<delta>)"
proof -
  obtain x s1 where sleep: "run_state (N_Sleep N delay) s = (x, s1)" by (rule prod.exhaust)
  obtain n s2 where now: "run_state (N_Now N) s1 = (n, s2)" by fastforce
  obtain as t where as: "Request_loop N r route n sampleTime zero_DataPlaneResults s2 =
      Some (foldl (measure_request r) zero_DataPlaneResults as, t)" "sampled N route n sampleTime s2 as t"
    "int (length as) * \<delta> \<le> max 0 (n + sint sampleTime - clock s2 + \<delta>)"
    using Request_loop_ends [OF assms] by blast
  have "int (length as) * \<delta> \<le> max 0 (sint sampleTime + \<delta>)" using as(3) now_reads [OF now] by linarith
  with as(1,2) sleep now show ?thesis
    by (intro exI [of _ n] exI [of _ s2] exI [of _ as] exI [of _ t]) (simp add: Request_sample_def)
qed

end

text \<open>A network with scripted answers and the time each of them takes.\<close>

record ScriptedNet =
  SN_clock :: int
  SN_script :: "((string + int) \<times> nat) list"

definition scripted_net :: "ScriptedNet Net" where
  "scripted_net = \<lparr>
     N_Now = State (\<lambda>s. (SN_clock s, s)),
     N_Get = (\<lambda>url. State (\<lambda>s.
       case SN_script s of
         [] \<Rightarrow> (Inl ''connection refused'', s\<lparr>SN_clock := SN_clock s + 1\<rparr>)
       | (a, d) # rest \<Rightarrow> (a, s\<lparr>SN_clock := SN_clock s + 1 + int d, SN_script := rest\<rparr>))),
     N_Sleep = (\<lambda>d. State (\<lambda>s. ((), s\<lparr>SN_clock := SN_clock s + max 0 (sint d)\<rparr>)))\<rparr>"

interpretation scripted: timed_net scripted_net SN_clock 1
  by unfold_locales (auto simp: scripted_net_def split: list.splits prod.splits)

section \<open>What a poll looks for\<close>

text \<open>The nested loops over tables and rows stop at the first row they look for, in the order of the response.\<close>

lemma unfinished_in_rows_find: "unfinished_in_rows rows = map_option KR_Name (find (\<lambda>row. KR_FinishedAt row = '''') rows)"
  by (induction rows) simp_all

lemma finished_in_rows_find:
  "finished_in_rows name rows = map_option (\<lambda>row. KR_FinishedAt row \<noteq> '''') (find (\<lambda>row. KR_Name row = name) rows)"
  by (induction rows) simp_all

lemma find_append: "find P (xs @ ys) = (case find P xs of None \<Rightarrow> find P ys | Some x \<Rightarrow> Some x)"
  by (induction xs) simp_all

lemma discoverUpgradeName_find:
  "discoverUpgradeName resp =
     (case find (\<lambda>row. KR_FinishedAt row = '''') (concat (KR_Tables resp)) of None \<Rightarrow> '''' | Some row \<Rightarrow> KR_Name row)"
proof -
  have "unfinished_in_tables tables =
      (case find (\<lambda>row. KR_FinishedAt row = '''') (concat tables) of None \<Rightarrow> '''' | Some row \<Rightarrow> KR_Name row)" for tables
    by (induction tables) (simp_all add: unfinished_in_rows_find find_append split: option.split)
  then show ?thesis by (simp add: discoverUpgradeName_def)
qed

lemma checkIfUpgradeHasFinished_find:
  "checkIfUpgradeHasFinished resp name \<longleftrightarrow>
     (\<exists>row. find (\<lambda>row. KR_Name row = name) (concat (KR_Tables resp)) = Some row \<and> KR_FinishedAt row \<noteq> '''')"
proof -
  have "finished_in_tables name tables \<longleftrightarrow>
      (\<exists>row. find (\<lambda>row. KR_Name row = name) (concat tables) = Some row \<and> KR_FinishedAt row \<noteq> '''')" for tables
    by (induction tables) (simp_all add: finished_in_rows_find find_append split: option.split)
  then show ?thesis by (simp add: checkIfUpgradeHasFinished_def)
qed

text \<open>Once it has a name the checker only looks for the finish time.\<close>

lemma Start_loop_found:
  "name \<noteq> '''' \<Longrightarrow>
   Start_loop (map (\<lambda>resp. Tick (Inr resp)) rs @ Stopped # ignored) \<lparr>Up_upgradeName = name, Up_upgradeDone = b\<rparr> =
     Inr \<lparr>Up_upgradeName = name, Up_upgradeDone = b \<or> (\<exists>x \<in> set rs. checkIfUpgradeHasFinished x name)\<rparr>"
  by (induction rs arbitrary: b) (simp_all add: checkUpgrade_def)

lemma Start_loop_seen:
  "Start_loop (map (\<lambda>resp. Tick (Inr resp)) rs @ Stopped # ignored) \<lparr>Up_upgradeName = '''', Up_upgradeDone = False\<rparr> =
    Inr (case dropWhile (\<lambda>resp. discoverUpgradeName resp = '''') rs of
           [] \<Rightarrow> \<lparr>Up_upgradeName = '''', Up_upgradeDone = False\<rparr>
         | resp # later \<Rightarrow> \<lparr>Up_upgradeName = discoverUpgradeName resp,
             Up_upgradeDone = (\<exists>x \<in> set later. checkIfUpgradeHasFinished x (discoverUpgradeName resp))\<rparr>)"
  by (induction rs) (simp_all add: checkUpgrade_def Start_loop_found)

section \<open>Properties\<close>

text \<open>
  The sampling goroutine ends: when the clock does not go back and every request takes at least
  \<open>\<delta>\<close> nanoseconds, it returns for every sample time but the greatest duration, after at most one
  request more than fit into the sample time, with a sample whose counters are the numbers of the
  requests that were and were not answered with 200 within the latency allowed.
\<close>

lemma request_terminates:
  assumes "timed_net N clock \<delta>" and "sint sampleTime < 2 ^ 63 - 1"
  shows "\<exists>startTime s0 as result t. run_state (do { _ \<leftarrow> N_Sleep N delay; N_Now N }) s = (startTime, s0) \<and>
    sampled N route startTime sampleTime s0 as t \<and>
    Request_sample N r route delay sampleTime s = Some (result, t) \<and>
    int (length as) * \<delta> \<le> max 0 (sint sampleTime + \<delta>) \<and>
    DP_SliPassCount result = word_of_nat (length (filter (meets_slo r) as)) \<and>
    DP_SliFailCount result = word_of_nat (length (filter (\<lambda>a. \<not> meets_slo r a) as)) \<and>
    DataPlaneResults_SuccessPercentage result = percentage (length (filter (meets_slo r) as)) (length as)"
proof -
  obtain startTime s0 as t where "run_state (do { _ \<leftarrow> N_Sleep N delay; N_Now N }) s = (startTime, s0)"
    "sampled N route startTime sampleTime s0 as t"
    "Request_sample N r route delay sampleTime s = Some (foldl (measure_request r) zero_DataPlaneResults as, t)"
    "int (length as) * \<delta> \<le> max 0 (sint sampleTime + \<delta>)"
    using timed_net.Request_ends [OF assms] by blast
  moreover have "DP_SliPassCount zero_DataPlaneResults = 0" "DP_SliFailCount zero_DataPlaneResults = 0"
    by (simp_all add: zero_DataPlaneResults_def)
  ultimately show ?thesis
    using sample_percentage [of r as] sample_counts [of r zero_DataPlaneResults as] by auto
qed

text \<open>
  C39. What the upgrade checker reports. The change that a response offers as the upgrade is its first
  row without a finish time, over all its tables in order. Polling the responses \<open>rs\<close> until it is
  stopped, the checker has found an upgrade exactly when some response offers a change whose name is
  not empty, it sticks to the name that the first such response offers, and it reports the upgrade
  as finished exactly when in a later response the first row of that name has a finish time. So an
  upgrade that starts and ends between two polls is never found, and a response whose first
  unfinished change has no name is passed over, whatever it lists after it.
\<close>

theorem upgrade_observed:
  defines "offered \<equiv> \<lambda>resp. case find (\<lambda>row. KR_FinishedAt row = '''') (concat (KR_Tables resp)) of
      None \<Rightarrow> '''' | Some row \<Rightarrow> KR_Name row"
    and "shows_finished \<equiv> \<lambda>name resp. \<exists>row. find (\<lambda>row. KR_Name row = name) (concat (KR_Tables resp)) = Some row \<and>
      KR_FinishedAt row \<noteq> ''''"
  shows "Start_loop (map (\<lambda>resp. Tick (Inr resp)) rs @ Stopped # ignored) \<lparr>Up_upgradeName = '''', Up_upgradeDone = False\<rparr> =
      Inr (case dropWhile (\<lambda>resp. offered resp = '''') rs of
             [] \<Rightarrow> \<lparr>Up_upgradeName = '''', Up_upgradeDone = False\<rparr>
           | resp # later \<Rightarrow> \<lparr>Up_upgradeName = offered resp, Up_upgradeDone = (\<exists>x \<in> set later. shows_finished (offered resp) x)\<rparr>)"
  unfolding offered_def shows_finished_def
  using Start_loop_seen [of rs ignored, unfolded checkIfUpgradeHasFinished_find discoverUpgradeName_find] .

end
