(* ===== verification/UptimeRun.thy ===== *)
theory UptimeRun
  imports UptimeCollector
begin

text \<open>
  The goroutines of the control plane test's collector together: every call of \<^verbatim>\<open>Request\<close> starts a goroutine, and
  the goroutines take turns at every read of the clock, every answer of the network and every sample
  added under the mutex. Time passes freely between these steps and the network answers what it
  likes, but an answer takes at least \<open>\<delta>\<close> nanoseconds. The test that makes the calls is in
  \<open>ControlPlaneTest\<close>.
\<close>

section \<open>Goroutines\<close>

text \<open>
  Where a goroutine of \<^verbatim>\<open>Request\<close> stands: in \<^verbatim>\<open>time.Sleep(delay)\<close>, called at the given time; at the head
  of the loop; before the next request; waiting for the answer to the request sent at the given
  time; returned.
\<close>

datatype goroutine =
  Sleeping string int go_int go_int
| Looping string int go_int DataPlaneResults
| Sending string int go_int DataPlaneResults
| Waiting string int go_int DataPlaneResults int
| Returned

record Run =
  Run_clock :: int
  Run_collector :: RequestCollector
  Run_goroutines :: "goroutine list"

text \<open>The call itself: it only counts the wait group up and starts the goroutine.\<close>

definition Request_Request :: "Run \<Rightarrow> string \<Rightarrow> go_int \<Rightarrow> go_int \<Rightarrow> Run" where
  "Request_Request run route delay sampleTime =
     run\<lparr>Run_goroutines := Run_goroutines run @ [Sleeping route (Run_clock run) delay sampleTime]\<rparr>"

definition Wait_over :: "Run \<Rightarrow> bool" where
  "Wait_over run \<longleftrightarrow> (\<forall>g \<in> set (Run_goroutines run). g = Returned)"

text \<open>
  What a goroutine may do next at time \<open>t\<close>, with the collector it shares; an answer is one of the
  network's.
\<close>

inductive goroutine_step ::
    "int \<Rightarrow> int \<Rightarrow> RequestCollector \<Rightarrow> goroutine \<Rightarrow> RequestCollector \<Rightarrow> goroutine \<Rightarrow> bool" for \<delta> t r where
  wake: "called + sint delay \<le> t \<Longrightarrow>
    goroutine_step \<delta> t r (Sleeping route called delay sampleTime) r (Looping route t sampleTime zero_DataPlaneResults)"
| continue: "\<not> sint (time_Sub t startTime) > sint sampleTime \<Longrightarrow>
    goroutine_step \<delta> t r (Looping route startTime sampleTime u) r (Sending route startTime sampleTime u)"
| send: "goroutine_step \<delta> t r (Sending route startTime sampleTime u) r (Waiting route startTime sampleTime u t)"
| receive: "sent + \<delta> \<le> t \<Longrightarrow>
    goroutine_step \<delta> t r (Waiting route startTime sampleTime u sent) r
      (Looping route startTime sampleTime (measure_request r u (answer, time_Sub t sent)))"
| finish: "sint (time_Sub t startTime) > sint sampleTime \<Longrightarrow>
    goroutine_step \<delta> t r (Looping route startTime sampleTime u) (addResult r u) Returned"

inductive run_step :: "int \<Rightarrow> Run \<Rightarrow> Run \<Rightarrow> bool" for \<delta> where
  turn: "i < length (Run_goroutines run) \<Longrightarrow> Run_clock run \<le> t \<Longrightarrow>
    goroutine_step \<delta> t (Run_collector run) (Run_goroutines run ! i) r' g' \<Longrightarrow>
    run_step \<delta> run \<lparr>Run_clock = t, Run_collector = r', Run_goroutines = (Run_goroutines run)[i := g']\<rparr>"

inductive_cases goroutine_stepE: "goroutine_step \<delta> t r g r' g'"

section \<open>Every schedule ends\<close>

text \<open>
  How many requests can still be sent while \<open>x\<close> nanoseconds are left, and from that how many steps a
  goroutine can still take.
\<close>

definition rounds :: "int \<Rightarrow> int \<Rightarrow> nat" where
  "rounds \<delta> x = (if x < 0 then 0 else nat (x div \<delta>) + 1)"

fun steps_left :: "int \<Rightarrow> int \<Rightarrow> goroutine \<Rightarrow> nat" where
  "steps_left \<delta> c (Sleeping route called delay sampleTime) = 3 * rounds \<delta> (sint sampleTime) + 2"
| "steps_left \<delta> c (Looping route startTime sampleTime u) = 3 * rounds \<delta> (startTime + sint sampleTime - c) + 1"
| "steps_left \<delta> c (Sending route startTime sampleTime u) = 3 * rounds \<delta> (startTime + sint sampleTime - c - \<delta>) + 3"
| "steps_left \<delta> c (Waiting route startTime sampleTime u sent) = 3 * rounds \<delta> (startTime + sint sampleTime - sent - \<delta>) + 2"
| "steps_left \<delta> c Returned = 0"

fun sample_time :: "goroutine \<Rightarrow> int" where
  "sample_time (Sleeping route called delay sampleTime) = sint sampleTime"
| "sample_time (Looping route startTime sampleTime u) = sint sampleTime"
| "sample_time (Sending route startTime sampleTime u) = sint sampleTime"
| "sample_time (Waiting route startTime sampleTime u sent) = sint sampleTime"
| "sample_time Returned = 0"

lemma rounds_mono: "0 < \<delta> \<Longrightarrow> x \<le> y \<Longrightarrow> rounds \<delta> x \<le> rounds \<delta> y"
  by (auto simp: rounds_def intro!: nat_mono zdiv_mono1)

lemma rounds_diff: "0 < \<delta> \<Longrightarrow> 0 \<le> x \<Longrightarrow> rounds \<delta> (x - \<delta>) + 1 = rounds \<delta> x"
proof (cases "x < \<delta>")
  case True
  assume "0 < \<delta>" "0 \<le> x"
  with True show ?thesis by (simp add: rounds_def div_pos_pos_trivial)
next
  case False
  assume "0 < \<delta>" "0 \<le> x"
  then have "(x - \<delta>) div \<delta> + 1 = x div \<delta>" using div_add_self2 [of \<delta> "x - \<delta>"] by simp
  moreover have "0 \<le> (x - \<delta>) div \<delta>" using False \<open>0 < \<delta>\<close> by (simp add: pos_imp_zdiv_nonneg_iff)
  ultimately show ?thesis using False \<open>0 < \<delta>\<close> by (simp add: rounds_def)
qed

lemma steps_left_clock: "0 < \<delta> \<Longrightarrow> c \<le> c' \<Longrightarrow> steps_left \<delta> c' g \<le> steps_left \<delta> c g"
  by (cases g) (auto intro!: rounds_mono)

lemma goroutine_step_less:
  assumes "goroutine_step \<delta> t r g r' g'" and "0 < \<delta>" and "c \<le> t" and "sample_time g < 2 ^ 63 - 1"
  shows "steps_left \<delta> t g' < steps_left \<delta> c g" and "sample_time g' < 2 ^ 63 - 1"
proof -
  show "sample_time g' < 2 ^ 63 - 1" using assms(1,4) by cases simp_all
  show "steps_left \<delta> t g' < steps_left \<delta> c g"
    using assms(1)
  proof cases
    case (continue startTime sampleTime route u)
    let ?x = "startTime + sint sampleTime"
    have "t \<le> ?x" using continue time_Sub_exceeds [of sampleTime t startTime] assms(4) by auto
    then have "rounds \<delta> (?x - t - \<delta>) + 1 = rounds \<delta> (?x - t)" using rounds_diff [OF assms(2)] by simp
    moreover have "rounds \<delta> (?x - t) \<le> rounds \<delta> (?x - c)" using assms(2,3) by (intro rounds_mono) auto
    ultimately show ?thesis using continue by simp
  next
    case (send route startTime sampleTime u)
    have "rounds \<delta> (startTime + sint sampleTime - t - \<delta>) \<le> rounds \<delta> (startTime + sint sampleTime - c - \<delta>)"
      using assms(2,3) by (intro rounds_mono) auto
    with send show ?thesis by simp
  next
    case (receive sent route startTime sampleTime u answer)
    have "rounds \<delta> (startTime + sint sampleTime - t) \<le> rounds \<delta> (startTime + sint sampleTime - sent - \<delta>)"
      using assms(2) receive by (intro rounds_mono) auto
    with receive show ?thesis by simp
  qed simp_all
qed

definition run_steps_left :: "int \<Rightarrow> Run \<Rightarrow> nat" where
  "run_steps_left \<delta> run = sum_list (map (steps_left \<delta> (Run_clock run)) (Run_goroutines run))"

abbreviation bounded :: "Run \<Rightarrow> bool" where
  "bounded run \<equiv> \<forall>g \<in> set (Run_goroutines run). sample_time g < 2 ^ 63 - 1"

lemma sum_list_update_less:
  assumes "i < length xs" and "\<And>x. x \<in> set xs \<Longrightarrow> f x \<le> h x" and "f y < (h (xs ! i) :: nat)"
  shows "sum_list (map f (xs[i := y])) < sum_list (map h xs)"
proof -
  have split: "xs = take i xs @ xs ! i # drop (Suc i) xs" using assms(1) by (rule id_take_nth_drop)
  have part: "sum_list (map f zs) \<le> sum_list (map h zs)" if "set zs \<subseteq> set xs" for zs
    using assms(2) that by (intro sum_list_mono) blast
  have "sum_list (map f (xs[i := y])) = sum_list (map f (take i xs)) + f y + sum_list (map f (drop (Suc i) xs))"
    using assms(1) by (simp add: upd_conv_take_nth_drop)
  also have "\<dots> < sum_list (map h (take i xs)) + h (xs ! i) + sum_list (map h (drop (Suc i) xs))"
    using part [OF set_take_subset, of i] part [OF set_drop_subset, of "Suc i"] assms(3) by linarith
  also have "\<dots> = sum_list (map h xs)" using arg_cong [OF split, of "\<lambda>zs. sum_list (map h zs)"] by simp
  finally show ?thesis .
qed

lemma run_step_less:
  assumes "run_step \<delta> run run'" and "0 < \<delta>" and "bounded run"
  shows "run_steps_left \<delta> run' < run_steps_left \<delta> run \<and> bounded run'"
  using assms(1)
proof cases
  case (turn i t r' g')
  have g: "sample_time (Run_goroutines run ! i) < 2 ^ 63 - 1" using turn(2) assms(3) by simp
  note L = goroutine_step_less [OF turn(4) assms(2) turn(3) g]
  have "run_steps_left \<delta> run' < run_steps_left \<delta> run"
    unfolding run_steps_left_def turn(1) Run.select_convs
    using turn(2) L(1) assms(2) turn(3) by (intro sum_list_update_less) (auto intro: steps_left_clock)
  moreover have "bounded run'"
    using L(2) assms(3) by (auto simp: turn(1) dest!: set_update_subset_insert [THEN subsetD])
  ultimately show ?thesis ..
qed

text \<open>
  No goroutine is stuck: from some time on, one that has not returned can go on at every time,
  whatever the others have done to the collector.
\<close>

lemma goroutine_progress:
  assumes "g \<noteq> Returned"
  shows "\<exists>t0. \<forall>t \<ge> t0. \<forall>r. \<exists>r' g'. goroutine_step \<delta> t r g r' g'"
proof (cases g)
  case (Sleeping route called delay sampleTime)
  then show ?thesis by (intro exI [of _ "called + sint delay"]) (blast intro: goroutine_step.wake)
next
  case (Looping route startTime sampleTime u)
  then show ?thesis using goroutine_step.continue goroutine_step.finish by metis
next
  case (Sending route startTime sampleTime u)
  then show ?thesis using goroutine_step.send by blast
next
  case (Waiting route startTime sampleTime u sent)
  then show ?thesis by (intro exI [of _ "sent + \<delta>"]) (blast intro: goroutine_step.receive)
next
  case Returned
  with assms show ?thesis by simp
qed

section \<open>What the goroutines collect\<close>

text \<open>A sample measured with the collector's service level, and the goroutine's sample so far.\<close>

definition measured :: "RequestCollector \<Rightarrow> DataPlaneResults \<Rightarrow> bool" where
  "measured r u \<longleftrightarrow> (\<exists>as. u = foldl (measure_request r) zero_DataPlaneResults as)"

fun goroutine_measured :: "RequestCollector \<Rightarrow> goroutine \<Rightarrow> bool" where
  "goroutine_measured r (Looping route startTime sampleTime u) = measured r u"
| "goroutine_measured r (Sending route startTime sampleTime u) = measured r u"
| "goroutine_measured r (Waiting route startTime sampleTime u sent) = measured r u"
| "goroutine_measured r _ = True"

text \<open>The collector after the samples \<open>us\<close> were added to a fresh one.\<close>

definition with_samples :: "RequestCollector \<Rightarrow> DataPlaneResults list \<Rightarrow> RequestCollector" where
  "with_samples r us = r\<lparr>RqC_results :=
     (if us = [] then None
      else Some (foldl AddResult (new_ControlPlaneResults (RqC_ControlPlaneSLODataPlaneAvailabilityPercentage r)) us))\<rparr>"

lemma addResult_with_samples: "addResult (with_samples r us) u = with_samples r (us @ [u])"
  by (simp add: addResult_def with_samples_def)

lemma latency_with_samples [simp]:
  "RqC_DataPlaneSLOMaxRequestLatency (with_samples r us) = RqC_DataPlaneSLOMaxRequestLatency r"
  by (simp add: with_samples_def)

lemma measure_request_with_samples [simp]: "measure_request (with_samples r us) = measure_request r"
  unfolding measure_request_def latency_with_samples ..

lemma measured_zero [simp]: "measured r zero_DataPlaneResults"
  unfolding measured_def by (rule exI [of _ "[]"]) simp

lemma measured_step: "measured r u \<Longrightarrow> measured r (measure_request r u a)"
  unfolding measured_def by (metis foldl_Cons foldl_Nil foldl_append)

abbreviation returned :: "goroutine list \<Rightarrow> nat" where
  "returned gs \<equiv> length (filter (\<lambda>g. g = Returned) gs)"

definition collecting :: "RequestCollector \<Rightarrow> Run \<Rightarrow> bool" where
  "collecting r run \<longleftrightarrow> (\<forall>g \<in> set (Run_goroutines run). goroutine_measured r g) \<and>
     (\<exists>us. Run_collector run = with_samples r us \<and> length us = returned (Run_goroutines run) \<and>
           (\<forall>u \<in> set us. measured r u))"

lemma goroutine_step_collects:
  assumes "goroutine_step \<delta> t (with_samples r us) g r' g'" and "goroutine_measured r g"
  shows "\<exists>us'. r' = with_samples r (us @ us') \<and> length us' = (if g' = Returned then 1 else 0) \<and>
    (\<forall>u \<in> set us'. measured r u) \<and> goroutine_measured r g' \<and> g \<noteq> Returned"
  using assms(1)
proof cases
  case (receive sent route startTime sampleTime u answer)
  with assms(2) show ?thesis by (intro exI [of _ "[]"]) (simp add: measured_step)
next
  case (finish startTime sampleTime route u)
  with assms(2) show ?thesis by (intro exI [of _ "[u]"]) (simp add: addResult_with_samples)
qed (use assms(2) in \<open>auto intro!: exI [of _ "[]"]\<close>)

lemma returned_update:
  assumes "i < length gs" and "gs ! i \<noteq> Returned"
  shows "returned (gs[i := g]) = returned gs + (if g = Returned then 1 else 0)"
  using assms
proof (induction gs arbitrary: i)
  case Nil
  then show ?case by simp
next
  case (Cons h hs)
  then show ?case by (cases i) auto
qed

lemma run_step_collects:
  assumes "run_step \<delta> run run'" and "collecting r run"
  shows "collecting r run'"
  using assms(1)
proof cases
  case (turn i t r' g')
  from assms(2) obtain us where us: "Run_collector run = with_samples r us" "length us = returned (Run_goroutines run)"
    "\<forall>u \<in> set us. measured r u" and gs: "\<forall>g \<in> set (Run_goroutines run). goroutine_measured r g"
    unfolding collecting_def by blast
  from gs turn(2) have "goroutine_measured r (Run_goroutines run ! i)" by simp
  with turn(4) [unfolded us(1)] obtain us' where us': "r' = with_samples r (us @ us')"
    "length us' = (if g' = Returned then 1 else 0)" "\<forall>u \<in> set us'. measured r u" "goroutine_measured r g'"
    "Run_goroutines run ! i \<noteq> Returned" by (blast dest: goroutine_step_collects)
  have "length (us @ us') = returned ((Run_goroutines run)[i := g'])"
    unfolding returned_update [OF turn(2) us'(5)] length_append us(2) us'(2) ..
  moreover have "\<forall>g \<in> set ((Run_goroutines run)[i := g']). goroutine_measured r g"
    using gs us'(4) by (auto dest!: set_update_subset_insert [THEN subsetD])
  ultimately show ?thesis
    unfolding collecting_def turn(1) Run.select_convs us'(1) using us(3) us'(3) by (metis UnE set_append)
qed

section \<open>A goroutine by itself\<close>

text \<open>
  A goroutine that runs alone over a clock and a network takes the steps above: the sampling loop of
  \<open>Request_sample\<close> is one of the schedules, and it adds the sample which that loop returns.
\<close>

lemma lone_turn:
  assumes "goroutine_step \<delta> t r g r' g'" and "c \<le> t"
  shows "run_step \<delta> \<lparr>Run_clock = c, Run_collector = r, Run_goroutines = [g]\<rparr>
    \<lparr>Run_clock = t, Run_collector = r', Run_goroutines = [g']\<rparr>"
  using run_step.turn [of 0 "\<lparr>Run_clock = c, Run_collector = r, Run_goroutines = [g]\<rparr>" t \<delta> r' g'] assms by simp

lemma lone_round:
  assumes "\<not> sint (time_Sub n startTime) > sint sampleTime" and "c \<le> n" and "n \<le> sent" and "sent + \<delta> \<le> received" and "0 < \<delta>"
  shows "(run_step \<delta>)\<^sup>*\<^sup>* \<lparr>Run_clock = c, Run_collector = r, Run_goroutines = [Looping route startTime sampleTime u]\<rparr>
    \<lparr>Run_clock = received, Run_collector = r,
      Run_goroutines = [Looping route startTime sampleTime (measure_request r u (answer, time_Sub received sent))]\<rparr>"
proof -
  have le: "sent \<le> received" using assms(4,5) by simp
  from lone_turn [OF goroutine_step.continue [OF assms(1)] assms(2)] lone_turn [OF goroutine_step.send assms(3)]
    lone_turn [OF goroutine_step.receive [OF assms(4)] le]
  show ?thesis by (meson rtranclp.rtrancl_into_rtrancl rtranclp.rtrancl_refl)
qed

context timed_net
begin

lemma sampled_run:
  assumes "sampled N route startTime sampleTime s as s'" and "c \<le> clock s"
  shows "\<exists>c' \<le> clock s'. (run_step \<delta>)\<^sup>*\<^sup>*
    \<lparr>Run_clock = c, Run_collector = r, Run_goroutines = [Looping route startTime sampleTime u]\<rparr>
    \<lparr>Run_clock = c', Run_collector = addResult r (foldl (measure_request r) u as), Run_goroutines = [Returned]\<rparr>"
  using assms
proof (induction arbitrary: c u rule: sampled.induct)
  case (over s elapsed s')
  from over.hyps(1) obtain n where n: "elapsed = time_Sub n startTime" "clock s \<le> n" "n \<le> clock s'" by (rule Since_reads)
  have "goroutine_step \<delta> n r (Looping route startTime sampleTime u) (addResult r u) Returned"
    using over.hyps(2) n(1) by (intro goroutine_step.finish) simp
  from lone_turn [OF this, of c] n over.prems show ?case by (intro exI [of _ n]) simp
next
  case (another s elapsed s1 a s2 as s')
  from another.hyps(1) obtain n where n: "elapsed = time_Sub n startTime" "clock s \<le> n" "n \<le> clock s1" by (rule Since_reads)
  from another.hyps(3) obtain answer sent received where get: "a = (answer, time_Sub received sent)" "clock s1 \<le> sent"
    "sent + \<delta> \<le> received" "received \<le> clock s2" by (rule timeGetRequest_reads)
  from another.IH [OF get(4), of "measure_request r u a"] obtain c' where c': "c' \<le> clock s'"
    "(run_step \<delta>)\<^sup>*\<^sup>* \<lparr>Run_clock = received, Run_collector = r, Run_goroutines = [Looping route startTime sampleTime (measure_request r u a)]\<rparr>
      \<lparr>Run_clock = c', Run_collector = addResult r (foldl (measure_request r) (measure_request r u a) as), Run_goroutines = [Returned]\<rparr>"
    by blast
  have "\<not> sint (time_Sub n startTime) > sint sampleTime" "c \<le> n" "n \<le> sent"
    using another.hyps(2) n get(2) another.prems by auto
  note first = lone_round [OF this get(3) delta_pos, of r route u answer, folded get(1)]
  show ?case
    using rtranclp_trans [OF first c'(2)] c'(1) by auto
qed

end

end
