(* ===== verification/ScaleCollector.thy ===== *)
theory ScaleCollector
  imports Float64
begin

text \<open>
  \<^verbatim>\<open>test/scale/internal/collector/route_mapper.go\<close>: the scale test deletes a route, maps another and
  watches it for 60 rounds. The cf CLI, the network and the clock are a record of calls over an
  abstract state. What is printed, and the body that is read only for it, are left out.
\<close>

section \<open>The surroundings\<close>

text \<open>
  The exit code of a cf command, whose wait may time out; \<^verbatim>\<open>time.Now().Unix()\<close>; an HTTP request, answered by an error or a
  status code; \<^verbatim>\<open>time.Sleep\<close> in seconds.
\<close>

record 's Env =
  E_Cf :: "string list \<Rightarrow> ('s, int) go_action"
  E_Unix :: "('s, go_int) state"
  E_Get :: "string \<Rightarrow> ('s, string + int) state"
  E_Sleep :: "nat \<Rightarrow> ('s, unit) state"

section \<open>RouteMapper\<close>

record RouteMapper =
  RM_results :: "go_float list"
  RM_failures :: go_int
  RM_postFailures :: go_int

definition RouteMapper_addResult :: "RouteMapper \<Rightarrow> go_float \<Rightarrow> RouteMapper" where
  "RouteMapper_addResult r result = r\<lparr>RM_results := RM_results r @ [result]\<rparr>"

definition addFailure :: "RouteMapper \<Rightarrow> RouteMapper" where
  "addFailure r = r\<lparr>RM_failures := RM_failures r + 1\<rparr>"

definition addPostFailure :: "RouteMapper \<Rightarrow> RouteMapper" where
  "addPostFailure r = r\<lparr>RM_postFailures := RM_postFailures r + 1\<rparr>"

definition RouteMapper_GetResults :: "RouteMapper \<Rightarrow> go_float list" where
  "RouteMapper_GetResults r = RM_results r"

definition GetFailures :: "RouteMapper \<Rightarrow> go_int" where
  "GetFailures r = RM_failures r"

definition GetPostFailures :: "RouteMapper \<Rightarrow> go_int" where
  "GetPostFailures r = RM_postFailures r"

text \<open>
  The mapper is shared by the goroutines of all routes. Each of these calls takes its mutex, so
  calls of different goroutines may come between two of the same, but never into one.
\<close>

datatype mapper_call = Call_addFailure | Call_addPostFailure | Call_addResult go_float

fun perform :: "RouteMapper \<Rightarrow> mapper_call \<Rightarrow> RouteMapper" where
  "perform r Call_addFailure = addFailure r"
| "perform r Call_addPostFailure = addPostFailure r"
| "perform r (Call_addResult result) = RouteMapper_addResult r result"

text \<open>\<open>tries\<close> is what is left of the three rounds; \<^verbatim>\<open>Fail\<close> ends the goroutine by a panic.\<close>

fun cfWithRetry_loop :: "'s Env \<Rightarrow> nat \<Rightarrow> string list \<Rightarrow> ('s, unit) go_action" where
  "cfWithRetry_loop E 0 args = go_fail (Panic ''Never successfully ran cf command'')"
| "cfWithRetry_loop E (Suc tries) args =
     if_ok (E_Cf E args) (\<lambda>exitCode.
       if exitCode = 0 then go_return ()
       else do { _ \<leftarrow> E_Sleep E 10; cfWithRetry_loop E tries args })"

definition cfWithRetry :: "'s Env \<Rightarrow> string list \<Rightarrow> ('s, unit) go_action" where
  "cfWithRetry E args = cfWithRetry_loop E 3 args"

record PollState =
  PS_lastFailure :: go_int
  PS_succeeded :: bool
  PS_postFailed :: bool

text \<open>
  A round of the loop. A request error continues with the next round at once; other rounds end with
  a sleep of a second. The time is read only when the status is not 200.
\<close>

fun poll_loop :: "'s Env \<Rightarrow> string \<Rightarrow> nat \<Rightarrow> PollState \<Rightarrow> ('s, PollState) state" where
  "poll_loop E url 0 p = State_Monad.return p"
| "poll_loop E url (Suc rounds) p = do {
     resp \<leftarrow> E_Get E url;
     (case resp of
        Inl err \<Rightarrow> poll_loop E url rounds p
      | Inr statusCode \<Rightarrow> do {
          p \<leftarrow> (if statusCode \<noteq> 200
               then do {
                 now \<leftarrow> E_Unix E;
                 State_Monad.return (p\<lparr>PS_lastFailure := now,
                   PS_postFailed := PS_postFailed p \<or> PS_succeeded p\<rparr>)
               }
               else State_Monad.return (p\<lparr>PS_succeeded := True, PS_postFailed := False\<rparr>));
          _ \<leftarrow> E_Sleep E 1;
          poll_loop E url rounds p
        })
   }"

text \<open>
  The goroutine, with the calls it makes on the shared mapper once the rounds are over. A panic is
  recovered by \<^verbatim>\<open>GinkgoRecover\<close>; no call was made by then.
\<close>

definition MapRoute ::
    "'s Env \<Rightarrow> string \<Rightarrow> string \<Rightarrow> string \<Rightarrow> string \<Rightarrow> ('s, mapper_call list) go_action" where
  "MapRoute E appName domain routeToDelete routeToMap =
     if_ok (cfWithRetry E [''delete-route'', domain, ''--hostname'', routeToDelete, ''-f'']) (\<lambda>_.
       if_ok (cfWithRetry E [''map-route'', appName, domain, ''--hostname'', routeToMap]) (\<lambda>_. do {
         startTime \<leftarrow> E_Unix E;
         lastFailure \<leftarrow> E_Unix E;
         p \<leftarrow> poll_loop E (''https://'' @ routeToMap @ ''.'' @ domain @ ''/'') 60
                \<lparr>PS_lastFailure = lastFailure, PS_succeeded = False, PS_postFailed = False\<rparr>;
         if \<not> PS_succeeded p then go_return [Call_addFailure]
         else go_return ((if PS_postFailed p then [Call_addPostFailure] else []) @
                [Call_addResult (float_of_int (PS_lastFailure p - startTime))])
       }))"

section \<open>Lemmas\<close>

text \<open>
  The rounds as the loop saw them: an error, a 200, or another status with the time read after it.
\<close>

datatype round = Errored | Healthy | Unhealthy go_int

fun poll_step :: "PollState \<Rightarrow> round \<Rightarrow> PollState" where
  "poll_step p Errored = p"
| "poll_step p Healthy = p\<lparr>PS_succeeded := True, PS_postFailed := False\<rparr>"
| "poll_step p (Unhealthy now) = p\<lparr>PS_lastFailure := now, PS_postFailed := PS_postFailed p \<or> PS_succeeded p\<rparr>"

text \<open>\<open>watched E url s rs t\<close>: requests from \<open>s\<close> to \<open>t\<close> went as \<open>rs\<close> says.\<close>

inductive watched :: "'s Env \<Rightarrow> string \<Rightarrow> 's \<Rightarrow> round list \<Rightarrow> 's \<Rightarrow> bool" for E url where
  over: "watched E url s [] s"
| errored: "run_state (E_Get E url) s = (Inl err, s1) \<Longrightarrow> watched E url s1 rs t \<Longrightarrow> watched E url s (Errored # rs) t"
| healthy: "run_state (E_Get E url) s = (Inr 200, s1) \<Longrightarrow> run_state (E_Sleep E 1) s1 = (x, s2) \<Longrightarrow>
    watched E url s2 rs t \<Longrightarrow> watched E url s (Healthy # rs) t"
| unhealthy: "run_state (E_Get E url) s = (Inr code, s1) \<Longrightarrow> code \<noteq> 200 \<Longrightarrow> run_state (E_Unix E) s1 = (now, s2) \<Longrightarrow>
    run_state (E_Sleep E 1) s2 = (x, s3) \<Longrightarrow> watched E url s3 rs t \<Longrightarrow> watched E url s (Unhealthy now # rs) t"

lemma poll_loop_watched:
  "\<exists>rs t. run_state (poll_loop E url n p) s = (foldl poll_step p rs, t) \<and> watched E url s rs t \<and> length rs = n"
proof (induction n arbitrary: p s)
  case 0
  then show ?case by (auto intro: watched.over)
next
  case (Suc n)
  obtain resp s1 where g: "run_state (E_Get E url) s = (resp, s1)" by fastforce
  show ?case
  proof (cases resp)
    case (Inl err)
    from Suc [of p s1] obtain rs t where "run_state (poll_loop E url n p) s1 = (foldl poll_step p rs, t)"
      "watched E url s1 rs t" "length rs = n" by blast
    with g Inl show ?thesis by (intro exI [of _ "Errored # rs"] exI [of _ t]) (auto intro: watched.errored)
  next
    case (Inr code)
    show ?thesis
    proof (cases "code = 200")
      case True
      obtain x s2 where z: "run_state (E_Sleep E 1) s1 = (x, s2)" by (rule prod.exhaust)
      from Suc [of "poll_step p Healthy" s2] obtain rs t where
        "run_state (poll_loop E url n (poll_step p Healthy)) s2 = (foldl poll_step (poll_step p Healthy) rs, t)"
        "watched E url s2 rs t" "length rs = n" by blast
      with g Inr True z show ?thesis by (intro exI [of _ "Healthy # rs"] exI [of _ t]) (auto intro: watched.healthy)
    next
      case False
      obtain now s2 where u: "run_state (E_Unix E) s1 = (now, s2)" by fastforce
      obtain x s3 where z: "run_state (E_Sleep E 1) s2 = (x, s3)" by (rule prod.exhaust)
      from Suc [of "poll_step p (Unhealthy now)" s3] obtain rs t where
        "run_state (poll_loop E url n (poll_step p (Unhealthy now))) s3 = (foldl poll_step (poll_step p (Unhealthy now)) rs, t)"
        "watched E url s3 rs t" "length rs = n" by blast
      with g Inr False u z show ?thesis
        by (intro exI [of _ "Unhealthy now # rs"] exI [of _ t]) (auto intro: watched.unhealthy)
    qed
  qed
qed

text \<open>What the rounds amount to: the first success, a failure after the last one, the last failure's time.\<close>

fun is_unhealthy :: "round \<Rightarrow> bool" where
  "is_unhealthy (Unhealthy _) = True"
| "is_unhealthy _ = False"

definition last_failure :: "go_int \<Rightarrow> round list \<Rightarrow> go_int" where
  "last_failure t0 rs = foldl (\<lambda>t x. case x of Unhealthy now \<Rightarrow> now | _ \<Rightarrow> t) t0 rs"

definition after_last_success :: "round list \<Rightarrow> round list" where
  "after_last_success rs = rev (takeWhile (\<lambda>x. x \<noteq> Healthy) (rev rs))"

lemma foldl_poll_step:
  "foldl poll_step \<lparr>PS_lastFailure = t0, PS_succeeded = False, PS_postFailed = False\<rparr> rs =
     \<lparr>PS_lastFailure = last_failure t0 rs, PS_succeeded = Healthy \<in> set rs,
      PS_postFailed = (Healthy \<in> set rs \<and> list_ex is_unhealthy (after_last_success rs))\<rparr>"
proof (induction rs rule: rev_induct)
  case Nil
  then show ?case by (simp add: last_failure_def)
next
  case (snoc x rs)
  then show ?case by (cases x) (auto simp: last_failure_def after_last_success_def)
qed

text \<open>What the calls add up to, in whatever order they come.\<close>

fun added_results :: "mapper_call list \<Rightarrow> go_float list" where
  "added_results [] = []"
| "added_results (Call_addResult x # ops) = x # added_results ops"
| "added_results (_ # ops) = added_results ops"

lemma perform_totals:
  "GetFailures (foldl perform r ops) = GetFailures r + word_of_nat (count (mset ops) Call_addFailure)"
  "GetPostFailures (foldl perform r ops) = GetPostFailures r + word_of_nat (count (mset ops) Call_addPostFailure)"
  "RouteMapper_GetResults (foldl perform r ops) = RouteMapper_GetResults r @ added_results ops"
  by (induction ops arbitrary: r rule: added_results.induct)
    (simp_all add: GetFailures_def GetPostFailures_def RouteMapper_GetResults_def addFailure_def addPostFailure_def
      RouteMapper_addResult_def)

lemma mset_added_results: "mset (added_results ops) = image_mset (\<lambda>c. case c of Call_addResult x \<Rightarrow> x)
    (filter_mset (\<lambda>c. case c of Call_addResult x \<Rightarrow> True | _ \<Rightarrow> False) (mset ops))"
  by (induction ops rule: added_results.induct) simp_all

lemma append_in_shuffles: "xs @ ys \<in> shuffles xs ys"
  by (induction xs) (auto intro: Cons_in_shuffles_leftI)

lemma shuffled_totals:
  assumes "ops \<in> shuffles mine others"
  shows "GetFailures (foldl perform r ops) = GetFailures (foldl perform r others) + word_of_nat (count (mset mine) Call_addFailure)"
    and "GetPostFailures (foldl perform r ops) =
      GetPostFailures (foldl perform r others) + word_of_nat (count (mset mine) Call_addPostFailure)"
    and "mset (RouteMapper_GetResults (foldl perform r ops)) =
      mset (RouteMapper_GetResults (foldl perform r others)) + mset (added_results mine)"
  using mset_shuffles [OF assms] by (simp_all add: perform_totals mset_added_results)

text \<open>An environment with scripted answers; every cf command succeeds.\<close>

record ScriptedEnv =
  SE_clock :: go_int
  SE_script :: "(string + int) list"

definition scripted_env :: "ScriptedEnv Env" where
  "scripted_env = \<lparr>
     E_Cf = (\<lambda>args. go_return 0),
     E_Unix = State (\<lambda>s. (SE_clock s, s)),
     E_Get = (\<lambda>url. State (\<lambda>s.
       case SE_script s of
         [] \<Rightarrow> (Inr 200, s)
       | a # rest \<Rightarrow> (a, s\<lparr>SE_script := rest\<rparr>))),
     E_Sleep = (\<lambda>n. State (\<lambda>s. ((), s\<lparr>SE_clock := SE_clock s + word_of_nat n\<rparr>)))\<rparr>"

section \<open>Properties\<close>

text \<open>
  C40. The verdict on a mapped route: once both cf commands succeeded, the route is watched for
  exactly 60 requests and counts as a failure when none of them was answered with 200; otherwise the
  time from the start to the last answer other than 200 is recorded, and a failure after success is
  counted exactly when such an answer follows the last 200. Requests that fail with an error
  influence neither. However the calls \<open>others\<close> of the other goroutines interleave with these, the
  shared mapper reports their totals and this verdict.
\<close>

theorem map_route_verdict:
  assumes "run_state (cfWithRetry E [''delete-route'', domain, ''--hostname'', routeToDelete, ''-f'']) s = (Inr (), s1)"
    and "run_state (cfWithRetry E [''map-route'', appName, domain, ''--hostname'', routeToMap]) s1 = (Inr (), s2)"
    and "run_state (do { a \<leftarrow> E_Unix E; b \<leftarrow> E_Unix E; State_Monad.return (a, b) }) s2 = ((startTime, t0), s3)"
  shows "\<exists>rs t mine. watched E (''https://'' @ routeToMap @ ''.'' @ domain @ ''/'') s3 rs t \<and> length rs = 60 \<and>
    run_state (MapRoute E appName domain routeToDelete routeToMap) s = (Inr mine, t) \<and>
    (\<forall>others. \<forall>ops \<in> shuffles mine others.
       GetFailures (foldl perform r ops) = GetFailures (foldl perform r others) + (if Healthy \<in> set rs then 0 else 1) \<and>
       GetPostFailures (foldl perform r ops) = GetPostFailures (foldl perform r others) +
         (if Healthy \<in> set rs \<and> list_ex is_unhealthy (after_last_success rs) then 1 else 0) \<and>
       mset (RouteMapper_GetResults (foldl perform r ops)) = mset (RouteMapper_GetResults (foldl perform r others)) +
         (if Healthy \<in> set rs then {#float_of_int (last_failure t0 rs - startTime)#} else {#}))"
proof -
  let ?url = "''https://'' @ routeToMap @ ''.'' @ domain @ ''/''"
  obtain a s' where a: "run_state (E_Unix E) s2 = (a, s')" by fastforce
  obtain b s'' where b: "run_state (E_Unix E) s' = (b, s'')" by fastforce
  from assms(3) a b have eq: "a = startTime" "b = t0" "s'' = s3" by simp_all
  obtain rs t where rs: "run_state (poll_loop E ?url 60 \<lparr>PS_lastFailure = t0, PS_succeeded = False, PS_postFailed = False\<rparr>) s3 =
      (foldl poll_step \<lparr>PS_lastFailure = t0, PS_succeeded = False, PS_postFailed = False\<rparr> rs, t)"
    "watched E ?url s3 rs t" "length rs = 60"
    using poll_loop_watched [of E ?url 60] by blast
  let ?mine = "if Healthy \<in> set rs then (if list_ex is_unhealthy (after_last_success rs) then [Call_addPostFailure] else []) @
      [Call_addResult (float_of_int (last_failure t0 rs - startTime))] else [Call_addFailure]"
  have "run_state (MapRoute E appName domain routeToDelete routeToMap) s = (Inr ?mine, t)"
    using rs(1) assms(1,2) a b eq unfolding foldl_poll_step by (simp add: MapRoute_def)
  moreover have "GetFailures (foldl perform r ops) = GetFailures (foldl perform r others) + (if Healthy \<in> set rs then 0 else 1) \<and>
      GetPostFailures (foldl perform r ops) = GetPostFailures (foldl perform r others) +
        (if Healthy \<in> set rs \<and> list_ex is_unhealthy (after_last_success rs) then 1 else 0) \<and>
      mset (RouteMapper_GetResults (foldl perform r ops)) = mset (RouteMapper_GetResults (foldl perform r others)) +
        (if Healthy \<in> set rs then {#float_of_int (last_failure t0 rs - startTime)#} else {#})"
    if "ops \<in> shuffles ?mine others" for ops others
    unfolding shuffled_totals [OF that] by simp
  ultimately show ?thesis using rs(2,3) by blast
qed

theorem map_route_verdict_witness:
  "\<exists>rs t mine. watched scripted_env ''https://bin-new-0.apps.example.com/'' \<lparr>SE_clock = 7, SE_script = [Inr 404, Inl ''timeout'', Inr 200]\<rparr> rs t \<and>
     length rs = 60 \<and>
     run_state (MapRoute scripted_env ''bin-0'' ''apps.example.com'' ''bin-0'' ''bin-new-0'')
       \<lparr>SE_clock = 7, SE_script = [Inr 404, Inl ''timeout'', Inr 200]\<rparr> = (Inr mine, t) \<and>
     GetFailures (foldl perform \<lparr>RM_results = [], RM_failures = 0, RM_postFailures = 0\<rparr> (mine @ [Call_addFailure])) =
       1 + (if Healthy \<in> set rs then 0 else 1)"
proof -
  let ?s = "\<lparr>SE_clock = 7, SE_script = [Inr 404, Inl ''timeout'', Inr 200]\<rparr>"
  have cf: "run_state (cfWithRetry scripted_env args) ?s = (Inr (), ?s)" for args
    by (simp add: cfWithRetry_def numeral_3_eq_3 scripted_env_def)
  have now: "run_state (do { a \<leftarrow> E_Unix scripted_env; b \<leftarrow> E_Unix scripted_env; State_Monad.return (a, b) }) ?s = ((7, 7), ?s)"
    by (simp add: scripted_env_def)
  let ?r = "\<lparr>RM_results = [], RM_failures = 0, RM_postFailures = 0\<rparr>"
  have "''https://'' @ ''bin-new-0'' @ ''.'' @ ''apps.example.com'' @ ''/'' = ''https://bin-new-0.apps.example.com/''" by simp
  from map_route_verdict [OF cf cf now, where r = ?r and domain = "''apps.example.com''" and routeToMap = "''bin-new-0''" and
    appName = "''bin-0''" and routeToDelete = "''bin-0''", unfolded this]
  obtain rs t mine where w: "watched scripted_env ''https://bin-new-0.apps.example.com/'' ?s rs t" "length rs = 60"
    "run_state (MapRoute scripted_env ''bin-0'' ''apps.example.com'' ''bin-0'' ''bin-new-0'') ?s = (Inr mine, t)"
    and totals: "\<forall>others. \<forall>ops \<in> shuffles mine others. GetFailures (foldl perform ?r ops) =
       GetFailures (foldl perform ?r others) + (if Healthy \<in> set rs then 0 else 1)" by (elim exE conjE) blast
  from totals [rule_format, OF append_in_shuffles, of "[Call_addFailure]"]
  have "GetFailures (foldl perform ?r (mine @ [Call_addFailure])) = 1 + (if Healthy \<in> set rs then 0 else 1)"
    by (simp add: GetFailures_def addFailure_def)
  with w(1-3) show ?thesis by blast
qed

end
