(* ===== verification/ScaleTest.thy ===== *)
theory ScaleTest
  imports ScaleCollector
begin

text \<open>
  \<^verbatim>\<open>forEachAppInSpace\<close> of \<^verbatim>\<open>test/scale/scale_test.go\<close>: the walk over the apps of all spaces, from which the
  scale test starts a goroutine of the route mapper per app and waits before the next.
\<close>

section \<open>Numbers\<close>

text \<open>
  \<^verbatim>\<open>int(math.Ceil(x))\<close> and \<^verbatim>\<open>math.Min(x, y)\<close>.
\<close>

fun int_Ceil :: "go_float \<Rightarrow> go_int option" where
  "int_Ceil (Finite p q) = int_of_float (- (- p div q))"
| "int_Ceil _ = None"

definition math_Min :: "go_float \<Rightarrow> go_float \<Rightarrow> go_float" where
  "math_Min x y = (if x = NaN \<or> y = NaN then NaN else if float_less y x then y else x)"

text \<open>\<^verbatim>\<open>%d\<close> of a number that is not negative.\<close>

fun decimal :: "nat \<Rightarrow> string" where
  "decimal n = (if n < 10 then [char_of (48 + n)] else decimal (n div 10) @ [char_of (48 + n mod 10)])"

section \<open>forEachAppInSpace\<close>

definition eventually_Exit_0 :: "('s, int) go_action \<Rightarrow> ('s, unit) go_action" where
  "eventually_Exit_0 session =
     if_ok session (\<lambda>exitCode. if exitCode = 0 then go_return () else go_fail (Panic ''Expected process to exit''))"

text \<open>The loops count up from 0, so they run over \<open>[0..<m]\<close>.\<close>

definition forEachAppInSpace ::
    "'s Env \<Rightarrow> string \<Rightarrow> string \<Rightarrow> go_int \<Rightarrow> go_int \<Rightarrow> (go_int \<Rightarrow> ('s, unit) go_action) \<Rightarrow> ('s, unit) go_action option" where
  "forEachAppInSpace E orgNamePrefix spaceNamePrefix apps appsPerSpace f =
     (case (int_Ceil (float_div (float_of_int apps) (float_of_int appsPerSpace)),
            int_Trunc (math_Min (float_of_int appsPerSpace) (float_of_int apps))) of
        (Some numOrgsSpaces, Some appsInSpace) \<Rightarrow> Some (
          foreach_go (\<lambda>n.
            if_ok (eventually_Exit_0 (E_Cf E [''target'', ''-o'', orgNamePrefix @ ''-'' @ decimal n,
                                             ''-s'', spaceNamePrefix @ ''-'' @ decimal n])) (\<lambda>_.
            if_ok (foreach_go (\<lambda>i. f (word_of_nat n * appsPerSpace + word_of_nat i)) [0..<nat (sint appsInSpace)]) (\<lambda>_.
            do { _ \<leftarrow> E_Sleep E 30; go_return () })))
            [0..<nat (sint numOrgsSpaces)])
      | _ \<Rightarrow> None)"

section \<open>Lemmas\<close>

text \<open>A foundation on which every command succeeds, and a visitor that notes the apps.\<close>

definition paved :: "go_int list Env" where
  "paved = \<lparr>
     E_Cf = (\<lambda>args. go_return 0),
     E_Unix = State_Monad.return 0,
     E_Get = (\<lambda>url. State_Monad.return (Inr 200)),
     E_Sleep = (\<lambda>n. State_Monad.return ())\<rparr>"

definition note_app :: "go_int \<Rightarrow> (go_int list, unit) go_action" where
  "note_app i = State (\<lambda>s. (Inr (), s @ [i]))"

definition visited :: "go_int \<Rightarrow> go_int \<Rightarrow> go_int list option" where
  "visited apps appsPerSpace =
     map_option (\<lambda>m. snd (run_state m [])) (forEachAppInSpace paved ''scale-tests'' ''scale-tests'' apps appsPerSpace note_app)"

lemma note_apps: "run_state (foreach_go (\<lambda>i. note_app (g i)) is) s = (Inr (), s @ map g is)"
  by (induction "is" arbitrary: s) (simp_all add: note_app_def)

lemma visit_spaces: "run_state (foreach_go (\<lambda>n.
      if_ok (eventually_Exit_0 (E_Cf paved (args n))) (\<lambda>_.
      if_ok (foreach_go (\<lambda>i. note_app (g n i)) is) (\<lambda>_. do { _ \<leftarrow> E_Sleep paved 30; go_return () }))) ns) s =
    (Inr (), s @ concat (map (\<lambda>n. map (g n) is) ns))"
  by (induction ns arbitrary: s) (simp_all add: paved_def eventually_Exit_0_def note_apps)

lemma visited_eq:
  assumes "int_Ceil (float_div (float_of_int apps) (float_of_int appsPerSpace)) = Some spaces"
    and "int_Trunc (math_Min (float_of_int appsPerSpace) (float_of_int apps)) = Some perSpace"
  shows "visited apps appsPerSpace = Some (concat (map (\<lambda>n. map (\<lambda>i. word_of_nat n * appsPerSpace + word_of_nat i)
    [0..<nat (sint perSpace)]) [0..<nat (sint spaces)]))"
  unfolding visited_def forEachAppInSpace_def assms prod.case option.case option.map visit_spaces by simp

text \<open>
  When the apps fill their spaces, every app is visited exactly once, in order. A last space that is
  only partly filled is visited as if it were full.
\<close>

lemma exact_quotient:
  assumes "0 < k" and "0 < m" and "k * m < 2 ^ 53" and "sint x = k * m" and "sint y = m"
  shows "int_Ceil (float_div (float_of_int x) (float_of_int y)) = Some (word_of_int k)"
proof -
  have "m \<le> k * m" "k \<le> k * m" using assms(1,2) by simp_all
  then have le: "m < 2 ^ 53" "k < 2 ^ 53" using assms(3) by linarith+
  obtain a b where a: "float_of_int x = Finite a b" "0 < b" "a = k * m * b"
    by (rule float_of_int_exact [of x, unfolded assms(4)]) (use assms(1-3) in simp_all)
  obtain c d where c: "float_of_int y = Finite c d" "0 < d" "c = m * d"
    by (rule float_of_int_exact [of y, unfolded assms(5)]) (use assms(2) le in simp_all)
  have pos: "0 < c" "0 < a * d" "0 < b * c" using a c assms(1,2) by simp_all
  have "ratio (a * d, b * c) = real_of_int k" using a(2,3) c(2,3) assms(2) by (simp add: divide_eq_eq)
  from float64_exact [OF pos(3) this assms(1) le(2)] obtain p q where pq: "float64 (a * d, b * c) = (p, q)" "0 < q"
    "ratio (p, q) = real_of_int k" by (metis prod.collapse)
  then have "real_of_int p = real_of_int (k * q)" by (simp add: divide_eq_eq)
  then have "p = k * q" by (simp only: of_int_eq_iff)
  moreover have "float_div (float_of_int x) (float_of_int y) = Finite p q"
    using pos a(1) c(1) round64_pos [OF pos(2), of "b * c"] pq(1) by simp
  moreover have "- (- (k * q) div q) = k" using pq(2) nonzero_mult_div_cancel_right [of q "- k"] by simp
  ultimately show ?thesis using assms(1) le(2) by (simp add: int_of_float_def)
qed

lemma min_of_counts:
  assumes "0 \<le> sint x" and "sint x \<le> sint y" and "sint y < 2 ^ 53"
  shows "int_Trunc (math_Min (float_of_int x) (float_of_int y)) = Some x"
proof -
  obtain a b where a: "float_of_int x = Finite a b" "0 < b" "a = sint x * b"
    by (rule float_of_int_exact [of x]) (use assms in simp_all)
  obtain c d where c: "float_of_int y = Finite c d" "0 < d" "c = sint y * d"
    by (rule float_of_int_exact [of y]) (use assms in simp_all)
  have "a * d \<le> c * b" using a(2,3) c(2,3) assms(2) by (simp add: mult_right_mono)
  then have "math_Min (float_of_int x) (float_of_int y) = Finite a b" by (simp add: math_Min_def a(1) c(1))
  with a(2,3) assms show ?thesis by (simp add: int_of_float_def)
qed

lemma concat_blocks: "concat (map (\<lambda>n. map (\<lambda>i. n * m + i) [0..<m]) [0..<k]) = [0..<k * m]"
proof (induction k)
  case 0
  then show ?case by simp
next
  case (Suc k)
  have "map (\<lambda>i. k * m + i) [0..<m] = [k * m..<k * m + m]"
    using map_add_upt [of "k * m" m] by (simp only: add.commute)
  with Suc upt_add_eq_append [of 0 "k * m" m] show ?case by (simp add: add.commute)
qed

lemma full_spaces_visited:
  assumes "0 < k" and "0 < m" and "k * m < 2 ^ 53"
  shows "visited (word_of_nat (k * m)) (word_of_nat m) = Some (map word_of_nat [0..<k * m])"
proof -
  have "m \<le> k * m" "k \<le> k * m" using assms(1,2) by simp_all
  then have le: "m < 2 ^ 53" "k < 2 ^ 53" using assms(3) by linarith+
  have S: "sint (word_of_nat n :: go_int) = int n" if "n < 2 ^ 53" for n
    using that by (intro sint_word_of_nat_small) simp
  have small: "int k * int m < 2 ^ 53" using assms(3) by (metis of_nat_less_numeral_power_cancel_iff of_nat_mult)
  have prod: "sint (word_of_nat (k * m) :: go_int) = int k * int m" unfolding S [OF assms(3)] by (rule of_nat_mult)
  have ceil: "int_Ceil (float_div (float_of_int (word_of_nat (k * m))) (float_of_int (word_of_nat m))) = Some (word_of_nat k)"
    using exact_quotient [OF _ _ small prod S [OF le(1)]] assms(1,2) by simp
  have trunc: "int_Trunc (math_Min (float_of_int (word_of_nat m)) (float_of_int (word_of_nat (k * m)))) = Some (word_of_nat m)"
    by (rule min_of_counts; unfold prod S [OF le(1)])
      (use small \<open>m \<le> k * m\<close> in \<open>simp_all flip: of_nat_mult del: of_nat_mult\<close>)
  have "visited (word_of_nat (k * m)) (word_of_nat m) =
      Some (concat (map (\<lambda>n. map (\<lambda>i. word_of_nat n * word_of_nat m + word_of_nat i) [0..<m]) [0..<k]))"
    unfolding visited_eq [OF ceil trunc] S [OF le(1)] S [OF le(2)] nat_int ..
  also have "\<dots> = Some (map word_of_nat (concat (map (\<lambda>n. map (\<lambda>i. n * m + i) [0..<m]) [0..<k])))"
    by (simp add: map_concat comp_def)
  finally show ?thesis unfolding concat_blocks .
qed

lemma last_space_overrun: "visited 15 10 = Some (map word_of_nat [0..<20])"
  by code_simp

end
