(* ===== verification/ControlPlaneTest.thy ===== *)
theory ControlPlaneTest
  imports UptimeRun ScaleTest
begin

text \<open>
  \<^verbatim>\<open>test/uptime/control_plane_uptime_test.go\<close>: the loop that starts a request for a new route every five
  seconds until the upgrade is over, next to the goroutines of these requests (\<open>UptimeRun\<close>) and the
  polls of the upgrade checker (\<open>UptimeCollector\<close>). Each read of the checker and of the clock is a step
  of its own, so the others may act between any two of them. The calls of the cf CLI, which the test
  starts but does not wait for, are left out.
\<close>

section \<open>The test\<close>

text \<open>The variables of the suite that the test reads.\<close>

record UptimeSuite =
  US_upgradeDiscoveryTimeout :: go_int
  US_controlPlaneSLOPercentage :: go_float
  US_controlPlaneSLORoutePropagationTime :: go_int
  US_controlPlaneSLOSampleCaptureTime :: go_int
  US_controlPlaneSLODataPlaneAvailabilityPercentage :: go_float
  US_controlPlaneSLODataPlaneMaxRequestLatency :: go_int
  US_cfAppDomain :: string

datatype verdict = Pass | BelowPercentage | UpgradeNotFound | TestPanics go_fault



definition new_collector :: "UptimeSuite \<Rightarrow> RequestCollector" where
  "new_collector suite = \<lparr>
     RqC_DataPlaneSLOMaxRequestLatency = US_controlPlaneSLODataPlaneMaxRequestLatency suite,
     RqC_ControlPlaneSLODataPlaneAvailabilityPercentage = US_controlPlaneSLODataPlaneAvailabilityPercentage suite,
     RqC_results = None\<rparr>"




text \<open>gomega's \<^verbatim>\<open>BeNumerically(">=", y)\<close> on floats.\<close>

fun float_at_least :: "go_float \<Rightarrow> go_float \<Rightarrow> bool" where
  "float_at_least (Finite p q) (Finite p' q') \<longleftrightarrow> p' * q \<le> p * q'"
| "float_at_least (Infinite neg) (Finite p q) \<longleftrightarrow> \<not> neg"
| "float_at_least (Finite p q) (Infinite neg) \<longleftrightarrow> neg"
| "float_at_least (Infinite neg) (Infinite neg') \<longleftrightarrow> \<not> neg \<or> neg'"
| "float_at_least _ _ \<longleftrightarrow> False"







section \<open>What every step keeps\<close>


text \<open>
  The verdict of a test whose goroutines have all returned: the collector holds a sample per request, and the
  share of those that met their service level decides.
\<close>

definition judged :: "UptimeSuite \<Rightarrow> Run \<Rightarrow> verdict \<Rightarrow> bool" where
  "judged suite run verdict \<longleftrightarrow> Wait_over run \<and>
     (case GetResults (Run_collector run) of
        None \<Rightarrow> Run_goroutines run = [] \<and> verdict = TestPanics nil_dereference
      | Some c \<Rightarrow> Run_goroutines run \<noteq> [] \<and> length (CPR_collectorResults c) = length (Run_goroutines run) \<and>
          (\<forall>u \<in> set (CPR_collectorResults c). measured (new_collector suite) u) \<and>
          verdict = (if float_at_least
              (percentage (passing (US_controlPlaneSLODataPlaneAvailabilityPercentage suite) (CPR_collectorResults c))
                (length (Run_goroutines run)))
              (US_controlPlaneSLOPercentage suite) then Pass else BelowPercentage))"


lemma judged_clock [simp]: "judged suite (run\<lparr>Run_clock := t\<rparr>) verdict = judged suite run verdict"
  by (simp add: judged_def Wait_over_def cong: option.case_cong)











section \<open>After the upgrade\<close>





lemma run_steps_left_collector [simp]: "run_steps_left \<delta> (run\<lparr>Run_collector := r\<rparr>) = run_steps_left \<delta> run"
  by (simp add: run_steps_left_def)












section \<open>A sample test\<close>








section \<open>Properties\<close>



end
