(* ===== verification/AcceptanceConfig.thy ===== *)
theory AcceptanceConfig
  imports Float64
begin

text \<open>
  \<^verbatim>\<open>test/acceptance/cfg/cfg.go\<close>: the configuration of the acceptance tests, with the getters that the cf
  test helpers ask for. Reading the file, decoding its JSON and the text of an error are parameters.
\<close>

section \<open>Config\<close>

record AcceptanceConfig =
  AC_KubeConfigPath :: string
  AC_KeepClusterChanges :: bool
  AC_KeepCFChanges :: bool
  AC_API :: string
  AC_AdminUser :: string
  AC_AdminPassword :: string
  AC_AppsDomain :: string
  AC_ExistingUser :: string
  AC_ExistingUserPassword :: string
  AC_ShouldKeepUser :: bool
  AC_UseExistingUser :: bool
  AC_UseExistingOrganization :: bool
  AC_ExistingOrganization :: string

definition zero_AcceptanceConfig :: AcceptanceConfig where
  "zero_AcceptanceConfig = \<lparr>AC_KubeConfigPath = [], AC_KeepClusterChanges = False, AC_KeepCFChanges = False,
     AC_API = [], AC_AdminUser = [], AC_AdminPassword = [], AC_AppsDomain = [], AC_ExistingUser = [],
     AC_ExistingUserPassword = [], AC_ShouldKeepUser = False, AC_UseExistingUser = False,
     AC_UseExistingOrganization = False, AC_ExistingOrganization = []\<rparr>"

text \<open>Organisation, space, user and timeouts; two of the getters panic.\<close>

definition GetUseExistingOrganization :: "AcceptanceConfig \<Rightarrow> bool" where
  "GetUseExistingOrganization c = AC_UseExistingOrganization c"

definition GetExistingOrganization :: "AcceptanceConfig \<Rightarrow> string" where
  "GetExistingOrganization c = AC_ExistingOrganization c"

definition GetUseExistingSpace :: "AcceptanceConfig \<Rightarrow> bool" where
  "GetUseExistingSpace c = False"

definition GetExistingSpace :: "AcceptanceConfig \<Rightarrow> string go_result" where
  "GetExistingSpace c = Inl (Panic ''implement me'')"

definition GetUseExistingUser :: "AcceptanceConfig \<Rightarrow> bool" where
  "GetUseExistingUser c = AC_UseExistingUser c"

definition GetExistingUser :: "AcceptanceConfig \<Rightarrow> string" where
  "GetExistingUser c = AC_ExistingUser c"

definition GetExistingUserPassword :: "AcceptanceConfig \<Rightarrow> string" where
  "GetExistingUserPassword c = AC_ExistingUserPassword c"

definition GetShouldKeepUser :: "AcceptanceConfig \<Rightarrow> bool" where
  "GetShouldKeepUser c = AC_ShouldKeepUser c"

definition GetAdminUser :: "AcceptanceConfig \<Rightarrow> string" where
  "GetAdminUser c = AC_AdminUser c"

definition GetAdminPassword :: "AcceptanceConfig \<Rightarrow> string" where
  "GetAdminPassword c = AC_AdminPassword c"

definition GetConfigurableTestPassword :: "AcceptanceConfig \<Rightarrow> string" where
  "GetConfigurableTestPassword c = []"

definition GetAdminClient :: "AcceptanceConfig \<Rightarrow> string" where
  "GetAdminClient c = []"

definition GetAdminClientSecret :: "AcceptanceConfig \<Rightarrow> string" where
  "GetAdminClientSecret c = []"

definition GetExistingClient :: "AcceptanceConfig \<Rightarrow> string" where
  "GetExistingClient c = []"

definition GetExistingClientSecret :: "AcceptanceConfig \<Rightarrow> string go_result" where
  "GetExistingClientSecret c = Inl (Panic ''implement me'')"

definition GetApiEndpoint :: "AcceptanceConfig \<Rightarrow> string" where
  "GetApiEndpoint c = AC_API c"

definition GetSkipSSLValidation :: "AcceptanceConfig \<Rightarrow> bool" where
  "GetSkipSSLValidation c = True"

definition GetNamePrefix :: "AcceptanceConfig \<Rightarrow> string" where
  "GetNamePrefix c = ''ACCEPTANCE''"

definition second :: go_int where
  "second = 1000000000"

definition GetScaledTimeout :: "AcceptanceConfig \<Rightarrow> go_int \<Rightarrow> go_int option" where
  "GetScaledTimeout c timeout = int_Trunc (float_times (float_of_int timeout) (Finite 2 1))"

definition CfPushTimeoutDuration :: "AcceptanceConfig \<Rightarrow> go_int" where
  "CfPushTimeoutDuration c = 240 * second"

definition CfPushDockerTimeoutDuration :: "AcceptanceConfig \<Rightarrow> go_int" where
  "CfPushDockerTimeoutDuration c = 120 * second"

definition DefaultTimeoutDuration :: "AcceptanceConfig \<Rightarrow> go_int" where
  "DefaultTimeoutDuration c = 60 * second"

definition NewConfig ::
    "(string \<Rightarrow> 'e + string) \<Rightarrow> (string \<Rightarrow> AcceptanceConfig \<Rightarrow> 'e + AcceptanceConfig) \<Rightarrow> ('e \<Rightarrow> string) \<Rightarrow>
     string \<Rightarrow> string \<Rightarrow> bool \<Rightarrow> bool \<Rightarrow> AcceptanceConfig go_result" where
  "NewConfig ReadFile Unmarshal show_err configPath kubeConfigPath keepClusterChanges keepCFChanges =
     (case ReadFile configPath of
        Inl err \<Rightarrow> Inl (Err (ErrorString (''error reading config '' @ show_err err)))
      | Inr configFile \<Rightarrow>
          (case Unmarshal configFile zero_AcceptanceConfig of
             Inl err \<Rightarrow> Inl (Err (ErrorString (''error parsing json '' @ show_err err)))
           | Inr config \<Rightarrow> Inr (config\<lparr>AC_KubeConfigPath := kubeConfigPath, AC_KeepClusterChanges := keepClusterChanges,
                                       AC_KeepCFChanges := keepCFChanges\<rparr>)))"

section \<open>Lemmas\<close>

text \<open>
  The file decides everything but the three arguments, which win over it; nothing panics.
\<close>

lemma NewConfig_ok:
  assumes "NewConfig ReadFile Unmarshal show_err path kube cluster cf = Inr c"
  obtains content decoded where "ReadFile path = Inr content" and "Unmarshal content zero_AcceptanceConfig = Inr decoded"
    and "AC_KubeConfigPath c = kube" and "AC_KeepClusterChanges c = cluster" and "AC_KeepCFChanges c = cf"
    and "c = decoded\<lparr>AC_KubeConfigPath := kube, AC_KeepClusterChanges := cluster, AC_KeepCFChanges := cf\<rparr>"
  using assms by (auto simp: NewConfig_def split: sum.splits)

lemma NewConfig_fails_iff:
  "is_ok (NewConfig ReadFile Unmarshal show_err path kube cluster cf) \<longleftrightarrow>
     (\<exists>content c. ReadFile path = Inr content \<and> Unmarshal content zero_AcceptanceConfig = Inr c)"
  "\<not> is_panic (NewConfig ReadFile Unmarshal show_err path kube cluster cf)"
  by (auto simp: NewConfig_def is_panic_def split: sum.splits)

text \<open>
  A timeout of up to \<open>2 ^ 52\<close> nanoseconds, which is 52 days, is doubled exactly, so each of the default
  timeouts is; the doubled value of half the greatest duration is beyond what Go converts.
\<close>

lemma scaled_timeout_doubles:
  assumes "0 \<le> sint t" and "sint t < 2 ^ 52"
  shows "GetScaledTimeout c t = Some (2 * t)"
proof (cases "sint t = 0")
  case True
  then have "t = 0" by (simp add: signed_eq_0_iff)
  then show ?thesis by (simp add: GetScaledTimeout_def float_of_int_def round64_def int_of_float_def)
next
  case False
  obtain a b where a: "float_of_int t = Finite a b" "0 < b" "a = sint t * b"
    by (rule float_of_int_exact [of t]) (use assms in simp_all)
  have pos: "0 < a * 2" using a(2,3) assms(1) False by simp
  have "ratio (a * 2, b) = real_of_int (2 * sint t)" using a(2,3) by simp
  moreover have "0 < 2 * sint t" "2 * sint t < 2 ^ 53" using assms False by simp_all
  ultimately have "ratio (float64 (a * 2, b)) = real_of_int (2 * sint t)" "0 < snd (float64 (a * 2, b))"
    by (rule float64_exact [OF a(2)])+
  then obtain p q where pq: "float64 (a * 2, b) = (p, q)" "0 < q" "ratio (p, q) = real_of_int (2 * sint t)"
    by (metis prod.collapse)
  then have "real_of_int p = real_of_int (2 * sint t * q)" by (simp add: divide_eq_eq)
  then have p: "p = 2 * sint t * q" by (simp only: of_int_eq_iff)
  have "word_of_int (2 * sint t) = 2 * t" by simp
  with p pq(2) assms round64_pos [OF pos, of b] pq(1) a(1) show ?thesis
    by (simp add: GetScaledTimeout_def int_of_float_def)
qed

lemma default_timeouts_scaled:
  "GetScaledTimeout c (CfPushTimeoutDuration c) = Some (480 * second)"
  "GetScaledTimeout c (DefaultTimeoutDuration c) = Some (120 * second)"
  by (simp_all add: scaled_timeout_doubles CfPushTimeoutDuration_def DefaultTimeoutDuration_def second_def)

lemma scaled_timeout_out_of_range: "GetScaledTimeout c (2 ^ 62) = None"
  unfolding GetScaledTimeout_def by code_simp

end
