(* ===== verification/Spec2Isabelle.thy ===== *)
theory Spec2Isabelle
  imports BuilderProperties ControllerProperties Config ClusterSteps Convergence DeepCopyProperties Startup SpecJson ExitMatcher
    ControlPlaneTest ScaleTest AcceptanceConfig
begin

text \<open>
  Verification of the Cloud Foundry route controller for Kubernetes, the Go program under
  \<^verbatim>\<open>src/routecontroller\<close>.

  \<^bold>\<open>The program.\<close> Cloud Foundry stores every route (a host, a domain, an optional path, and weighted
  destinations) as a \<^verbatim>\<open>Route\<close> resource. The controller watches these and keeps two kinds of child
  resources in step with them: a Kubernetes \<^verbatim>\<open>Service\<close> per destination and an Istio \<^verbatim>\<open>VirtualService\<close>
  per fully qualified domain name (FQDN), which Istio reads to route requests. A finalizer on the
  route holds its deletion back until the children are cleaned up. \<^verbatim>\<open>main.go\<close> reads flags and
  environment (\<^verbatim>\<open>cfg\<close>), creates a manager and registers the reconciler
  (\<^verbatim>\<open>controllers/networking\<close>), which for each request reads the route and all routes of its FQDN, lets the
  builders (\<^verbatim>\<open>resourcebuilders\<close>) compute the desired children and applies them through the API client.
  The resource types and their generated copy methods are in \<^verbatim>\<open>apis\<close>.

  \<^bold>\<open>The theories\<close>, in the order of their imports:

  \<^item> \<open>Prelude\<close>: Go's integers at their width, errors and panics as a sum, state transformers with the
    \<^verbatim>\<open>if err != nil { return err }\<close> combinator \<open>if_ok\<close>, loops, frames (\<open>keeps\<close>) and Hoare triples
    (\<open>triple\<close>) over them, and the contract of \<^verbatim>\<open>sort.Slice\<close> (locale \<open>go_sort\<close>).
  \<^item> \<open>RouteTypes\<close>, \<open>IstioTypes\<close>: the structs of \<^verbatim>\<open>route_types.go\<close> and \<^verbatim>\<open>virtualservice_types.go\<close> with
    \<open>FQDN\<close>; the standard library as the record \<open>Lib\<close> with its law \<open>ext_lib\<close>.
  \<^item> \<open>Sha256\<close>, \<open>ServiceBuilder\<close>, \<open>VirtualServiceBuilder\<close>: the builders, one definition per function and
    one per loop. The mutate functions of both builders share the interface \<open>managed_resource\<close>.
  \<^item> \<open>RouteMatching\<close>: Istio's first-match rule and why descending URL order makes it longest-prefix.
  \<^item> \<open>SampleData\<close>, \<open>BuilderProperties\<close>: concrete routes, and the properties of the builders.
  \<^item> \<open>KubeClient\<close>, \<open>RouteController\<close>: the client as a record of calls over an abstract state, and
    \<^verbatim>\<open>route_controller.go\<close> as state transformers.
  \<^item> \<open>KubeApi\<close>: what the API promises, as the locales \<open>child_api\<close> (create-or-update and delete of one
    kind of object), \<open>kube_api\<close> and, for progress, \<open>live_child_api\<close> and \<open>live_kube_api\<close>; calls may fail at any
    point, with or without having taken effect.
  \<^item> \<open>ReconcileCorrect\<close>, \<open>ReconcileLive\<close>: the specification of a reconcile (which Services a route owns,
    what is in place, the steady state) and the lemmas that \<open>Reconcile\<close> meets it, on success and on
    error, and that it succeeds on deployable routes.
  \<^item> \<open>SharedApi\<close>: the API while users act during a reconcile, as the locale \<open>shared_api\<close>, of which \<open>kube_api\<close>
    is an instance (a sublocale), and the lemmas that reconciles in such company orphan no Service.
  \<^item> \<open>InMemoryApi\<close>, \<open>SampleCluster\<close>: a client that keeps the cluster in memory, on which the locales of
    the undisturbed API are interpreted, and the clusters the witnesses run on.
  \<^item> \<open>BusyApi\<close>: that client with batches of user actions before every call, on which \<open>shared_api\<close> is
    interpreted.
  \<^item> \<open>ControllerProperties\<close>: the properties of single reconciles.
  \<^item> \<open>ClusterSteps\<close>: reconciles interleaved with users as a step relation, and its invariant.
  \<^item> \<open>Convergence\<close>: a reconcile as a step relation on the stored objects, and what rounds of reconciles
    of all routes reach.
  \<^item> \<open>Float64\<close>: rounding to binary64 and the operations on \<^verbatim>\<open>float64\<close> the program uses, with their error
    bounds.
  \<^item> \<open>Config\<close>: \<^verbatim>\<open>cfg.Load\<close> with Go 1.15's \<^verbatim>\<open>time.ParseDuration\<close>, its binary64 fraction included.
  \<^item> \<open>GoFlags\<close>, \<open>Startup\<close>: the \<^verbatim>\<open>flag\<close> package; scheme registration, \<open>SetupWithManager\<close> and \<open>main\<close>, over
    a manager with the contract \<open>manager\<close>.
  \<^item> \<open>SpecJson\<close>: \<open>MarshalJSON\<close> and \<open>UnmarshalJSON\<close> over \<^verbatim>\<open>bufio.Writer\<close>, with \<^verbatim>\<open>jsonpb\<close> as a parameter.
  \<^item> \<open>DeepCopy\<close>, \<open>DeepCopyTypes\<close>, \<open>DeepCopyProperties\<close>: the generated copy methods over an explicit heap
    with addresses, and the contract \<open>deep_copy\<close> closed under every construct of the generated code.
  \<^item> \<open>ExitMatcher\<close>: the matcher of the stress tests.
  \<^item> \<open>UptimeResults\<close>, \<open>UptimeCollector\<close>: the measurements of the uptime tests under \<^verbatim>\<open>src/test/uptime\<close>:
    the counters of samples and of their requests, the sampling goroutine by itself over a clock and a
    network (locale \<open>timed_net\<close>), and the upgrade checker.
  \<^item> \<open>UptimeRun\<close>: all sampling goroutines over the collector they share, as a step relation in which
    time and answers are arbitrary; the goroutine by itself is one of its schedules.
  \<^item> \<open>ScaleCollector\<close>, \<open>ScaleTest\<close>: the route mapper of the scale test under \<^verbatim>\<open>src/test/scale\<close>, whose
    goroutines meet only in calls under a mutex, and the walk over the apps.
  \<^item> \<open>ControlPlaneTest\<close>: the loop of the control plane uptime test, which starts the sampling goroutines
    until the upgrade checker reports the upgrade as finished, as a step relation with both.
  \<^item> \<open>AcceptanceConfig\<close>: the configuration of the acceptance tests.

  \<^bold>\<open>How code became definitions.\<close> A struct is a record whose fields carry the struct's initials, a
  pointer field an option, a Go map a partial function, a slice a list, \<^verbatim>\<open>int\<close> a 64-bit word. A function
  that returns an error returns \<open>go_result\<close>, whose left side also holds panics (nil dereference, index
  out of range). A method that talks to the API is a state transformer over the client's state, of
  which it sees only the answers. Only in the deep copy theories are pointers addresses, since there
  sharing is the point.

  \<^bold>\<open>What is shown.\<close> The builders: routing by longest prefix, weights that sum to 100, one
  VirtualService per FQDN whatever the listing order, exactly which inputs are refused. Single
  reconciles: the children of the route are exactly the desired ones, nothing else changes, a
  second run changes nothing, deletion leaves no child and is safe to retry, failures leave the
  VirtualServices alone, and a run on well-formed input succeeds. All runs: no Service outlives its
  route, whatever users do between and during reconciles short of stripping the controller's
  finalizer, and two rounds over all routes bring the cluster to the steady state. Start: the indexes the reconciler lists by are registered before the manager runs, and
  every exit code. Serialisation and copying: round trip and independence. The test tools: that
  the control plane test ends once the upgrade is reported as finished, what the reported percentages are, when an upgrade and a mapped route count as
  finished and as failed. This theory adds the
  property that joins builders and reconciler.

  \<^bold>\<open>Termination and bounds.\<close> Loops are structural or come with a measure (\<open>flag_Parse\<close>, \<open>Write\<close>,
  \<open>ParseDuration_loop\<close>), except the sampling loop \<open>Request_loop\<close>, which ends only because time passes:
  it is a partial function, proved to return; interleaved with others, each of its steps lowers a
  count of the requests the rest of the sample time has room for. The loop of the control plane test
  has no bound of its own either: an upgrade that never finishes keeps it going, and the bound counts
  from the report that it has. No definition needs fuel except the parser of the
  sample JSON codec, whose fuel is the length of its input. Integers are kept at their width
  where the code converts or adds them (weights, ports, durations).

  \<^bold>\<open>Not modelled.\<close> Log lines, and the operation result only they read. The \<^verbatim>\<open>Log\<close> and \<^verbatim>\<open>Scheme\<close> fields of
  the reconciler, which no code reads. Other writers of Services and VirtualServices, and two
  controllers at once. User actions on routes during a reconcile are in \<open>shared_api\<close> and the invariant
  proved over it; the other properties of reconciles are over \<open>kube_api\<close>, a run during which only the
  controller writes. Stale reads: the manager's client answers reads from a cache, which \<open>kube_api\<close> takes to have
  caught up when a reconcile starts and to show its own writes; in \<open>shared_api\<close> reads may lag behind the users, but
  not behind the controller's own writes of the route that is read and of its Services
  (\<open>lagging_list_orphans\<close> shows what happens otherwise). Finalizers of other controllers on Services and
  VirtualServices, which would hold their deletion back. The API machinery, controller-runtime, \<^verbatim>\<open>jsonpb\<close> and gomega
  are parameters with the laws stated in the locales. The capacity of slices: the one place where
  \<^verbatim>\<open>append\<close> overwrites a shared array (\<open>removeRouteFromRouteList\<close>) is assigned back to the only slice
  of that array. The data plane uptime test, which measures as one goroutine of the control plane test
  does, and the environment variables of both. The scenarios of the acceptance tests, which drive a live cluster through the cf CLI
  and kubectl; the manifests and the pipelines, which hold no Go code.
\<close>

section \<open>From a route to its backends\<close>

text \<open>
  C2. End to end: after a successful reconcile of a route that is not being deleted, the stored
  VirtualService of its FQDN has that FQDN as its only host. When the URL of every route of the
  namespace with that FQDN is the FQDN followed by the route's path, it sends every request path to
  the route with the longest matching path among those that are served, or to none when no served
  route matches. Served are the routes with destinations, and a route without any when it is the only
  one of its FQDN. The Service behind each of the reconciled route's own destinations exists under the
  host name the VirtualService uses.
\<close>

theorem requests_reach_backends:
  assumes "ext_lib L" and "kube_api C rv sv vv" and "RR_Client r = C"
    and "run_state (Reconcile L r req) s = (Inr res, t)" and "k = Req_NamespacedName req"
    and "rv s k = Some route" and "OM_DeletionTimestamp (R_ObjectMeta route) = None"
    and urls: "\<forall>y \<in> routes_sharing (rv s) (NN_Namespace k) (FQDN route). well_formed_url y"
  defines "rs \<equiv> routes_sharing (rv s) (NN_Namespace k) (FQDN route)"
  shows "\<exists>x. vv t (vs_key_of (NN_Namespace k) (FQDN route)) = Some x \<and> vs_hosts x = [FQDN route] \<and>
    (\<forall>uri. case select_http (vs_http x) uri of
        None \<Rightarrow> \<forall>y \<in> rs. served (card rs) y \<longrightarrow> \<not> prefix (path_of y) uri
      | Some h \<Rightarrow> \<exists>y \<in> rs. served (card rs) y \<and> prefix (path_of y) uri \<and> entry_for y h \<and>
          (\<forall>y' \<in> rs. served (card rs) y' \<and> prefix (path_of y') uri \<longrightarrow>
             length (path_of y') \<le> length (path_of y))) \<and>
    (\<forall>d \<in> set (RS_Destinations (R_Spec route)).
       \<exists>svc. sv t \<lparr>NN_Namespace = NN_Namespace k, NN_Name = serviceName d\<rparr> = Some svc)"
proof -
  obtain route' fs ds items v x where
    meta: "R_ObjectMeta route' = (R_ObjectMeta route)\<lparr>OM_Finalizers := fs\<rparr>" "R_Spec route' = R_Spec route"
    and ds: "ServiceBuilder_Build L route' = Inr ds" "services_applied (sv t) ds"
    and items: "set items = rs" "distinct (map route_key items)"
    and v: "VirtualServiceBuilder_Build L \<lparr>IstioGateways = [RR_IstioGateway r]\<rparr> \<lparr>RL_Items = items\<rparr> = Inr [v]"
    and x: "vv t = (vv s)(vs_key_of (NN_Namespace k) (FQDN route) \<mapsto> x)" "vs_managed x = vs_managed v"
    unfolding rs_def by (rule kube_api.Reconcile_present_ok [OF assms(2,4,3,5-7)]) blast
  have card: "length items = card rs"
    using items distinct_card [of items] by (simp add: distinct_map)
  have fqdns: "FQDN y = FQDN route" if "y \<in> rs" for y using that by (auto simp: rs_def routes_sharing_def)
  with items(1) have all: "routes_for items (FQDN route) = items" by (simp add: routes_for_def filter_id_conv)
  from v obtain f where f: "f \<in> FQDN ` set items"
      "fqdnToVirtualService L \<lparr>IstioGateways = [RR_IstioGateway r]\<rparr> f (routes_for items f) = Inr v"
    by (rule Build_mem) simp_all
  then have hosts: "vs_hosts v = [FQDN route]"
    using items(1) fqdns by (auto simp: fqdnToVirtualService_Inr_iff)
  have spec: "VS_Spec x = VS_Spec v" using x(2) by (simp add: vs_managed_def)
  have routed: "case select_http (vs_http x) uri of
      None \<Rightarrow> \<forall>y \<in> rs. served (card rs) y \<longrightarrow> \<not> prefix (path_of y) uri
    | Some h \<Rightarrow> \<exists>y \<in> rs. served (card rs) y \<and> prefix (path_of y) uri \<and> entry_for y h \<and>
        (\<forall>y' \<in> rs. served (card rs) y' \<and> prefix (path_of y') uri \<longrightarrow>
           length (path_of y') \<le> length (path_of y))" for uri
    using ext_lib.Build_longest_prefix [OF assms(1) v _ hosts, of uri] urls [folded rs_def]
    by (simp add: items(1) all card spec cong: option.case_cong)
  have ns: "OM_Namespace (R_ObjectMeta route') = NN_Namespace k"
    using kube_api.route_store_key [OF assms(2,6)] meta(1) by auto
  have "sv t \<lparr>NN_Namespace = NN_Namespace k, NN_Name = serviceName d\<rparr> \<noteq> None"
    if "d \<in> set (RS_Destinations (R_Spec route))" for d
  proof -
    have "\<lparr>NN_Namespace = NN_Namespace k, NN_Name = serviceName d\<rparr> \<in> set (map service_key ds)"
      unfolding ServiceBuilder_Build_keys [OF ds(1)] using that meta(2) ns by auto
    with applied_exists [OF ds(2)] show ?thesis by auto
  qed
  with routed hosts spec x(1) show ?thesis by (intro exI [of _ x]) auto
qed

theorem requests_reach_backends_witness:
  "\<exists>res t x h. run_state (Reconcile go_lib sample_reconciler sample_req) (sample_cluster [route0, route1]) = (Inr res, t) \<and>
     mem_vss t (vs_key_of (NN_Namespace sample_key) sample_fqdn) = Some x \<and>
     select_http (vs_http x) ''/path0/deeper/x'' = Some h \<and> entry_for route1 h"
proof -
  obtain res t where run: "run_state (Reconcile go_lib sample_reconciler sample_req) (sample_cluster [route0, route1]) = (Inr res, t)"
    by (rule sample_run)
  have served: "served n route1" for n by (simp add: served_def sample_defs)
  obtain x where x: "mem_vss t (vs_key_of (NN_Namespace sample_key) sample_fqdn) = Some x"
    and sel: "case select_http (vs_http x) ''/path0/deeper/x'' of
        None \<Rightarrow> \<forall>y \<in> {route0, route1}. served (card {route0, route1}) y \<longrightarrow> \<not> prefix (path_of y) ''/path0/deeper/x''
      | Some h \<Rightarrow> \<exists>y \<in> {route0, route1}. served (card {route0, route1}) y \<and> prefix (path_of y) ''/path0/deeper/x'' \<and>
          entry_for y h \<and> (\<forall>y' \<in> {route0, route1}. served (card {route0, route1}) y' \<and>
            prefix (path_of y') ''/path0/deeper/x'' \<longrightarrow> length (path_of y') \<le> length (path_of y))"
    using requests_reach_backends [OF golib.ext_lib_axioms mem_api _ run, of sample_key route0] sample_guids
    unfolding sample_FQDNs sample_sharing by auto
  from sel have "case select_http (vs_http x) ''/path0/deeper/x'' of None \<Rightarrow> False | Some h \<Rightarrow> entry_for route1 h"
    using served by (auto simp: sample_paths split: option.splits)
  with x have "\<exists>x h. mem_vss t (vs_key_of (NN_Namespace sample_key) sample_fqdn) = Some x \<and>
      select_http (vs_http x) ''/path0/deeper/x'' = Some h \<and> entry_for route1 h"
    by (intro exI [of _ x]) (simp split: option.splits)
  with run show ?thesis by blast
qed

end
